(* ===== verification/Tribunal_Prelude.thy ===== *)
theory Tribunal_Prelude
  imports Complex_Main "HOL-Library.Char_ord" "HOL-Library.List_Lexorder" "HOL-Library.Sublist"
begin

text \<open>
  The vocabulary every component of the tribunal shares: what a C++ call can end in
  (\<open>outcome\<close>), the character functions, and the operations of \<open>std::string\<close> the sources use
  to search and cut texts. Numbers and lines are in \<open>Cpp_Numbers\<close>, \<open>std::map\<close> and the selection
  loop in \<open>Ordered_Map\<close>. A \<open>std::string\<close> is a list of bytes, so HOL's \<open>string\<close> models it exactly.
\<close>

named_theorems tribunal_simps \<open>unfolding facts of the model used by the component proofs\<close>

section \<open>Outcomes of a call\<close>

datatype exn_kind = Runtime_error | Invalid_argument | Out_of_range | Config_validation_error

datatype exn = Exn (exn_kind: exn_kind) (what: string)

text \<open>
  \<open>Ret\<close> is a normal return, \<open>Throw\<close> a C++ exception, \<open>Undef\<close> undefined behaviour of the
  language (with the reason), \<open>Blocked\<close> a call that never returns because the calling
  thread waits for a mutex it already holds.
\<close>

datatype 'a outcome = Ret 'a | Throw exn | Undef string | Blocked

fun obind :: "'a outcome \<Rightarrow> ('a \<Rightarrow> 'b outcome) \<Rightarrow> 'b outcome" where
  "obind (Ret x) f = f x"
| "obind (Throw e) f = Throw e"
| "obind (Undef r) f = Undef r"
| "obind Blocked f = Blocked"

fun omap :: "('a \<Rightarrow> 'b) \<Rightarrow> 'a outcome \<Rightarrow> 'b outcome" where
  "omap f (Ret x) = Ret (f x)"
| "omap f (Throw e) = Throw e"
| "omap f (Undef r) = Undef r"
| "omap f Blocked = Blocked"

lemma obind_Ret_iff: "obind m f = Ret y \<longleftrightarrow> (\<exists>x. m = Ret x \<and> f x = Ret y)"
  by (cases m) auto

lemma omap_Ret_iff: "omap f m = Ret y \<longleftrightarrow> (\<exists>x. m = Ret x \<and> y = f x)"
  by (cases m) auto

section \<open>Characters\<close>

abbreviation code_of :: "char \<Rightarrow> nat" where
  "code_of c \<equiv> of_char c"

definition isspace :: "char \<Rightarrow> bool" where
  "isspace c \<longleftrightarrow> c \<in> {CHR 0x20, CHR 0x09, CHR 0x0A, CHR 0x0B, CHR 0x0C, CHR 0x0D}"

definition tolower :: "char \<Rightarrow> char" where
  "tolower c = (if 65 \<le> code_of c \<and> code_of c \<le> 90 then char_of (code_of c + 32) else c)"

definition lowercase :: "string \<Rightarrow> string" where
  "lowercase s = map tolower s"

lemma code_of_char_of: "n < 256 \<Longrightarrow> code_of (char_of (n::nat)) = n"
  by simp

lemma tolower_idem [simp]: "tolower (tolower c) = tolower c"
  by (auto simp: tolower_def)

lemma lowercase_idem [simp]: "lowercase (lowercase s) = lowercase s"
  by (simp add: lowercase_def)

lemma length_lowercase [simp]: "length (lowercase s) = length s"
  by (simp add: lowercase_def)

section \<open>Searching and cutting strings\<close>

fun find_sub :: "string \<Rightarrow> string \<Rightarrow> nat option" where
  "find_sub p [] = (if p = [] then Some 0 else None)"
| "find_sub p (c # cs) =
     (if take (length p) (c # cs) = p then Some 0 else map_option Suc (find_sub p cs))"

text \<open>\<open>s.find(p, pos)\<close>; \<open>None\<close> is \<open>std::string::npos\<close>.\<close>

definition str_find :: "string \<Rightarrow> string \<Rightarrow> nat \<Rightarrow> nat option" where
  "str_find s p pos =
     (if length s < pos then None else map_option (\<lambda>i. i + pos) (find_sub p (drop pos s)))"

text \<open>\<open>s.substr(pos, n)\<close> for a position inside the string.\<close>

definition substr :: "string \<Rightarrow> nat \<Rightarrow> nat \<Rightarrow> string" where
  "substr s pos n = take n (drop pos s)"

abbreviation quote :: char where
  "quote \<equiv> CHR 0x22"

lemma find_sub_Some:
  "find_sub p s = Some i \<Longrightarrow> take (length p) (drop i s) = p \<and> i + length p \<le> length s"
proof (induction s arbitrary: i)
  case Nil
  then show ?case by (auto split: if_splits)
next
  case (Cons c cs)
  show ?case
  proof (cases "take (length p) (c # cs) = p")
    case True
    then have "length p \<le> length (c # cs)" by (metis length_take min.cobounded1)
    with True Cons.prems show ?thesis by auto
  next
    case False
    with Cons show ?thesis by auto
  qed
qed

lemma find_sub_least:
  "find_sub p s = Some i \<Longrightarrow> j < i \<Longrightarrow> take (length p) (drop j s) \<noteq> p"
proof (induction s arbitrary: i j)
  case Nil
  then show ?case by (auto split: if_splits)
next
  case (Cons c cs)
  then show ?case by (cases j) (auto split: if_splits)
qed

lemma find_sub_None_iff: "find_sub p s = None \<longleftrightarrow> \<not> sublist p s"
proof (induction s)
  case Nil
  then show ?case by auto
next
  case (Cons c cs)
  have "take (length p) (c # cs) = p \<longleftrightarrow> prefix p (c # cs)"
    by (metis append_eq_conv_conj prefix_def take_is_prefix)
  with Cons show ?case by (auto simp: sublist_Cons_right)
qed

lemma find_sub_Some_iff: "(\<exists>i. find_sub p s = Some i) \<longleftrightarrow> sublist p s"
  using find_sub_None_iff [of p s] by auto

lemma find_sub_char:
  "c \<notin> set a \<Longrightarrow> find_sub [c] (a @ c # b) = Some (length a)"
  by (induction a) auto

lemma find_sub_char_None: "c \<notin> set s \<Longrightarrow> find_sub [c] s = None"
  by (induction s) auto

lemma find_sub_prefix [simp]: "find_sub p (p @ b) = Some 0"
proof (cases "p @ b")
  case (Cons c cs)
  then have "take (length p) (c # cs) = p" by (metis append_eq_conv_conj)
  with Cons show ?thesis by simp
qed simp

lemma str_find_Some:
  assumes "str_find s p pos = Some i"
  shows "pos \<le> i" and "i + length p \<le> length s" and "take (length p) (drop i s) = p"
  using assms find_sub_Some [of p "drop pos s"]
  by (fastforce simp: str_find_def split: if_splits)+

lemma str_find_0: "str_find s p 0 = find_sub p s"
  by (simp add: str_find_def option.map_ident)

text \<open>
  The pattern the JSON readers of the program share: find \<open>"key":"\<close>, then take the text
  up to the next double quote.
\<close>

definition extract_quoted :: "string \<Rightarrow> string \<Rightarrow> string option" where
  "extract_quoted pat s =
     (case str_find s pat 0 of
        None \<Rightarrow> None
      | Some p \<Rightarrow>
          (case str_find s [quote] (p + length pat) of
             None \<Rightarrow> None
           | Some e \<Rightarrow> Some (substr s (p + length pat) (e - (p + length pat)))))"

lemma extract_quoted_at:
  assumes "find_sub pat (pre @ pat @ v @ quote # rest) = Some (length pre)"
    and "quote \<notin> set v"
  shows "extract_quoted pat (pre @ pat @ v @ quote # rest) = Some v"
  using assms by (simp add: extract_quoted_def str_find_def substr_def find_sub_char)

lemma find_sub_char_take: "find_sub [c] s = Some k \<Longrightarrow> c \<notin> set (take k s)"
proof (induction s arbitrary: k)
  case (Cons d s)
  then show ?case by (cases k) (auto split: if_splits)
qed auto

lemma extract_quoted_no_quote: "extract_quoted pat s = Some v \<Longrightarrow> quote \<notin> set v"
  by (auto simp: extract_quoted_def substr_def str_find_def dest: find_sub_char_take
      split: option.splits if_splits)

end
