(* ===== verification/Cpp_Numbers.thy ===== *)
theory Cpp_Numbers
  imports Tribunal_Prelude
begin

text \<open>
  Numbers and lines as the sources read and write them: the range of \<open>int\<close>, C++'s truncating
  division, \<open>std::to_string\<close> and stream output of integers and floating-point numbers,
  \<open>std::stoi\<close> with its three ways to end (a value, \<open>invalid_argument\<close>, \<open>out_of_range\<close>), and
  \<open>std::getline\<close>.
\<close>

section \<open>The range of int\<close>

definition INT_MAX :: int where "INT_MAX = 2147483647"

definition INT_MIN :: int where "INT_MIN = - 2147483648"

definition is_int :: "int \<Rightarrow> bool" where
  "is_int v \<longleftrightarrow> INT_MIN \<le> v \<and> v \<le> INT_MAX"

text \<open>A signed operation whose exact result leaves the range of \<open>int\<close> is undefined.\<close>

definition checked_int :: "int \<Rightarrow> int outcome" where
  "checked_int v = (if is_int v then Ret v else Undef ''signed overflow'')"

text \<open>\<open>/\<close> and \<open>%\<close> on signed integers truncate towards zero.\<close>

definition cdiv :: "int \<Rightarrow> int \<Rightarrow> int" where
  "cdiv a b = sgn a * sgn b * (\<bar>a\<bar> div \<bar>b\<bar>)"

definition cmod :: "int \<Rightarrow> int \<Rightarrow> int" where
  "cmod a b = a - cdiv a b * b"

lemma cdiv_nonneg: "0 \<le> a \<Longrightarrow> 0 < b \<Longrightarrow> cdiv a b = a div b"
  by (cases "a = 0") (auto simp: cdiv_def)

lemma cmod_nonneg: "0 \<le> a \<Longrightarrow> 0 < b \<Longrightarrow> cmod a b = a mod b"
  by (simp add: cmod_def cdiv_nonneg minus_div_mult_eq_mod)

lemma cmod_neg: "a < 0 \<Longrightarrow> 0 < b \<Longrightarrow> cmod a b = - ((- a) mod b)"
  by (simp add: cmod_def cdiv_def minus_div_mult_eq_mod [symmetric])

section \<open>Decimal output\<close>

definition digit_char :: "nat \<Rightarrow> char" where
  "digit_char d = char_of (48 + d)"

fun show_nat :: "nat \<Rightarrow> string" where
  "show_nat n =
     (if n < 10 then [digit_char n] else show_nat (n div 10) @ [digit_char (n mod 10)])"

declare show_nat.simps [simp del]

definition show_int :: "int \<Rightarrow> string" where
  "show_int i = (if i < 0 then CHR ''-'' # show_nat (nat (- i)) else show_nat (nat i))"

definition show_bool :: "bool \<Rightarrow> string" where
  "show_bool b = (if b then ''true'' else ''false'')"

text \<open>Rounding as \<open>printf\<close> does it: to the nearest, ties to even.\<close>

definition round_half_even :: "rat \<Rightarrow> int" where
  "round_half_even x =
     (let n = \<lfloor>x\<rfloor>; r = x - of_int n
      in if r < 1 / 2 then n else if r > 1 / 2 then n + 1 else if even n then n else n + 1)"

text \<open>
  Stream output of a \<open>float\<close> or \<open>double\<close> with the default precision of six significant digits
  (\<open>%g\<close>): the decimal exponent, found within the range of a \<open>double\<close>, the six digits, and one
  of two layouts, both with the trailing zeros of the fraction removed.
\<close>

fun exponent10 :: "nat \<Rightarrow> rat \<Rightarrow> int" where
  "exponent10 0 a = 0"
| "exponent10 (Suc k) a =
     (if a \<ge> 10 then exponent10 k (a / 10) + 1 else if a < 1 then exponent10 k (a * 10) - 1 else 0)"

definition pad_zeros :: "nat \<Rightarrow> string \<Rightarrow> string" where
  "pad_zeros n s = replicate (n - length s) (CHR ''0'') @ s"

definition six_digits :: "rat \<Rightarrow> int \<times> nat" where
  "six_digits a =
     (let e = exponent10 330 a;
          n = nat (round_half_even (if e \<le> 5 then a * 10 ^ nat (5 - e) else a / 10 ^ nat (e - 5)))
      in if n = 10 ^ 6 then (e + 1, 10 ^ 5) else (e, n))"

definition fraction_text :: "nat \<Rightarrow> nat \<Rightarrow> string" where
  "fraction_text d n =
     (let frac = if d = 0 then [] else pad_zeros d (show_nat n);
          kept = rev (dropWhile (\<lambda>c. c = CHR ''0'') (rev frac))
      in if kept = [] then [] else ''.'' @ kept)"

definition show_float :: "rat \<Rightarrow> string" where
  "show_float x =
     (if x = 0 then ''0''
      else (let (e, n) = six_digits \<bar>x\<bar>
            in (if x < 0 then ''-'' else []) @
               (if - 4 \<le> e \<and> e < 6
                then (let d = nat (5 - e)
                      in show_nat (n div 10 ^ d) @ fraction_text d (n mod 10 ^ d))
                else show_nat (n div 10 ^ 5) @ fraction_text 5 (n mod 10 ^ 5) @ ''e'' @
                  (if e < 0 then ''-'' else ''+'') @ pad_zeros 2 (show_nat (nat \<bar>e\<bar>)))))"

section \<open>std::stoi\<close>

text \<open>The digits \<open>strtol\<close> accepts in a base up to 16.\<close>

definition digit_value :: "nat \<Rightarrow> char \<Rightarrow> nat option" where
  "digit_value base c =
     (let n = code_of c;
          v = (if 48 \<le> n \<and> n \<le> 57 then n - 48
               else if 97 \<le> n \<and> n \<le> 122 then n - 87
               else if 65 \<le> n \<and> n \<le> 90 then n - 55
               else 36)
      in if v < base then Some v else None)"

fun leading_digits :: "nat \<Rightarrow> string \<Rightarrow> nat list" where
  "leading_digits base [] = []"
| "leading_digits base (c # cs) =
     (case digit_value base c of None \<Rightarrow> [] | Some d \<Rightarrow> d # leading_digits base cs)"

definition digits_to_nat :: "nat \<Rightarrow> nat list \<Rightarrow> nat" where
  "digits_to_nat base ds = foldl (\<lambda>a d. a * base + d) 0 ds"

fun drop_hex_prefix :: "nat \<Rightarrow> string \<Rightarrow> string" where
  "drop_hex_prefix base (z # x # c # cs) =
     (if base = 16 \<and> z = CHR ''0'' \<and> (x = CHR ''x'' \<or> x = CHR ''X'')
         \<and> digit_value 16 c \<noteq> None
      then c # cs else z # x # c # cs)"
| "drop_hex_prefix base s = s"

fun take_sign :: "string \<Rightarrow> bool \<times> string" where
  "take_sign (c # cs) =
     (if c = CHR ''-'' then (True, cs) else if c = CHR ''+'' then (False, cs)
      else (False, c # cs))"
| "take_sign [] = (False, [])"

text \<open>\<open>None\<close>: no conversion could be performed.\<close>

definition strtol :: "nat \<Rightarrow> string \<Rightarrow> int option" where
  "strtol base s =
     (case take_sign (dropWhile isspace s) of
        (neg, r) \<Rightarrow>
          (let ds = leading_digits base (drop_hex_prefix base r);
               v = int (digits_to_nat base ds)
           in if ds = [] then None else Some (if neg then - v else v)))"

definition stoi_base :: "nat \<Rightarrow> string \<Rightarrow> int outcome" where
  "stoi_base base s =
     (case strtol base s of
        None \<Rightarrow> Throw (Exn Invalid_argument ''stoi'')
      | Some v \<Rightarrow> if is_int v then Ret v else Throw (Exn Out_of_range ''stoi''))"

abbreviation stoi :: "string \<Rightarrow> int outcome" where
  "stoi \<equiv> stoi_base 10"

section \<open>Printing and reading agree\<close>

lemma digit_value_digit_char: "d < 10 \<Longrightarrow> digit_value 10 (digit_char d) = Some d"
  by (simp add: digit_value_def digit_char_def Let_def)

lemma digit_char_not_special:
  assumes "d < 10"
  shows "\<not> isspace (digit_char d)" and "digit_char d \<noteq> CHR ''-''" and "digit_char d \<noteq> CHR ''+''"
    and "digit_char d \<noteq> quote"
proof -
  from assms have n: "code_of (digit_char d) = 48 + d" by (simp add: digit_char_def)
  have *: "c \<noteq> digit_char d" if "code_of c < (48::nat)" for c
    using n that by auto
  show "\<not> isspace (digit_char d)" and "digit_char d \<noteq> CHR ''-''"
    and "digit_char d \<noteq> CHR ''+''" and "digit_char d \<noteq> quote"
    using * [of "CHR 0x20"] * [of "CHR 0x09"] * [of "CHR 0x0A"] * [of "CHR 0x0B"]
      * [of "CHR 0x0C"] * [of "CHR 0x0D"] * [of "CHR ''-''"] * [of "CHR ''+''"] * [of quote]
    by (auto simp: isspace_def)
qed

lemma leading_digits_append:
  "\<forall>c\<in>set a. digit_value base c \<noteq> None \<Longrightarrow>
   leading_digits base (a @ b) = map (\<lambda>c. the (digit_value base c)) a @ leading_digits base b"
  by (induction a) auto

lemma show_nat_digits: "c \<in> set (show_nat n) \<Longrightarrow> \<exists>d<10. c = digit_char d"
proof (induction n rule: show_nat.induct)
  case (1 n)
  show ?case
  proof (cases "n < 10")
    case True
    with 1 show ?thesis by (auto simp: show_nat.simps [of n])
  next
    case False
    with 1 have "c \<in> set (show_nat (n div 10)) \<or> c = digit_char (n mod 10)"
      by (auto simp: show_nat.simps [of n])
    moreover have "n mod 10 < 10" by simp
    ultimately show ?thesis using 1(1) False by blast
  qed
qed

lemma show_nat_nonempty [simp]: "show_nat n \<noteq> []"
  by (subst show_nat.simps) simp

lemma show_nat_value:
  "digits_to_nat 10 (map (\<lambda>c. the (digit_value 10 c)) (show_nat n)) = n"
proof (induction n rule: show_nat.induct)
  case (1 n)
  show ?case
  proof (cases "n < 10")
    case True
    then show ?thesis
      by (subst show_nat.simps) (simp add: digit_value_digit_char digits_to_nat_def)
  next
    case False
    then have "digits_to_nat 10 (map (\<lambda>c. the (digit_value 10 c)) (show_nat n)) =
        digits_to_nat 10 (map (\<lambda>c. the (digit_value 10 c)) (show_nat (n div 10))) * 10 + n mod 10"
      by (subst show_nat.simps) (simp add: digit_value_digit_char digits_to_nat_def)
    with 1 False show ?thesis by simp
  qed
qed

lemma strtol_show_nat:
  assumes "leading_digits 10 rest = []"
  shows "strtol 10 (show_nat n @ rest) = Some (int n)"
    and "strtol 10 (CHR ''-'' # show_nat n @ rest) = Some (- int n)"
proof -
  obtain c cs where s: "show_nat n = c # cs" by (cases "show_nat n") auto
  then obtain d where d: "d < 10" "c = digit_char d"
    using show_nat_digits [of c n] by auto
  have dig: "\<forall>c\<in>set (show_nat n). digit_value 10 c \<noteq> None"
    using show_nat_digits by (fastforce simp: digit_value_digit_char)
  have hex: "drop_hex_prefix 10 r = r" for r
    by (cases "(10::nat, r)" rule: drop_hex_prefix.cases) auto
  have ld: "leading_digits 10 (show_nat n @ rest) = map (\<lambda>c. the (digit_value 10 c)) (show_nat n)"
    using leading_digits_append [OF dig, of rest] assms by simp
  have sp: "dropWhile isspace (show_nat n @ rest) = show_nat n @ rest"
    "take_sign (show_nat n @ rest) = (False, show_nat n @ rest)"
    using digit_char_not_special [OF d(1)] d(2) s by auto
  show "strtol 10 (show_nat n @ rest) = Some (int n)"
    by (simp add: strtol_def sp hex ld show_nat_value Let_def)
  show "strtol 10 (CHR ''-'' # show_nat n @ rest) = Some (- int n)"
    by (simp add: strtol_def isspace_def hex ld show_nat_value Let_def)
qed

lemma stoi_show_int:
  assumes "is_int i" and "leading_digits 10 rest = []"
  shows "stoi (show_int i @ rest) = Ret i"
  using assms strtol_show_nat [OF assms(2), of "nat i"] strtol_show_nat [OF assms(2), of "nat (- i)"]
  by (auto simp: stoi_base_def show_int_def)

lemma show_int_no_quote: "quote \<notin> set (show_int i)"
proof -
  have "quote \<notin> set (show_nat n)" for n
    using show_nat_digits [of quote n] digit_char_not_special(4) by metis
  then show ?thesis by (auto simp: show_int_def)
qed

lemma stoi_is_int: "stoi_base b s = Ret v \<Longrightarrow> is_int v"
  by (auto simp: stoi_base_def split: option.splits if_splits)

lemma stoi_total: "(\<exists>v. stoi_base b s = Ret v) \<or> (\<exists>e. stoi_base b s = Throw e)"
  by (cases "strtol b s") (auto simp: stoi_base_def)

section \<open>Lines\<close>

text \<open>
  \<open>std::getline\<close> on the unread rest of a text: \<open>None\<close> at the end of the text, otherwise
  the line and what is left after its newline.
\<close>

definition newline :: char where
  "newline = CHR 0x0A"

definition getline :: "string \<Rightarrow> (string \<times> string) option" where
  "getline s =
     (if s = [] then None
      else Some (takeWhile (\<lambda>c. c \<noteq> newline) s, drop 1 (dropWhile (\<lambda>c. c \<noteq> newline) s)))"

lemma getline_shorter: "getline s = Some (l, r) \<Longrightarrow> length r < length s"
  using length_dropWhile_le [of "\<lambda>c. c \<noteq> newline" s]
  by (cases s) (auto simp: getline_def split: if_splits)

text \<open>The lines a \<open>while (std::getline(in, line))\<close> loop sees.\<close>

function getlines :: "string \<Rightarrow> string list" where
  "getlines s = (case getline s of None \<Rightarrow> [] | Some (l, r) \<Rightarrow> l # getlines r)"
  by pat_completeness auto
termination
  by (relation "measure length") (auto dest: getline_shorter)

declare getlines.simps [simp del]

lemma getlines_Nil [simp]: "getlines [] = []"
  by (simp add: getlines.simps getline_def)

lemma getlines_line:
  assumes "newline \<notin> set l"
  shows "getlines (l @ newline # r) = l # getlines r"
proof -
  have "takeWhile (\<lambda>c. c \<noteq> newline) (l @ newline # r) = l"
    using assms by (subst takeWhile_append2) auto
  moreover have "dropWhile (\<lambda>c. c \<noteq> newline) (l @ newline # r) = newline # r"
    using assms by (subst dropWhile_append2) auto
  ultimately show ?thesis
    by (subst getlines.simps) (simp add: getline_def)
qed

end
