(* ===== verification/Core_Types.thy ===== *)
theory Core_Types
  imports Cpp_Numbers
begin

text \<open>
  The data of \<open>core/types.h\<close>: the constants, the enumerations with their string names, the
  contribution statistics of an analyst, the configuration and the C-compatible structs of
  the earlier phases. Every record has its default value, the one the member initialisers
  of the source give. \<open>int\<close> members are mathematical integers; where an operation on them
  can leave the range of the machine type the operation says so.
\<close>

section \<open>Constants\<close>

definition MAX_MODELS :: nat where "MAX_MODELS = 16"

definition MAX_DYNAMIC_ROLES :: nat where "MAX_DYNAMIC_ROLES = 4"

definition BASE_ANALYST_COUNT :: nat where "BASE_ANALYST_COUNT = 4"

definition MAX_FILE_BYTES :: int where "MAX_FILE_BYTES = 32768"

definition SCORE_ADOPTED :: int where "SCORE_ADOPTED = 2"

definition SCORE_CHALLENGE_WON :: int where "SCORE_CHALLENGE_WON = 1"

definition MAX_IDLE_ROUNDS :: int where "MAX_IDLE_ROUNDS = 3"

definition MIN_CONTRIBUTION_SCORE :: int where "MIN_CONTRIBUTION_SCORE = 2"

lemmas core_constants [tribunal_simps] =
  MAX_MODELS_def BASE_ANALYST_COUNT_def SCORE_ADOPTED_def SCORE_CHALLENGE_WON_def
  MAX_IDLE_ROUNDS_def MIN_CONTRIBUTION_SCORE_def

section \<open>Enumerations\<close>

datatype analyst_role = Security | Performance | Correctness | Style | Dynamic | Judge

datatype query_type =
  Code_review | Security_audit | Performance_query | Correctness_query | Style_query
| Refactoring | Unknown_query

datatype election_outcome = Election_success | Election_tie | Election_error

datatype vote_type = Arbiter_election | Role_spawn | Analyst_prune

text \<open>The values the enumerators carry; \<open>static_cast<int>\<close> of them is printed by main.\<close>

fun query_type_int :: "query_type \<Rightarrow> int" where
  "query_type_int Code_review = 0"
| "query_type_int Security_audit = 1"
| "query_type_int Performance_query = 2"
| "query_type_int Correctness_query = 3"
| "query_type_int Style_query = 4"
| "query_type_int Refactoring = 5"
| "query_type_int Unknown_query = 6"

fun role_to_string :: "analyst_role \<Rightarrow> string" where
  "role_to_string Security = ''security''"
| "role_to_string Performance = ''performance''"
| "role_to_string Correctness = ''correctness''"
| "role_to_string Style = ''style''"
| "role_to_string Dynamic = ''dynamic''"
| "role_to_string Judge = ''judge''"

definition string_to_role :: "string \<Rightarrow> analyst_role option" where
  "string_to_role str =
     (if str = ''security'' then Some Security
      else if str = ''performance'' then Some Performance
      else if str = ''correctness'' then Some Correctness
      else if str = ''style'' then Some Style
      else if str = ''dynamic'' then Some Dynamic
      else if str = ''judge'' then Some Judge
      else None)"

lemma string_to_role_to_string: "string_to_role (role_to_string r) = Some r"
  by (cases r) (simp_all add: string_to_role_def)

lemma role_to_string_of_Some: "string_to_role s = Some r \<Longrightarrow> role_to_string r = s"
  by (auto simp: string_to_role_def split: if_splits)

section \<open>Contribution statistics\<close>

record analyst_stats =
  proposals_adopted :: int
  challenges_won :: int
  rounds_active :: int
  rounds_since_contrib :: int
  total_score :: int
  removal_immune :: int
  pruned :: int

definition analyst_stats_default :: analyst_stats where
  "analyst_stats_default =
     \<lparr>proposals_adopted = 0, challenges_won = 0, rounds_active = 0, rounds_since_contrib = 0,
      total_score = 0, removal_immune = 0, pruned = 0\<rparr>"

definition stats_is_active :: "analyst_stats \<Rightarrow> bool" where
  "stats_is_active st \<longleftrightarrow> pruned st = 0 \<and> removal_immune st \<ge> 0"

section \<open>Structs of the C-compatible layer\<close>

record round_response =
  response_text :: string
  response_error :: int

record file_entry =
  file_path :: string
  file_summary :: string

record election_record =
  arbiter_idx :: int
  arbiter_role :: string
  arbiter_model :: string
  record_votes :: "int list"
  record_reasons :: "string list"
  held_after_round :: int

definition election_record_default :: election_record where
  "election_record_default =
     \<lparr>arbiter_idx = - 1, arbiter_role = [], arbiter_model = [], record_votes = [],
      record_reasons = [], held_after_round = 0\<rparr>"

record pool_event =
  event_round :: int
  event_vote_type :: vote_type
  event_passed :: bool
  event_role_name :: string
  event_model :: string
  event_rationale :: string

section \<open>Configuration\<close>

record configuration =
  rounds :: int
  election_start :: int
  election_backoff :: int
  election_max :: int
  spawn_enabled :: int
  spawn_check_round :: int
  prune_enabled :: int
  prune_interval :: int
  prune_grace :: int
  min_analysts :: int
  prune_respawn :: int
  models :: "string list"
  judge_model :: string
  fast_model :: string
  ollama_urls :: "string list"
  ollama_timeout :: int
  max_file_bytes :: int
  exclude_dirs :: "string list"
  gitignore_patterns :: "string list"
  api_type :: string
  ollama_api_url :: string
  claude_api_key :: string
  claude_model :: string
  google_agy_api_key :: string
  google_agy_model :: string
  google_agy_endpoint :: string

definition configuration_default :: configuration where
  "configuration_default =
     \<lparr>rounds = 4, election_start = 1, election_backoff = 2, election_max = 8,
      spawn_enabled = 1, spawn_check_round = 1, prune_enabled = 1, prune_interval = 3,
      prune_grace = 2, min_analysts = 2, prune_respawn = 1,
      models = [], judge_model = ''llama3.2'', fast_model = [],
      ollama_urls = [], ollama_timeout = 120,
      max_file_bytes = MAX_FILE_BYTES, exclude_dirs = [], gitignore_patterns = [],
      api_type = ''ollama'', ollama_api_url = ''http://localhost:11434/api/chat'',
      claude_api_key = [], claude_model = ''claude-3-5-sonnet-20241022'',
      google_agy_api_key = [], google_agy_model = [], google_agy_endpoint = []\<rparr>"

section \<open>The aggregates of the first port\<close>

text \<open>\<open>AnalystData\<close> and \<open>Council\<close>; the classes \<open>Analyst\<close> and \<open>CouncilOrchestrator\<close> have taken their place.\<close>

record analyst_struct =
  as_model :: string
  as_role :: analyst_role
  as_role_name :: string
  as_system_prompt :: string
  as_rounds :: "round_response list"
  as_stats :: analyst_stats
  as_is_dynamic :: int
  as_spawn_round :: int
  as_done :: int
  as_error :: int

definition analyst_struct_default :: analyst_struct where
  "analyst_struct_default =
     \<lparr>as_model = [], as_role = Security, as_role_name = [], as_system_prompt = [], as_rounds = [],
      as_stats = analyst_stats_default, as_is_dynamic = 0, as_spawn_round = 0, as_done = 0,
      as_error = 0\<rparr>"

record council_struct =
  cs_task :: string
  cs_files :: "file_entry list"
  cs_analysts :: "analyst_struct list"
  cs_base_analyst_count :: int
  cs_round_count :: int
  cs_current_round :: int
  cs_election_start :: int
  cs_election_backoff :: int
  cs_election_max :: int
  cs_next_election_round :: int
  cs_election_interval :: int
  cs_elections :: "election_record list"
  cs_spawn_enabled :: int
  cs_spawn_check_round :: int
  cs_dynamic_count :: int
  cs_prune_enabled :: int
  cs_prune_interval :: int
  cs_prune_grace :: int
  cs_prune_respawn :: int
  cs_pool_events :: "pool_event list"
  cs_judge_model :: string
  cs_fast_model :: string
  cs_fast_mode :: int
  cs_max_file_bytes :: int
  cs_exclude_dirs :: "string list"
  cs_gitignore_patterns :: "string list"
  cs_consensus :: string
  cs_manifest :: string
  cs_skipped_log :: string
  cs_db_path :: string
  cs_auto_apply :: int

definition council_struct_default :: council_struct where
  "council_struct_default =
     \<lparr>cs_task = [], cs_files = [], cs_analysts = [], cs_base_analyst_count = 4,
      cs_round_count = 0, cs_current_round = 0, cs_election_start = 1, cs_election_backoff = 2,
      cs_election_max = 8, cs_next_election_round = 0, cs_election_interval = 1, cs_elections = [],
      cs_spawn_enabled = 1, cs_spawn_check_round = 1, cs_dynamic_count = 0, cs_prune_enabled = 1,
      cs_prune_interval = 3, cs_prune_grace = 2, cs_prune_respawn = 1, cs_pool_events = [],
      cs_judge_model = [], cs_fast_model = [], cs_fast_mode = 0, cs_max_file_bytes = MAX_FILE_BYTES,
      cs_exclude_dirs = [], cs_gitignore_patterns = [], cs_consensus = [], cs_manifest = [],
      cs_skipped_log = [], cs_db_path = [], cs_auto_apply = 0\<rparr>"

text \<open>The schedule of the two defaults is the same.\<close>

lemma council_struct_schedule:
  "cs_election_start council_struct_default = election_start configuration_default \<and>
   cs_election_backoff council_struct_default = election_backoff configuration_default \<and>
   cs_election_max council_struct_default = election_max configuration_default \<and>
   cs_prune_interval council_struct_default = prune_interval configuration_default \<and>
   cs_prune_grace council_struct_default = prune_grace configuration_default \<and>
   cs_max_file_bytes council_struct_default = max_file_bytes configuration_default"
  by (simp add: council_struct_default_def configuration_default_def)

end
