(* ===== verification/LLM_Client.thy ===== *)
theory LLM_Client
  imports Core_Types
begin

text \<open>
  The provider interface of \<open>llm/LLMClient.h\<close>: requests, responses, and the contract the
  debate relies on. The header lets \<open>query\<close> throw; the contract the four providers keep is
  stronger, and the locale states it: a query returns a response, and a response that
  carries an error carries no text.
\<close>

section \<open>Requests and responses\<close>

record prompt_request =
  req_model :: string
  req_system_prompt :: string
  req_user_message :: string
  req_temperature :: rat
  req_max_tokens :: int
  req_stop_sequences :: "string list"

record prompt_response =
  resp_text :: string
  resp_tokens_used :: int
  resp_truncated :: bool
  resp_error :: string

definition prompt_response_default :: prompt_response where
  "prompt_response_default =
     \<lparr>resp_text = [], resp_tokens_used = 0, resp_truncated = False, resp_error = []\<rparr>"

definition error_response :: "string \<Rightarrow> prompt_response" where
  "error_response e =
     \<lparr>resp_text = [], resp_tokens_used = 0, resp_truncated = False, resp_error = e\<rparr>"

definition text_response :: "string \<Rightarrow> prompt_response" where
  "text_response t =
     \<lparr>resp_text = t, resp_tokens_used = 0, resp_truncated = False, resp_error = []\<rparr>"

lemmas response_defs [tribunal_simps] =
  prompt_response_default_def error_response_def text_response_def

text \<open>What a call of \<open>query\<close> gives to its caller: a response or an exception.\<close>

type_synonym llm_result = "exn + prompt_response"

section \<open>The contract of a provider\<close>

locale llm_provider =
  fixes query :: "prompt_request \<Rightarrow> 's \<Rightarrow> prompt_response outcome \<times> 's"
    and good :: "'s \<Rightarrow> bool"
  assumes query_returns: "good s \<Longrightarrow> \<exists>r. fst (query req s) = Ret r"
    and query_good: "good s \<Longrightarrow> good (snd (query req s))"
    and error_without_text:
      "good s \<Longrightarrow> fst (query req s) = Ret r \<Longrightarrow> resp_error r \<noteq> [] \<Longrightarrow> resp_text r = []"
begin

text \<open>A sequence of queries on one client object.\<close>

fun query_all :: "prompt_request list \<Rightarrow> 's \<Rightarrow> prompt_response outcome list \<times> 's" where
  "query_all [] s = ([], s)"
| "query_all (q # qs) s =
     (fst (query q s) # fst (query_all qs (snd (query q s))), snd (query_all qs (snd (query q s))))"

lemma query_all_length: "length (fst (query_all qs s)) = length qs"
  by (induction qs arbitrary: s) simp_all

lemma query_all_good: "good s \<Longrightarrow> good (snd (query_all qs s))"
  by (induction qs arbitrary: s) (simp_all add: query_good)

lemma query_all_returns:
  "good s \<Longrightarrow> r \<in> set (fst (query_all qs s)) \<Longrightarrow>
   \<exists>resp. r = Ret resp \<and> (resp_error resp \<noteq> [] \<longrightarrow> resp_text resp = [])"
proof (induction qs arbitrary: s)
  case (Cons q qs)
  then show ?case
    using query_returns [of s q] error_without_text [of s q] query_good [of s q] by auto
qed simp

end

end
