(* ===== verification/Analyst.thy ===== *)
theory Analyst
  imports LLM_Client
begin

text \<open>
  \<open>core/Analyst.h\<close> and \<open>core/Analyst.cpp\<close>: one member of the council. The record holds the
  members of the class, each method is a function on it, and \<open>analyst_step\<close> collects the
  methods that change the object, so that what every history of calls keeps can be stated.
  The result of the call to the LLM client is a parameter (\<open>llm_result\<close>).
\<close>

section \<open>State\<close>

record analyst =
  role :: analyst_role
  role_name :: string
  model :: string
  system_prompt :: string
  responses :: "string list"
  round_count :: int
  stats :: analyst_stats
  complete :: bool
  last_error :: string

definition new_analyst :: "analyst_role \<Rightarrow> string \<Rightarrow> string \<Rightarrow> analyst" where
  "new_analyst r m sp =
     \<lparr>role = r, role_name = role_to_string r, model = m, system_prompt = sp, responses = [],
      round_count = 0, stats = analyst_stats_default, complete = False, last_error = []\<rparr>"

section \<open>Operations\<close>

definition record_proposal_adopted :: "analyst \<Rightarrow> analyst" where
  "record_proposal_adopted a =
     a\<lparr>stats := (stats a)\<lparr>proposals_adopted := proposals_adopted (stats a) + 1,
                          total_score := total_score (stats a) + SCORE_ADOPTED,
                          rounds_since_contrib := 0\<rparr>\<rparr>"

definition record_challenge_won :: "analyst \<Rightarrow> analyst" where
  "record_challenge_won a =
     a\<lparr>stats := (stats a)\<lparr>challenges_won := challenges_won (stats a) + 1,
                          total_score := total_score (stats a) + SCORE_CHALLENGE_WON,
                          rounds_since_contrib := 0\<rparr>\<rparr>"

definition record_round_activity :: "bool \<Rightarrow> analyst \<Rightarrow> analyst" where
  "record_round_activity had_response a =
     (if had_response
      then a\<lparr>stats := (stats a)\<lparr>rounds_active := rounds_active (stats a) + 1,
                                rounds_since_contrib := 0\<rparr>\<rparr>
      else a\<lparr>stats := (stats a)\<lparr>rounds_since_contrib := rounds_since_contrib (stats a) + 1\<rparr>\<rparr>)"

definition round_request :: "analyst \<Rightarrow> string \<Rightarrow> prompt_request" where
  "round_request a prompt =
     \<lparr>req_model = model a, req_system_prompt = system_prompt a, req_user_message = prompt,
      req_temperature = 7 / 10, req_max_tokens = 4096, req_stop_sequences = []\<rparr>"

text \<open>\<open>execute_round\<close>: the Boolean is the value the method returns.\<close>

definition analyst_execute_round ::
  "(prompt_request \<Rightarrow> llm_result) \<Rightarrow> string \<Rightarrow> analyst \<Rightarrow> bool \<times> analyst" where
  "analyst_execute_round query prompt a =
     (case query (round_request a prompt) of
        Inr resp \<Rightarrow>
          if resp_error resp \<noteq> []
          then (False, a\<lparr>last_error := resp_error resp, responses := responses a @ [[]]\<rparr>)
          else (True, record_round_activity (resp_text resp \<noteq> [])
                        (a\<lparr>responses := responses a @ [resp_text resp]\<rparr>))
      | Inl e \<Rightarrow> (False, a\<lparr>last_error := what e, responses := responses a @ [[]]\<rparr>))"

definition get_response :: "analyst \<Rightarrow> int \<Rightarrow> string" where
  "get_response a rnd =
     (if rnd < 0 \<or> rnd \<ge> int (length (responses a)) then [] else responses a ! nat rnd)"

definition mark_pruned :: "analyst \<Rightarrow> analyst" where
  "mark_pruned a = a\<lparr>stats := (stats a)\<lparr>pruned := 1\<rparr>\<rparr>"

definition mark_complete :: "analyst \<Rightarrow> analyst" where
  "mark_complete a = a\<lparr>complete := True\<rparr>"

definition is_active :: "analyst \<Rightarrow> bool" where
  "is_active a \<longleftrightarrow> pruned (stats a) = 0 \<and> \<not> complete a"

definition is_pruned :: "analyst \<Rightarrow> bool" where
  "is_pruned a \<longleftrightarrow> pruned (stats a) \<noteq> 0"

definition get_idle_rounds :: "analyst \<Rightarrow> int" where
  "get_idle_rounds a = rounds_since_contrib (stats a)"

definition get_total_score :: "analyst \<Rightarrow> int" where
  "get_total_score a = total_score (stats a)"

lemmas analyst_defs [tribunal_simps] =
  record_proposal_adopted_def record_challenge_won_def record_round_activity_def
  mark_pruned_def mark_complete_def is_active_def is_pruned_def get_idle_rounds_def
  get_total_score_def

section \<open>What one round does to an analyst\<close>

text \<open>A round succeeds when the client returns a response without an error.\<close>

definition round_ok :: "llm_result \<Rightarrow> bool" where
  "round_ok r = (case r of Inl _ \<Rightarrow> False | Inr resp \<Rightarrow> resp_error resp = [])"

definition round_text :: "llm_result \<Rightarrow> string" where
  "round_text r = (case r of Inl _ \<Rightarrow> [] | Inr resp \<Rightarrow> if resp_error resp = [] then resp_text resp else [])"

lemma execute_round_ok:
  "fst (analyst_execute_round query prompt a) = round_ok (query (round_request a prompt))"
  by (auto simp: analyst_execute_round_def round_ok_def split: sum.splits)

lemma execute_round_responses:
  "responses (snd (analyst_execute_round query prompt a)) =
     responses a @ [round_text (query (round_request a prompt))]"
  by (auto simp: analyst_execute_round_def round_text_def record_round_activity_def
      split: sum.splits)

lemma execute_round_frame [simp]:
  "role (snd (analyst_execute_round query prompt a)) = role a"
  "role_name (snd (analyst_execute_round query prompt a)) = role_name a"
  "model (snd (analyst_execute_round query prompt a)) = model a"
  "system_prompt (snd (analyst_execute_round query prompt a)) = system_prompt a"
  "complete (snd (analyst_execute_round query prompt a)) = complete a"
  "pruned (stats (snd (analyst_execute_round query prompt a))) = pruned (stats a)"
  "total_score (stats (snd (analyst_execute_round query prompt a))) = total_score (stats a)"
  by (auto simp: analyst_execute_round_def record_round_activity_def split: sum.splits)

lemma execute_round_active [simp]:
  "is_active (snd (analyst_execute_round query prompt a)) = is_active a"
  by (simp add: is_active_def)

lemma mark_pruned_simps [simp]:
  "is_active (mark_pruned a) = False"
  "is_pruned (mark_pruned a)"
  "responses (mark_pruned a) = responses a"
  "role (mark_pruned a) = role a"
  "role_name (mark_pruned a) = role_name a"
  "get_total_score (mark_pruned a) = get_total_score a"
  "get_response (mark_pruned a) k = get_response a k"
  by (simp_all add: tribunal_simps get_response_def)

section \<open>Histories of calls\<close>

datatype analyst_call =
  Execute llm_result string
| Adopted
| Challenge_won
| Prune
| Complete

fun analyst_step :: "analyst \<Rightarrow> analyst_call \<Rightarrow> analyst" where
  "analyst_step a (Execute r prompt) = snd (analyst_execute_round (\<lambda>_. r) prompt a)"
| "analyst_step a Adopted = record_proposal_adopted a"
| "analyst_step a Challenge_won = record_challenge_won a"
| "analyst_step a Prune = mark_pruned a"
| "analyst_step a Complete = mark_complete a"

definition analyst_run :: "analyst \<Rightarrow> analyst_call list \<Rightarrow> analyst" where
  "analyst_run a cs = foldl analyst_step a cs"

text \<open>
  What the statistics say about the history: the score is the weighted sum of the two
  counters, the active rounds are the non-empty responses, and the idle counter is bounded
  by the number of rounds that were not active.
\<close>

definition analyst_inv :: "analyst \<Rightarrow> bool" where
  "analyst_inv a \<longleftrightarrow>
     total_score (stats a) =
       SCORE_ADOPTED * proposals_adopted (stats a) + SCORE_CHALLENGE_WON * challenges_won (stats a)
     \<and> proposals_adopted (stats a) \<ge> 0 \<and> challenges_won (stats a) \<ge> 0
     \<and> rounds_active (stats a) = int (length (List.filter (\<lambda>t. t \<noteq> []) (responses a)))
     \<and> 0 \<le> rounds_since_contrib (stats a)
     \<and> rounds_since_contrib (stats a) \<le> int (length (List.filter (\<lambda>t. t = []) (responses a)))
     \<and> role_name a = role_to_string (role a)"

lemma new_analyst_inv: "analyst_inv (new_analyst r m sp)"
  by (simp add: analyst_inv_def new_analyst_def analyst_stats_default_def)

lemma analyst_step_inv: "analyst_inv a \<Longrightarrow> analyst_inv (analyst_step a c)"
  by (cases c)
    (auto simp: analyst_inv_def tribunal_simps analyst_execute_round_def split: sum.splits)

lemma analyst_run_inv: "analyst_inv a \<Longrightarrow> analyst_inv (analyst_run a cs)"
  by (induction cs arbitrary: a) (auto simp: analyst_run_def intro: analyst_step_inv)

section \<open>What the statistics count\<close>

text \<open>The results of the rounds of a history; the calls that count as a contribution; the rounds that
  the client answered with an empty text.\<close>

fun round_results :: "analyst_call list \<Rightarrow> llm_result list" where
  "round_results [] = []"
| "round_results (Execute r prompt # cs) = r # round_results cs"
| "round_results (c # cs) = round_results cs"

fun contributes :: "analyst_call \<Rightarrow> bool" where
  "contributes (Execute r prompt) \<longleftrightarrow> round_text r \<noteq> []"
| "contributes c \<longleftrightarrow> c = Adopted \<or> c = Challenge_won"

fun silent :: "analyst_call \<Rightarrow> bool" where
  "silent (Execute r prompt) \<longleftrightarrow> round_ok r \<and> round_text r = []"
| "silent c \<longleftrightarrow> False"

text \<open>The silent rounds since the last contribution.\<close>

definition silent_rounds :: "analyst_call list \<Rightarrow> nat" where
  "silent_rounds cs = length (List.filter silent (takeWhile (\<lambda>c. \<not> contributes c) (rev cs)))"

lemma silent_rounds_snoc:
  "silent_rounds (cs @ [c]) =
     (if contributes c then 0 else silent_rounds cs + (if silent c then 1 else 0))"
  by (simp add: silent_rounds_def)

lemma round_results_snoc:
  "round_results (cs @ [c]) = round_results cs @ (case c of Execute r prompt \<Rightarrow> [r] | _ \<Rightarrow> [])"
  by (induction cs rule: round_results.induct) (auto split: analyst_call.split)

lemma analyst_run_snoc: "analyst_run a (cs @ [c]) = analyst_step (analyst_run a cs) c"
  by (simp add: analyst_run_def)

lemma analyst_counts:
  "responses (analyst_run (new_analyst r m sp) cs) = map round_text (round_results cs) \<and>
   proposals_adopted (stats (analyst_run (new_analyst r m sp) cs)) =
     int (length (List.filter (\<lambda>c. c = Adopted) cs)) \<and>
   challenges_won (stats (analyst_run (new_analyst r m sp) cs)) =
     int (length (List.filter (\<lambda>c. c = Challenge_won) cs)) \<and>
   rounds_active (stats (analyst_run (new_analyst r m sp) cs)) =
     int (length (List.filter (\<lambda>x. round_text x \<noteq> []) (round_results cs))) \<and>
   rounds_since_contrib (stats (analyst_run (new_analyst r m sp) cs)) = int (silent_rounds cs) \<and>
   (is_pruned (analyst_run (new_analyst r m sp) cs) \<longleftrightarrow> Prune \<in> set cs) \<and>
   (complete (analyst_run (new_analyst r m sp) cs) \<longleftrightarrow> Complete \<in> set cs)"
proof (induction cs rule: rev_induct)
  case Nil
  then show ?case
    by (simp add: analyst_run_def new_analyst_def analyst_stats_default_def silent_rounds_def is_pruned_def)
next
  case (snoc c cs)
  then show ?case
    by (cases c)
      (auto simp: analyst_run_snoc round_results_snoc silent_rounds_snoc analyst_execute_round_def
        round_ok_def round_text_def tribunal_simps split: sum.splits)
qed

lemma count_calls: "length (List.filter P cs) \<le> length cs"
  by (rule length_filter_le)

lemma count_two_calls:
  "length (List.filter (\<lambda>c. c = x) cs) + length (List.filter (\<lambda>c. c = y) cs) \<le> length cs" if "x \<noteq> y"
  using that by (induction cs) auto

text \<open>The state machine of the header: an analyst that has left the active state stays out.\<close>

lemma analyst_step_inactive: "\<not> is_active a \<Longrightarrow> \<not> is_active (analyst_step a c)"
  by (cases c) (auto simp: tribunal_simps)

lemma analyst_run_inactive: "\<not> is_active a \<Longrightarrow> \<not> is_active (analyst_run a cs)"
  by (induction cs arbitrary: a) (auto simp: analyst_run_def dest: analyst_step_inactive)

end
