(* ===== verification/Pool.thy ===== *)
theory Pool
  imports Analyst
begin

text \<open>
  \<open>core/Pool.h\<close> and \<open>core/Pool.cpp\<close>: the collection of analysts. The first section states
  what the voting system relies on (a numbered collection whose members can be read and
  updated in place) as a locale; the model of the class is interpreted in it. Here
  \<open>execute_round\<close> is the sequential account of the parallel round; \<open>Pool_Concurrency\<close>
  relates it to the threads of the source.
\<close>

section \<open>The interface the voting system uses\<close>

locale analyst_collection =
  fixes count :: "'p \<Rightarrow> nat"
    and member :: "'p \<Rightarrow> nat \<Rightarrow> 'a option"
    and modify :: "nat \<Rightarrow> ('a \<Rightarrow> 'a) \<Rightarrow> 'p \<Rightarrow> 'p"
  assumes member_None_iff: "member p i = None \<longleftrightarrow> count p \<le> i"
    and count_modify: "count (modify i f p) = count p"
    and member_modify: "member (modify i f p) j = (if i = j then map_option f (member p j) else member p j)"
begin

text \<open>
  One pass over the members from index \<open>lo\<close>: those that satisfy \<open>P\<close> are changed by \<open>f\<close>
  and counted.
\<close>

definition sweep_one :: "('a \<Rightarrow> bool) \<Rightarrow> ('a \<Rightarrow> 'a) \<Rightarrow> 'p \<times> nat \<Rightarrow> nat \<Rightarrow> 'p \<times> nat" where
  "sweep_one P f pc i =
     (case member (fst pc) i of
        None \<Rightarrow> pc
      | Some a \<Rightarrow> if P a then (modify i f (fst pc), Suc (snd pc)) else pc)"

definition sweep :: "nat \<Rightarrow> ('a \<Rightarrow> bool) \<Rightarrow> ('a \<Rightarrow> 'a) \<Rightarrow> 'p \<Rightarrow> 'p \<times> nat" where
  "sweep lo P f p = foldl (sweep_one P f) (p, 0) [lo..<count p]"

definition hit :: "('a \<Rightarrow> bool) \<Rightarrow> 'p \<Rightarrow> nat \<Rightarrow> bool" where
  "hit P p i \<longleftrightarrow> (\<exists>a. member p i = Some a \<and> P a)"

lemma sweep_one_at:
  "member (fst (sweep_one P f pc i)) j =
     (if i = j \<and> hit P (fst pc) j then map_option f (member (fst pc) j) else member (fst pc) j)"
  by (auto simp: sweep_one_def member_modify hit_def split: option.splits)

lemma sweep_one_count: "count (fst (sweep_one P f pc i)) = count (fst pc)"
  by (auto simp: sweep_one_def count_modify split: option.splits)

lemma sweep_one_hits: "snd (sweep_one P f pc i) = snd pc + (if hit P (fst pc) i then 1 else 0)"
  by (auto simp: sweep_one_def hit_def split: option.splits)

lemma sweep_fold:
  assumes "distinct is"
  shows "count (fst (foldl (sweep_one P f) pc is)) = count (fst pc)
    \<and> (\<forall>j. member (fst (foldl (sweep_one P f) pc is)) j =
         (if j \<in> set is \<and> hit P (fst pc) j then map_option f (member (fst pc) j) else member (fst pc) j))
    \<and> snd (foldl (sweep_one P f) pc is) = snd pc + length (List.filter (hit P (fst pc)) is)"
  using assms
proof (induction "is" arbitrary: pc)
  case Nil
  then show ?case by simp
next
  case (Cons i "is")
  let ?pc = "sweep_one P f pc i"
  have hits: "hit P (fst ?pc) j = hit P (fst pc) j" if "j \<in> set is" for j
    using that Cons.prems by (auto simp: hit_def sweep_one_at)
  then have filt: "List.filter (hit P (fst ?pc)) is = List.filter (hit P (fst pc)) is"
    by (auto intro: filter_cong)
  from Cons.IH [of ?pc] Cons.prems hits show ?case
    by (auto simp: sweep_one_at sweep_one_count sweep_one_hits filt)
qed

lemma sweep_count: "count (fst (sweep lo P f p)) = count p"
  using sweep_fold [of "[lo..<count p]" P f "(p, 0)"] by (simp add: sweep_def)

lemma sweep_at:
  "member (fst (sweep lo P f p)) j =
     (if lo \<le> j \<and> hit P p j then map_option f (member p j) else member p j)"
  using sweep_fold [of "[lo..<count p]" P f "(p, 0)"] member_None_iff [of p j]
  by (auto simp: sweep_def hit_def)

lemma sweep_hits: "snd (sweep lo P f p) = length (List.filter (hit P p) [lo..<count p])"
  using sweep_fold [of "[lo..<count p]" P f "(p, 0)"] by (simp add: sweep_def)

text \<open>When \<open>f\<close> takes members out of \<open>P\<close>, a second pass finds nothing.\<close>

lemma sweep_twice:
  assumes "\<And>a. P a \<Longrightarrow> \<not> P (f a)"
  shows "snd (sweep lo P f (fst (sweep lo P f p))) = 0"
  using assms by (auto simp: sweep_hits filter_empty_conv hit_def sweep_at sweep_count)

end

section \<open>The pool\<close>

record pool =
  analysts :: "analyst list"
  base_analyst_count :: nat

definition base_roles :: "analyst_role list" where
  "base_roles = [Security, Performance, Correctness, Style]"

definition base_prompts :: "string list" where
  "base_prompts =
     [''You are a security expert. Look for vulnerabilities, exploits, and unsafe patterns.'',
      ''You are a performance expert. Look for inefficiencies, resource usage, and optimization opportunities.'',
      ''You are a correctness expert. Look for logic errors, edge cases, and specification violations.'',
      ''You are a style expert. Look for code quality, readability, maintainability, and best practices.'']"

definition new_pool :: "string list \<Rightarrow> pool" where
  "new_pool ms =
     \<lparr>analysts = map (\<lambda>i. new_analyst (base_roles ! i) (ms ! i) (base_prompts ! i))
                   [0..<min 4 (length ms)],
      base_analyst_count = 4\<rparr>"

definition add_analyst :: "analyst_role \<Rightarrow> string \<Rightarrow> string \<Rightarrow> pool \<Rightarrow> bool \<times> pool" where
  "add_analyst r m sp p =
     (if length (analysts p) \<ge> MAX_MODELS then (False, p)
      else (True, p\<lparr>analysts := analysts p @ [new_analyst r m sp]\<rparr>))"

definition remove_analyst :: "nat \<Rightarrow> pool \<Rightarrow> bool \<times> pool" where
  "remove_analyst index p =
     (if index \<ge> length (analysts p) then (False, p)
      else (True, p\<lparr>analysts := take index (analysts p) @ drop (Suc index) (analysts p)\<rparr>))"

definition analyst_count :: "pool \<Rightarrow> nat" where
  "analyst_count p = length (analysts p)"

definition get_analyst :: "pool \<Rightarrow> nat \<Rightarrow> analyst option" where
  "get_analyst p index = (if index \<ge> length (analysts p) then None else Some (analysts p ! index))"

definition get_analyst_by_role :: "pool \<Rightarrow> analyst_role \<Rightarrow> analyst option" where
  "get_analyst_by_role p r = find (\<lambda>a. role a = r) (analysts p)"

definition active_count :: "pool \<Rightarrow> nat" where
  "active_count p = length (List.filter is_active (analysts p))"

definition get_stats :: "pool \<Rightarrow> analyst_stats list" where
  "get_stats p = map stats (analysts p)"

text \<open>A call through the pointer \<open>get_analyst(i)\<close>.\<close>

definition modify_analyst :: "nat \<Rightarrow> (analyst \<Rightarrow> analyst) \<Rightarrow> pool \<Rightarrow> pool" where
  "modify_analyst i f p =
     (if i < length (analysts p) then p\<lparr>analysts := (analysts p)[i := f (analysts p ! i)]\<rparr> else p)"

interpretation pl: analyst_collection analyst_count get_analyst modify_analyst
  by unfold_locales (auto simp: analyst_count_def get_analyst_def modify_analyst_def)

section \<open>One round of all active analysts\<close>

text \<open>
  \<open>llm i\<close> is the answer of the client to the query of analyst \<open>i\<close>. Pruned and completed
  analysts are skipped; the result is the number of analysts whose round succeeded.
\<close>

definition round_of ::
  "(nat \<Rightarrow> prompt_request \<Rightarrow> llm_result) \<Rightarrow> string \<Rightarrow> nat \<Rightarrow> analyst \<Rightarrow> analyst" where
  "round_of llm prompt i a =
     (if is_active a then snd (analyst_execute_round (llm i) prompt a) else a)"

definition round_success ::
  "(nat \<Rightarrow> prompt_request \<Rightarrow> llm_result) \<Rightarrow> string \<Rightarrow> nat \<Rightarrow> analyst \<Rightarrow> bool" where
  "round_success llm prompt i a \<longleftrightarrow>
     is_active a \<and> fst (analyst_execute_round (llm i) prompt a)"

definition pool_execute_round ::
  "(nat \<Rightarrow> prompt_request \<Rightarrow> llm_result) \<Rightarrow> string \<Rightarrow> pool \<Rightarrow> nat \<times> pool" where
  "pool_execute_round llm prompt p =
     (length (List.filter (\<lambda>i. round_success llm prompt i (analysts p ! i))
                [0..<length (analysts p)]),
      p\<lparr>analysts := map (\<lambda>i. round_of llm prompt i (analysts p ! i)) [0..<length (analysts p)]\<rparr>)"

section \<open>Capacity and identity of the members\<close>

definition pool_inv :: "pool \<Rightarrow> bool" where
  "pool_inv p \<longleftrightarrow> analyst_count p \<le> MAX_MODELS \<and> (\<forall>a\<in>set (analysts p). analyst_inv a)"

lemma new_pool_inv: "pool_inv (new_pool ms)"
  by (auto simp: pool_inv_def new_pool_def analyst_count_def MAX_MODELS_def new_analyst_inv)

lemma add_analyst_inv: "pool_inv p \<Longrightarrow> pool_inv (snd (add_analyst r m sp p))"
  by (auto simp: pool_inv_def add_analyst_def analyst_count_def new_analyst_inv)

lemma remove_analyst_inv: "pool_inv p \<Longrightarrow> pool_inv (snd (remove_analyst i p))"
  by (auto simp: pool_inv_def remove_analyst_def analyst_count_def
      dest: in_set_takeD in_set_dropD)

lemma analyst_execute_round_inv:
  assumes "analyst_inv a"
  shows "analyst_inv (snd (analyst_execute_round q prompt a))"
proof -
  have "analyst_step a (Execute (q (round_request a prompt)) prompt) =
      snd (analyst_execute_round q prompt a)"
    by (simp add: analyst_execute_round_def)
  with analyst_step_inv [OF assms, of "Execute (q (round_request a prompt)) prompt"]
  show ?thesis by simp
qed

lemma round_of_inv: "analyst_inv a \<Longrightarrow> analyst_inv (round_of llm prompt i a)"
  by (simp add: round_of_def analyst_execute_round_inv)

lemma pool_execute_round_inv:
  "pool_inv p \<Longrightarrow> pool_inv (snd (pool_execute_round llm prompt p))"
  by (auto simp: pool_inv_def pool_execute_round_def analyst_count_def round_of_inv)

lemma modify_analyst_inv:
  "pool_inv p \<Longrightarrow> (\<And>a. analyst_inv a \<Longrightarrow> analyst_inv (f a)) \<Longrightarrow> pool_inv (modify_analyst i f p)"
  by (auto simp: pool_inv_def modify_analyst_def analyst_count_def
      dest!: subsetD [OF set_update_subset_insert])

lemma pool_round_at:
  "get_analyst (snd (pool_execute_round llm prompt p)) i =
     map_option (round_of llm prompt i) (get_analyst p i)"
  by (simp add: get_analyst_def pool_execute_round_def)

lemma pool_round_count [simp]:
  "analyst_count (snd (pool_execute_round llm prompt p)) = analyst_count p"
  by (simp add: analyst_count_def pool_execute_round_def)

lemma round_of_frame [simp]:
  "is_active (round_of llm prompt i a) = is_active a"
  "role_name (round_of llm prompt i a) = role_name a"
  "pruned (stats (round_of llm prompt i a)) = pruned (stats a)"
  "total_score (stats (round_of llm prompt i a)) = total_score (stats a)"
  by (simp_all add: round_of_def)

lemma remove_analyst_at:
  assumes "remove_analyst i p = (True, p')"
  shows "get_analyst p' j = get_analyst p (if j < i then j else Suc j)"
    and "analyst_count p' = analyst_count p - 1"
  using assms
  by (auto simp: remove_analyst_def get_analyst_def analyst_count_def nth_append min_def
      split: if_splits)

end
