(* ===== verification/Pool_Concurrency.thy ===== *)
theory Pool_Concurrency
  imports Pool
begin

text \<open>
  The parallel round of \<open>AnalystPool::execute_round\<close> as a transition system. Every active
  analyst gets a thread; a thread queries the client and updates its own analyst, and if
  the query succeeded it increments the shared \<open>success_count\<close>, which is a plain \<open>int\<close>:
  the increment is a load followed by a store, and other threads may run in between.
  The language leaves such a race undefined; the steps below are its sequentially
  consistent executions, the most a compiler could promise.
\<close>

section \<open>States and steps\<close>

datatype worker = Querying | Loading | Storing nat | Finished

record par_round =
  par_analysts :: "analyst list"
  par_count :: nat
  par_workers :: "worker list"

text \<open>Threads are created for the active analysts; the others are skipped.\<close>

definition par_start :: "analyst list \<Rightarrow> par_round" where
  "par_start as =
     \<lparr>par_analysts = as, par_count = 0,
      par_workers = map (\<lambda>a. if is_active a then Querying else Finished) as\<rparr>"

inductive par_step ::
  "(nat \<Rightarrow> prompt_request \<Rightarrow> llm_result) \<Rightarrow> string \<Rightarrow> par_round \<Rightarrow> par_round \<Rightarrow> bool"
  for llm prompt where
  query: "i < length (par_workers s) \<Longrightarrow> par_workers s ! i = Querying \<Longrightarrow>
     analyst_execute_round (llm i) prompt (par_analysts s ! i) = (ok, a) \<Longrightarrow>
     par_step llm prompt s
       (s\<lparr>par_analysts := (par_analysts s)[i := a],
          par_workers := (par_workers s)[i := if ok then Loading else Finished]\<rparr>)"
| load: "i < length (par_workers s) \<Longrightarrow> par_workers s ! i = Loading \<Longrightarrow>
     par_step llm prompt s (s\<lparr>par_workers := (par_workers s)[i := Storing (par_count s)]\<rparr>)"
| store: "i < length (par_workers s) \<Longrightarrow> par_workers s ! i = Storing c \<Longrightarrow>
     par_step llm prompt s
       (s\<lparr>par_count := Suc c, par_workers := (par_workers s)[i := Finished]\<rparr>)"

inductive par_reach ::
  "(nat \<Rightarrow> prompt_request \<Rightarrow> llm_result) \<Rightarrow> string \<Rightarrow> analyst list \<Rightarrow> par_round \<Rightarrow> bool"
  for llm prompt as where
  start: "par_reach llm prompt as (par_start as)"
| step: "par_reach llm prompt as s \<Longrightarrow> par_step llm prompt s t \<Longrightarrow> par_reach llm prompt as t"

text \<open>All threads joined.\<close>

definition par_done :: "par_round \<Rightarrow> bool" where
  "par_done s \<longleftrightarrow> (\<forall>w\<in>set (par_workers s). w = Finished)"

section \<open>The invariant\<close>

definition successes ::
  "(nat \<Rightarrow> prompt_request \<Rightarrow> llm_result) \<Rightarrow> string \<Rightarrow> analyst list \<Rightarrow> nat set" where
  "successes llm prompt as = {i. i < length as \<and> round_success llm prompt i (as ! i)}"

text \<open>The successful threads that have completed their increment.\<close>

definition counted ::
  "(nat \<Rightarrow> prompt_request \<Rightarrow> llm_result) \<Rightarrow> string \<Rightarrow> analyst list \<Rightarrow> par_round \<Rightarrow> nat set" where
  "counted llm prompt as s = {i \<in> successes llm prompt as. par_workers s ! i = Finished}"

definition par_inv ::
  "(nat \<Rightarrow> prompt_request \<Rightarrow> llm_result) \<Rightarrow> string \<Rightarrow> analyst list \<Rightarrow> par_round \<Rightarrow> bool" where
  "par_inv llm prompt as s \<longleftrightarrow>
     length (par_analysts s) = length as \<and> length (par_workers s) = length as \<and>
     (\<forall>i<length as.
        par_analysts s ! i =
          (if par_workers s ! i = Querying then as ! i else round_of llm prompt i (as ! i)) \<and>
        (par_workers s ! i = Querying \<longrightarrow> is_active (as ! i)) \<and>
        (par_workers s ! i \<notin> {Querying, Finished} \<longrightarrow> i \<in> successes llm prompt as) \<and>
        (\<forall>c. par_workers s ! i = Storing c \<longrightarrow> c \<le> card (counted llm prompt as s))) \<and>
     par_count s \<le> card (counted llm prompt as s) \<and>
     (counted llm prompt as s \<noteq> {} \<longrightarrow> 1 \<le> par_count s)"

lemma finite_successes [simp]: "finite (successes llm prompt as)"
  by (simp add: successes_def)

lemma finite_counted [simp]: "finite (counted llm prompt as s)"
  by (simp add: counted_def)

lemma par_inv_start: "par_inv llm prompt as (par_start as)"
proof -
  have "counted llm prompt as (par_start as) = {}"
    by (auto simp: counted_def successes_def round_success_def par_start_def)
  then show ?thesis by (auto simp: par_inv_def par_start_def round_of_def)
qed

lemma par_step_inv:
  assumes "par_step llm prompt s t" and inv: "par_inv llm prompt as s"
  shows "par_inv llm prompt as t"
  using assms(1)
proof cases
  case (query i ok a)
  have len: "length (par_workers s) = length as" "length (par_analysts s) = length as"
    using inv by (auto simp: par_inv_def)
  have i: "i < length as" using query(2) len by simp
  have cur: "par_analysts s ! i = as ! i" "is_active (as ! i)"
    using inv i query(3) by (auto simp: par_inv_def)
  have a: "a = round_of llm prompt i (as ! i)" and ok: "ok = (i \<in> successes llm prompt as)"
    using query(4) cur i by (auto simp: round_of_def successes_def round_success_def)
  have cnt: "counted llm prompt as t = counted llm prompt as s"
    using i query(1,3) ok len by (auto simp: counted_def nth_list_update split: if_splits)
  show ?thesis
    using inv i a ok len unfolding par_inv_def cnt
    by (auto simp: query(1) nth_list_update)
next
  case (load i)
  have len: "length (par_workers s) = length as"
    using inv by (auto simp: par_inv_def)
  have i: "i < length as" "i \<in> successes llm prompt as"
    using inv load(2,3) len by (auto simp: par_inv_def)
  have cnt: "counted llm prompt as t = counted llm prompt as s"
    using i load(1,3) len by (auto simp: counted_def nth_list_update split: if_splits)
  show ?thesis
    using inv i len load(3) unfolding par_inv_def cnt
    by (auto simp: load(1) nth_list_update split: if_splits)
next
  case (store i c)
  have len: "length (par_workers s) = length as"
    using inv by (auto simp: par_inv_def)
  have i: "i < length as" "i \<in> successes llm prompt as" and c: "c \<le> card (counted llm prompt as s)"
    using inv store(2,3) len by (auto simp: par_inv_def)
  have cnt: "counted llm prompt as t = insert i (counted llm prompt as s)"
    using i store(1,3) len by (auto simp: counted_def nth_list_update split: if_splits)
  have "i \<notin> counted llm prompt as s" using store(3) by (simp add: counted_def)
  then have card: "card (counted llm prompt as t) = Suc (card (counted llm prompt as s))"
    by (simp add: cnt)
  show ?thesis
    using inv i len store(3) c unfolding par_inv_def card
    by (auto simp: store(1) nth_list_update le_SucI split: if_splits)
qed

lemma par_reach_inv: "par_reach llm prompt as s \<Longrightarrow> par_inv llm prompt as s"
  by (induction rule: par_reach.induct) (auto intro: par_inv_start par_step_inv)

section \<open>Progress and termination\<close>

fun worker_work :: "worker \<Rightarrow> nat" where
  "worker_work Querying = 3"
| "worker_work Loading = 2"
| "worker_work (Storing c) = 1"
| "worker_work Finished = 0"

definition par_work :: "par_round \<Rightarrow> nat" where
  "par_work s = sum_list (map worker_work (par_workers s))"

lemma sum_list_update_less:
  "i < length xs \<Longrightarrow> (f y :: nat) < f (xs ! i) \<Longrightarrow>
   sum_list (map f (xs[i := y])) < sum_list (map f xs)"
  by (induction xs arbitrary: i) (auto split: nat.splits)

lemma par_step_work: "par_step llm prompt s t \<Longrightarrow> par_work t < par_work s"
  by (induction rule: par_step.induct) (auto simp: par_work_def intro!: sum_list_update_less)

lemma par_progress:
  assumes "\<not> par_done s"
  shows "\<exists>t. par_step llm prompt s t"
proof -
  from assms obtain i where i: "i < length (par_workers s)" "par_workers s ! i \<noteq> Finished"
    by (auto simp: par_done_def in_set_conv_nth)
  show ?thesis
  proof (cases "par_workers s ! i")
    case Querying
    then show ?thesis using i
      by (cases "analyst_execute_round (llm i) prompt (par_analysts s ! i)")
        (blast intro: par_step.query)
  qed (use i in \<open>auto intro: par_step.load par_step.store\<close>)
qed

lemma par_steps_work: "(par_step llm prompt ^^ n) s t \<Longrightarrow> par_work t + n \<le> par_work s"
proof (induction n arbitrary: t)
  case (Suc n)
  then show ?case using par_step_work by fastforce
qed simp

lemma par_steps_bounded: "(par_step llm prompt ^^ n) (par_start as) t \<Longrightarrow> n \<le> 3 * length as"
proof -
  have "par_work (par_start as) \<le> 3 * length as"
    by (induction as) (auto simp: par_work_def par_start_def)
  then show "(par_step llm prompt ^^ n) (par_start as) t \<Longrightarrow> n \<le> 3 * length as"
    using par_steps_work by fastforce
qed

text \<open>Every thread finishes: from any state some run reaches the join, and no run is infinite.\<close>

lemma par_terminates:
  "par_reach llm prompt as s \<Longrightarrow> \<exists>t. par_reach llm prompt as t \<and> par_done t"
proof (induction "par_work s" arbitrary: s rule: less_induct)
  case less
  show ?case
  proof (cases "par_done s")
    case True
    with less.prems show ?thesis by blast
  next
    case False
    then obtain t where "par_step llm prompt s t" using par_progress by blast
    then show ?thesis using less par_step_work par_reach.step by blast
  qed
qed

section \<open>The joined state against the sequential account\<close>

lemma card_successes:
  "card (successes llm prompt (analysts p)) = fst (pool_execute_round llm prompt p)"
proof -
  have "successes llm prompt (analysts p) =
      set (List.filter (\<lambda>i. round_success llm prompt i (analysts p ! i)) [0..<length (analysts p)])"
    by (auto simp: successes_def)
  then show ?thesis
    by (simp only: distinct_card distinct_filter distinct_upt pool_execute_round_def fst_conv)
qed

lemma par_done_counted:
  assumes "par_inv llm prompt as s" and "par_done s"
  shows "counted llm prompt as s = successes llm prompt as"
  using assms by (auto simp: counted_def par_done_def par_inv_def successes_def)

lemma par_done_analysts:
  assumes "par_inv llm prompt (analysts p) s" and "par_done s"
  shows "par_analysts s = analysts (snd (pool_execute_round llm prompt p))"
proof (rule nth_equalityI)
  show "length (par_analysts s) = length (analysts (snd (pool_execute_round llm prompt p)))"
    using assms(1) by (simp add: par_inv_def pool_execute_round_def)
  fix i assume "i < length (par_analysts s)"
  with assms(1) have i: "i < length (analysts p)" "i < length (par_workers s)"
    by (auto simp: par_inv_def)
  with assms(2) have "par_workers s ! i = Finished" by (simp add: par_done_def)
  with assms(1) i show "par_analysts s ! i = analysts (snd (pool_execute_round llm prompt p)) ! i"
    by (simp add: par_inv_def pool_execute_round_def)
qed

lemma par_done_count:
  assumes "par_inv llm prompt (analysts p) s" and "par_done s"
  shows "par_count s \<le> fst (pool_execute_round llm prompt p)"
    and "par_count s = 0 \<longleftrightarrow> fst (pool_execute_round llm prompt p) = 0"
  using assms par_done_counted [OF assms] card_successes [of llm prompt p]
  by (auto simp: par_inv_def)

inductive_cases par_step_elim: "par_step llm prompt s t"

end
