(* ===== verification/Ordered_Map.thy ===== *)
theory Ordered_Map
  imports Tribunal_Prelude
begin

text \<open>
  \<open>std::map\<close> as the sources use it: \<open>m[k] = v\<close>, \<open>m.find(k)\<close>, and iteration, which visits
  the keys in increasing order. The model is a list of pairs with strictly increasing
  keys. The clients (the vote tally, the job table of the server, the per-provider
  statistics) rely on the laws of the interface \<open>cpp_map\<close> only.
  The theory also holds the selection loop of the program: go through scored candidates
  in order and keep the first one whose score is strictly above the best so far.
\<close>

section \<open>The interface\<close>

locale cpp_map =
  fixes get :: "'m \<Rightarrow> 'k::linorder \<Rightarrow> 'v option"
    and put :: "'k \<Rightarrow> 'v \<Rightarrow> 'm \<Rightarrow> 'm"
    and iter :: "'m \<Rightarrow> ('k \<times> 'v) list"
    and none :: 'm
    and ok :: "'m \<Rightarrow> bool"
  assumes ok_none: "ok none"
    and ok_put: "ok m \<Longrightarrow> ok (put k v m)"
    and get_none: "get none k = None"
    and get_put: "ok m \<Longrightarrow> get (put k v m) k' = (if k' = k then Some v else get m k')"
    and iter_sorted: "ok m \<Longrightarrow> sorted_wrt (<) (map fst (iter m))"
    and iter_get: "ok m \<Longrightarrow> (k, v) \<in> set (iter m) \<longleftrightarrow> get m k = Some v"
begin

lemma get_put_same [simp]: "ok m \<Longrightarrow> get (put k v m) k = Some v"
  by (simp add: get_put)

lemma get_put_other: "ok m \<Longrightarrow> k' \<noteq> k \<Longrightarrow> get (put k v m) k' = get m k'"
  by (simp add: get_put)

lemma iter_keys: "ok m \<Longrightarrow> k \<in> fst ` set (iter m) \<longleftrightarrow> get m k \<noteq> None"
  using iter_get [of m k] by (cases "get m k") (auto simp: image_iff Bex_def)

text \<open>\<open>m[k] += d\<close> over a list of increments, the shape of every tally of the program.\<close>

definition bump_all :: "('v \<Rightarrow> 'w \<Rightarrow> 'v) \<Rightarrow> 'v \<Rightarrow> ('k \<times> 'w) list \<Rightarrow> 'm \<Rightarrow> 'm" where
  "bump_all f z ws m =
     foldl (\<lambda>m (k, w). put k (f (case get m k of None \<Rightarrow> z | Some v \<Rightarrow> v) w) m) m ws"

lemma bump_all_Nil [simp]: "bump_all f z [] m = m"
  by (simp add: bump_all_def)

lemma bump_all_Cons [simp]:
  "bump_all f z ((k, w) # ws) m =
     bump_all f z ws (put k (f (case get m k of None \<Rightarrow> z | Some v \<Rightarrow> v) w) m)"
  by (simp add: bump_all_def)

lemma ok_bump_all: "ok m \<Longrightarrow> ok (bump_all f z ws m)"
  by (induction ws arbitrary: m) (auto simp: ok_put)

lemma get_bump_all:
  "ok m \<Longrightarrow>
   get (bump_all f z ws m) k =
     (if get m k = None \<and> k \<notin> fst ` set ws then None
      else Some (foldl f (case get m k of None \<Rightarrow> z | Some v \<Rightarrow> v)
                   (map snd (List.filter (\<lambda>(k', w). k' = k) ws))))"
proof (induction ws arbitrary: m)
  case Nil
  then show ?case by (auto split: option.splits)
next
  case (Cons kw ws)
  obtain k' w where kw: "kw = (k', w)" by (cases kw)
  let ?m = "put k' (f (case get m k' of None \<Rightarrow> z | Some v \<Rightarrow> v) w) m"
  have "ok ?m" using Cons.prems by (rule ok_put)
  from Cons.IH [OF this] Cons.prems kw show ?case
    by (cases "k = k'") (auto simp: get_put split: option.splits)
qed

end

section \<open>Sorted association lists\<close>

type_synonym ('k, 'v) omap = "('k \<times> 'v) list"

fun om_put :: "'k::linorder \<Rightarrow> 'v \<Rightarrow> ('k, 'v) omap \<Rightarrow> ('k, 'v) omap" where
  "om_put k v [] = [(k, v)]"
| "om_put k v ((k', v') # m) =
     (if k < k' then (k, v) # (k', v') # m
      else if k = k' then (k, v) # m
      else (k', v') # om_put k v m)"

definition om_ok :: "('k::linorder, 'v) omap \<Rightarrow> bool" where
  "om_ok m \<longleftrightarrow> sorted_wrt (<) (map fst m)"

lemma set_keys_om_put: "fst ` set (om_put k v m) = insert k (fst ` set m)"
proof (induction m)
  case (Cons kv m)
  show ?case
    by (cases kv) (simp add: Cons insert_commute split: if_splits)
qed simp

lemma om_ok_put: "om_ok m \<Longrightarrow> om_ok (om_put k v m)"
proof (induction m)
  case (Cons kv m)
  obtain k' v' where kv: "kv = (k', v')" by (cases kv)
  from Cons kv show ?case
    using set_keys_om_put [of k v m] by (auto simp: om_ok_def intro: order.strict_trans)
qed (simp add: om_ok_def)

lemma om_ok_distinct: "om_ok m \<Longrightarrow> distinct (map fst m)"
  by (simp add: om_ok_def strict_sorted_iff)

lemma map_of_om_put:
  "om_ok m \<Longrightarrow> map_of (om_put k v m) = (map_of m)(k \<mapsto> v)"
proof (induction m)
  case (Cons kv m)
  obtain k' v' where kv: "kv = (k', v')" by (cases kv)
  from Cons kv show ?case by (auto simp: om_ok_def fun_eq_iff)
qed simp

interpretation om: cpp_map map_of om_put "\<lambda>m. m" "[]" om_ok
proof unfold_locales
  fix m :: "('a \<times> 'b) list" and k k' :: 'a and v :: 'b
  show "om_ok ([] :: ('a \<times> 'b) list)" by (simp add: om_ok_def)
  show "om_ok m \<Longrightarrow> om_ok (om_put k v m)" by (rule om_ok_put)
  show "map_of ([] :: ('a \<times> 'b) list) k = None" by simp
  show "om_ok m \<Longrightarrow> map_of (om_put k v m) k' = (if k' = k then Some v else map_of m k')"
    by (simp add: map_of_om_put)
  show "om_ok m \<Longrightarrow> sorted_wrt (<) (map fst m)" by (simp add: om_ok_def)
  show "om_ok m \<Longrightarrow> ((k, v) \<in> set m) = (map_of m k = Some v)"
    by (simp add: om_ok_distinct map_of_eq_Some_iff)
qed

section \<open>The selection loop\<close>

text \<open>
  \<open>for (auto [id, score] : xs) if (score > best) { best = score; winner = id; }\<close>
\<close>

fun select_best :: "'i \<Rightarrow> 's::linorder \<Rightarrow> ('i \<times> 's) list \<Rightarrow> 'i \<times> 's" where
  "select_best w b [] = (w, b)"
| "select_best w b ((i, s) # xs) =
     (if b < s then select_best i s xs else select_best w b xs)"

lemma select_best_none: "\<forall>(i, s)\<in>set xs. s \<le> b \<Longrightarrow> select_best w b xs = (w, b)"
  by (induction xs) auto

lemma select_best_upper:
  "snd (select_best w b xs) \<ge> b \<and> (\<forall>(i, s)\<in>set xs. s \<le> snd (select_best w b xs))"
proof (induction w b xs rule: select_best.induct)
  case (2 w b i s xs)
  then show ?case
    by (cases "b < s") (auto intro: order_trans less_imp_le)
qed simp

lemma select_best_cases:
  "select_best w b xs = (w, b) \<and> (\<forall>(i, s)\<in>set xs. s \<le> b) \<or>
   (\<exists>ys i s zs. xs = ys @ (i, s) # zs \<and> select_best w b xs = (i, s) \<and> b < s \<and>
      (\<forall>(j, t)\<in>set ys. t < s) \<and> (\<forall>(j, t)\<in>set zs. t \<le> s))"
proof (induction w b xs rule: select_best.induct)
  case (1 w b)
  then show ?case by simp
next
  case (2 w b i s xs)
  show ?case
  proof (cases "b < s")
    case True
    from 2(1) [OF True] show ?thesis
    proof
      assume "select_best i s xs = (i, s) \<and> (\<forall>(i, sa)\<in>set xs. sa \<le> s)"
      with True show ?thesis
        by (intro disjI2 exI [of _ "[]"] exI [of _ i] exI [of _ s] exI [of _ xs]) auto
    next
      assume "\<exists>ys i' s' zs. xs = ys @ (i', s') # zs \<and> select_best i s xs = (i', s') \<and> s < s' \<and>
        (\<forall>(j, t)\<in>set ys. t < s') \<and> (\<forall>(j, t)\<in>set zs. t \<le> s')"
      then obtain ys i' s' zs where *: "xs = ys @ (i', s') # zs"
        "select_best i s xs = (i', s')" "s < s'" "\<forall>(j, t)\<in>set ys. t < s'" "\<forall>(j, t)\<in>set zs. t \<le> s'"
        by blast
      then show ?thesis using True
        by (intro disjI2 exI [of _ "(i, s) # ys"] exI [of _ i'] exI [of _ s'] exI [of _ zs]) auto
    qed
  next
    case False
    from 2(2) [OF False] show ?thesis
    proof
      assume "select_best w b xs = (w, b) \<and> (\<forall>(i, s)\<in>set xs. s \<le> b)"
      with False show ?thesis by auto
    next
      assume "\<exists>ys i' s' zs. xs = ys @ (i', s') # zs \<and> select_best w b xs = (i', s') \<and> b < s' \<and>
        (\<forall>(j, t)\<in>set ys. t < s') \<and> (\<forall>(j, t)\<in>set zs. t \<le> s')"
      then obtain ys i' s' zs where *: "xs = ys @ (i', s') # zs"
        "select_best w b xs = (i', s')" "b < s'" "\<forall>(j, t)\<in>set ys. t < s'" "\<forall>(j, t)\<in>set zs. t \<le> s'"
        by blast
      then show ?thesis using False
        by (intro disjI2 exI [of _ "(i, s) # ys"] exI [of _ i'] exI [of _ s'] exI [of _ zs]) auto
    qed
  qed
qed

end
