(* ===== verification/Election.thy ===== *)
theory Election
  imports Pool Ordered_Map
begin

text \<open>
  \<open>core/Election.h\<close> and \<open>core/Election.cpp\<close>: one election round collects a vote from every
  active analyst, tallies the votes in a map, selects the winner, marks low contributors
  as pruned and records the result. The loops that look for a best candidate are
  \<open>select_best\<close>; the pruning loop is the sweep of the collection interface.
\<close>

section \<open>Votes and rounds\<close>

record vote =
  voter_id :: int
  votee_id :: int
  vote_score :: int

record election_round =
  round_number :: int
  votes :: "vote list"
  round_pruned :: "int list"
  winner_id :: int
  outcome_text :: string

definition election_round_default :: election_round where
  "election_round_default =
     \<lparr>round_number = 0, votes = [], round_pruned = [], winner_id = - 1, outcome_text = []\<rparr>"

section \<open>Operations\<close>

text \<open>The sums are exact; that they stay in the range of \<open>int\<close> is shown with the winner
  (theory \<open>Vote_Properties\<close>).\<close>

definition tally_votes :: "vote list \<Rightarrow> (int, int) omap" where
  "tally_votes vs =
     foldl (\<lambda>m v. om_put (votee_id v)
                     ((case map_of m (votee_id v) of None \<Rightarrow> 0 | Some s \<Rightarrow> s) + vote_score v) m)
       [] vs"

definition select_winner :: "(int, int) omap \<Rightarrow> int" where
  "select_winner score_map = (if score_map = [] then - 1 else fst (select_best (- 1) 0 score_map))"

text \<open>Active members other than the voter, with the length of their response this round.\<close>

definition candidates :: "pool \<Rightarrow> int \<Rightarrow> nat \<Rightarrow> (int \<times> nat) list" where
  "candidates p rnd i =
     map (\<lambda>j. (int j, length (get_response (analysts p ! j) rnd)))
       (List.filter (\<lambda>j. j \<noteq> i \<and> is_active (analysts p ! j)) [0..<analyst_count p])"

definition best_votee :: "pool \<Rightarrow> int \<Rightarrow> nat \<Rightarrow> int" where
  "best_votee p rnd i = fst (select_best (- 1) 0 (candidates p rnd i))"

definition generate_votes_for_round :: "pool \<Rightarrow> int \<Rightarrow> vote list" where
  "generate_votes_for_round p rnd =
     map (\<lambda>i. \<lparr>voter_id = int i, votee_id = best_votee p rnd i, vote_score = 5\<rparr>)
       (List.filter (\<lambda>i. is_active (analysts p ! i) \<and> best_votee p rnd i \<ge> 0)
          [0..<analyst_count p])"

definition should_prune :: "analyst \<Rightarrow> bool" where
  "should_prune a \<longleftrightarrow>
     is_active a \<and>
     (get_idle_rounds a \<ge> MAX_IDLE_ROUNDS \<or> get_total_score a < MIN_CONTRIBUTION_SCORE)"

definition prune_one :: "pool \<times> nat \<Rightarrow> nat \<Rightarrow> pool \<times> nat" where
  "prune_one pc i =
     (case get_analyst (fst pc) i of
        None \<Rightarrow> pc
      | Some a \<Rightarrow>
          if should_prune a then (modify_analyst i mark_pruned (fst pc), Suc (snd pc)) else pc)"

definition prune_inactive_analysts :: "pool \<Rightarrow> pool \<times> nat" where
  "prune_inactive_analysts p = foldl prune_one (p, 0) [BASE_ANALYST_COUNT..<analyst_count p]"

record voting_system =
  election_history :: "election_round list"

definition outcome_description :: "int \<Rightarrow> string \<Rightarrow> nat \<Rightarrow> string" where
  "outcome_description rnd name n =
     ''Round '' @ show_int rnd @ '': '' @ name @ '' wins ('' @ show_nat n @ '' pruned)''"

definition run_election_round ::
  "int \<Rightarrow> pool \<times> voting_system \<Rightarrow> election_round \<times> pool \<times> voting_system" where
  "run_election_round rnd ps =
     (let p = fst ps;
          vs = generate_votes_for_round p rnd;
          w = select_winner (tally_votes vs);
          (p', n) = prune_inactive_analysts p;
          ids = map int (List.filter (\<lambda>i. is_pruned (analysts p' ! i)) [0..<analyst_count p']);
          desc = (if w \<ge> 0 then
                    (case get_analyst p' (nat w) of
                       None \<Rightarrow> []
                     | Some a \<Rightarrow> outcome_description rnd (role_name a) n)
                  else []);
          r = \<lparr>round_number = rnd, votes = vs, round_pruned = ids, winner_id = w,
               outcome_text = desc\<rparr>
      in (r, p', (snd ps)\<lparr>election_history := election_history (snd ps) @ [r]\<rparr>))"

definition get_current_round :: "voting_system \<Rightarrow> election_round" where
  "get_current_round vs =
     (if election_history vs = [] then election_round_default else last (election_history vs))"

definition get_round_count :: "voting_system \<Rightarrow> nat" where
  "get_round_count vs = length (election_history vs)"

section \<open>The tally\<close>

lemma tally_votes_bump:
  "tally_votes vs = om.bump_all (+) 0 (map (\<lambda>v. (votee_id v, vote_score v)) vs) []"
  by (simp add: tally_votes_def om.bump_all_def foldl_map)

lemma om_ok_tally: "om_ok (tally_votes vs)"
  unfolding tally_votes_bump by (intro om.ok_bump_all om.ok_none)

lemma foldl_plus_sum: "foldl (+) (a::int) xs = a + sum_list xs"
  by (induction xs arbitrary: a) (auto simp: algebra_simps)

lemma map_of_tally:
  "map_of (tally_votes vs) k =
     (if k \<in> votee_id ` set vs
      then Some (sum_list (map vote_score (List.filter (\<lambda>v. votee_id v = k) vs)))
      else None)"
proof -
  have "map snd (List.filter (\<lambda>(k', w). k' = k) (map (\<lambda>v. (votee_id v, vote_score v)) vs)) =
      map vote_score (List.filter (\<lambda>v. votee_id v = k) vs)"
    by (induction vs) auto
  then show ?thesis
    unfolding tally_votes_bump
    by (auto simp: om.get_bump_all om.ok_none foldl_plus_sum image_iff)
qed

section \<open>The winner\<close>

text \<open>
  Over a map in key order the selection loop finds the least identifier among those with
  the greatest score, if that score is positive.
\<close>

lemma select_winner_cases:
  assumes "om_ok m"
  shows "(select_winner m = - 1 \<and> (\<forall>k s. map_of m k = Some s \<longrightarrow> s \<le> 0)) \<or>
    (\<exists>s. map_of m (select_winner m) = Some s \<and> 0 < s \<and>
       (\<forall>k t. map_of m k = Some t \<longrightarrow> t \<le> s \<and> (t = s \<longrightarrow> select_winner m \<le> k)))"
proof (cases "m = []")
  case True
  then show ?thesis by (simp add: select_winner_def)
next
  case False
  have mem: "map_of m k = Some t \<longleftrightarrow> (k, t) \<in> set m" for k t
    using om.iter_get [OF assms, of k t] by simp
  show ?thesis
    using select_best_cases [of "- 1" 0 m]
  proof
    assume *: "select_best (- 1) 0 m = (- 1, 0) \<and> (\<forall>(i, s)\<in>set m. s \<le> 0)"
    then have "select_winner m = - 1" using False by (simp add: select_winner_def)
    moreover have "\<forall>k s. map_of m k = Some s \<longrightarrow> s \<le> 0" using * mem by auto
    ultimately show ?thesis by blast
  next
    assume "\<exists>ys i s zs. m = ys @ (i, s) # zs \<and> select_best (- 1) 0 m = (i, s) \<and> 0 < s \<and>
      (\<forall>(j, t)\<in>set ys. t < s) \<and> (\<forall>(j, t)\<in>set zs. t \<le> s)"
    then obtain ys i s zs where m: "m = ys @ (i, s) # zs" "select_best (- 1) 0 m = (i, s)" "0 < s"
      "\<forall>(j, t)\<in>set ys. t < s" "\<forall>(j, t)\<in>set zs. t \<le> s"
      by blast
    have w: "select_winner m = i" using False m(2) by (simp add: select_winner_def)
    have "map_of m i = Some s" using mem m(1) by simp
    moreover have "t \<le> s \<and> (t = s \<longrightarrow> i \<le> k)" if "map_of m k = Some t" for k t
      using that [unfolded mem] m(1,4,5) assms by (fastforce simp: om_ok_def sorted_wrt_append)
    ultimately show ?thesis using w m(3) by blast
  qed
qed

section \<open>Votes\<close>

lemma candidates_mem:
  "(k, l) \<in> set (candidates p rnd i) \<longleftrightarrow>
   (\<exists>j < analyst_count p. j \<noteq> i \<and> is_active (analysts p ! j) \<and> k = int j \<and>
      l = length (get_response (analysts p ! j) rnd))"
  by (auto simp: candidates_def)

lemma best_votee_cases:
  "best_votee p rnd i = - 1 \<and> (\<forall>(k, l)\<in>set (candidates p rnd i). l = 0) \<or>
   (\<exists>j < analyst_count p. best_votee p rnd i = int j \<and> j \<noteq> i \<and> is_active (analysts p ! j) \<and>
      get_response (analysts p ! j) rnd \<noteq> [] \<and>
      (\<forall>k < analyst_count p. k \<noteq> i \<and> is_active (analysts p ! k) \<longrightarrow>
         length (get_response (analysts p ! k) rnd) \<le> length (get_response (analysts p ! j) rnd) \<and>
         (length (get_response (analysts p ! k) rnd) = length (get_response (analysts p ! j) rnd) \<longrightarrow> j \<le> k)))"
  using select_best_cases [of "- 1" 0 "candidates p rnd i"]
proof
  assume "select_best (- 1) 0 (candidates p rnd i) = (- 1, 0) \<and>
    (\<forall>(i, s)\<in>set (candidates p rnd i). s \<le> 0)"
  then show ?thesis by (auto simp: best_votee_def)
next
  assume "\<exists>ys k s zs. candidates p rnd i = ys @ (k, s) # zs \<and>
    select_best (- 1) 0 (candidates p rnd i) = (k, s) \<and> 0 < s \<and>
    (\<forall>(j, t)\<in>set ys. t < s) \<and> (\<forall>(j, t)\<in>set zs. t \<le> s)"
  then obtain ys k s zs where c: "candidates p rnd i = ys @ (k, s) # zs"
    "select_best (- 1) 0 (candidates p rnd i) = (k, s)" "0 < s"
    "\<forall>(j, t)\<in>set ys. t < s" "\<forall>(j, t)\<in>set zs. t \<le> s" by blast
  have best: "best_votee p rnd i = k" using c(2) by (simp add: best_votee_def)
  have "(k, s) \<in> set (candidates p rnd i)" using c(1) by simp
  then obtain j where j: "j < analyst_count p" "j \<noteq> i" "is_active (analysts p ! j)" "k = int j"
    "s = length (get_response (analysts p ! j) rnd)"
    unfolding candidates_mem by blast
  have sorted: "sorted_wrt (<) (map fst (candidates p rnd i))"
    by (simp add: candidates_def comp_def sorted_wrt_map sorted_wrt_filter)
  have all: "l \<le> s \<and> (l = s \<longrightarrow> k \<le> k')" if "(k', l) \<in> set (candidates p rnd i)" for k' l
    using that sorted c(1,4,5) by (fastforce simp: sorted_wrt_append)
  have "length (get_response (analysts p ! k') rnd) \<le> s \<and>
      (length (get_response (analysts p ! k') rnd) = s \<longrightarrow> j \<le> k')"
    if "k' < analyst_count p" "k' \<noteq> i" "is_active (analysts p ! k')" for k'
    using that all [of "int k'"] j(4) by (auto simp: candidates_mem)
  with best j c(3) show ?thesis by auto
qed

lemma generate_votes_mem:
  "v \<in> set (generate_votes_for_round p rnd) \<longleftrightarrow>
   (\<exists>i < analyst_count p. is_active (analysts p ! i) \<and> best_votee p rnd i \<ge> 0 \<and>
      v = \<lparr>voter_id = int i, votee_id = best_votee p rnd i, vote_score = 5\<rparr>)"
  by (auto simp: generate_votes_for_round_def)

section \<open>Pruning\<close>

lemma prune_is_sweep:
  "prune_inactive_analysts p = pl.sweep BASE_ANALYST_COUNT should_prune mark_pruned p"
proof -
  have "prune_one = pl.sweep_one should_prune mark_pruned"
    by (intro ext) (simp add: prune_one_def pl.sweep_one_def)
  then show ?thesis by (simp add: prune_inactive_analysts_def pl.sweep_def)
qed

lemma prune_count: "analyst_count (fst (prune_inactive_analysts p)) = analyst_count p"
  by (simp add: prune_is_sweep pl.sweep_count)

lemma prune_at:
  "get_analyst (fst (prune_inactive_analysts p)) j =
     (if BASE_ANALYST_COUNT \<le> j \<and> pl.hit should_prune p j
      then map_option mark_pruned (get_analyst p j) else get_analyst p j)"
  by (simp add: prune_is_sweep pl.sweep_at)

lemma prune_nth:
  assumes "j < analyst_count p"
  shows "analysts (fst (prune_inactive_analysts p)) ! j =
     (if BASE_ANALYST_COUNT \<le> j \<and> should_prune (analysts p ! j)
      then mark_pruned (analysts p ! j) else analysts p ! j)"
  using prune_at [of p j] prune_count [of p] assms
  by (auto simp: get_analyst_def pl.hit_def analyst_count_def split: if_splits)

lemma prune_hits:
  "snd (prune_inactive_analysts p) =
     length (List.filter (\<lambda>i. should_prune (analysts p ! i)) [BASE_ANALYST_COUNT..<analyst_count p])"
  unfolding prune_is_sweep pl.sweep_hits
  by (intro arg_cong [where f = length] filter_cong)
    (auto simp: pl.hit_def get_analyst_def analyst_count_def)

lemma prune_again: "snd (prune_inactive_analysts (fst (prune_inactive_analysts p))) = 0"
  unfolding prune_is_sweep by (rule pl.sweep_twice) (simp add: should_prune_def)

lemma mark_pruned_inv: "analyst_inv a \<Longrightarrow> analyst_inv (mark_pruned a)"
  using analyst_step_inv [of a Prune] by simp

lemma prune_inv:
  assumes "pool_inv p"
  shows "pool_inv (fst (prune_inactive_analysts p))"
proof -
  have "analyst_inv (analysts (fst (prune_inactive_analysts p)) ! j)"
    if "j < analyst_count (fst (prune_inactive_analysts p))" for j
    using that assms
    by (auto simp: prune_nth prune_count pool_inv_def analyst_count_def [symmetric]
        intro!: mark_pruned_inv)
  then show ?thesis
    using assms prune_count [of p] by (auto simp: pool_inv_def in_set_conv_nth analyst_count_def)
qed

section \<open>One election round\<close>

lemma run_election_round_simps [simp]:
  "round_number (fst (run_election_round rnd ps)) = rnd"
  "votes (fst (run_election_round rnd ps)) = generate_votes_for_round (fst ps) rnd"
  "winner_id (fst (run_election_round rnd ps)) =
     select_winner (tally_votes (generate_votes_for_round (fst ps) rnd))"
  "fst (snd (run_election_round rnd ps)) = fst (prune_inactive_analysts (fst ps))"
  "election_history (snd (snd (run_election_round rnd ps))) =
     election_history (snd ps) @ [fst (run_election_round rnd ps)]"
  by (simp_all add: run_election_round_def Let_def split: prod.splits)

end
