(* ===== verification/Council.thy ===== *)
theory Council
  imports Election
begin

text \<open>
  \<open>core/Council.h\<close> and \<open>core/Council.cpp\<close>: the orchestrator. Its three owned objects are
  optional, as the \<open>unique_ptr\<close> members of the class. What the client object answers is a
  parameter: \<open>answer c r i q\<close> is what client \<open>c\<close> gives in round \<open>r\<close> to query \<open>q\<close> of analyst
  \<open>i\<close>; it stands for every schedule and every state of the provider.
\<close>

section \<open>State and results\<close>

record debate_result =
  final_winner :: int
  winner_responses :: "string list"
  rounds_completed :: int
  analysts_pruned :: int
  final_stats :: "analyst_stats list"
  summary :: string

definition debate_result_default :: debate_result where
  "debate_result_default =
     \<lparr>final_winner = - 1, winner_responses = [], rounds_completed = 0, analysts_pruned = 0,
      final_stats = [], summary = []\<rparr>"

record 'c council =
  council_config :: configuration
  council_pool :: "pool option"
  council_client :: "'c option"
  council_voting :: "voting_system option"

definition new_council :: "configuration \<Rightarrow> 'c council" where
  "new_council cfg =
     \<lparr>council_config = cfg, council_pool = None, council_client = None, council_voting = None\<rparr>"

type_synonym 'c answers = "'c \<Rightarrow> int \<Rightarrow> nat \<Rightarrow> prompt_request \<Rightarrow> llm_result"

section \<open>Operations\<close>

definition initialize_analysts ::
  "'c option \<Rightarrow> string list \<Rightarrow> 'c council \<Rightarrow> bool \<times> 'c council" where
  "initialize_analysts client ms c =
     (if client = None \<or> ms = [] then (False, c)
      else (True, c\<lparr>council_client := client, council_pool := Some (new_pool ms),
                    council_voting := Some \<lparr>election_history = []\<rparr>\<rparr>))"

definition is_initialized :: "'c council \<Rightarrow> bool" where
  "is_initialized c \<longleftrightarrow>
     council_pool c \<noteq> None \<and> council_client c \<noteq> None \<and> council_voting c \<noteq> None"

definition run_round ::
  "'c answers \<Rightarrow> string \<Rightarrow> int \<Rightarrow> 'c council \<Rightarrow> bool \<times> 'c council" where
  "run_round answer prompt rnd c =
     (case (council_pool c, council_client c, council_voting c) of
        (Some p, Some cl, Some vs) \<Rightarrow>
          (let (success_count, p1) = pool_execute_round (answer cl rnd) prompt p
           in if success_count = 0 then (False, c\<lparr>council_pool := Some p1\<rparr>)
              else (let (election, p2, vs2) = run_election_round rnd (p1, vs)
                    in (True, c\<lparr>council_pool := Some p2, council_voting := Some vs2\<rparr>)))
      | _ \<Rightarrow> (False, c))"

text \<open>The round loop; the first component counts \<open>result.rounds_completed\<close>.\<close>

function run_rounds ::
  "'c answers \<Rightarrow> string \<Rightarrow> int \<Rightarrow> int \<Rightarrow> int \<Rightarrow> 'c council \<Rightarrow> int \<times> 'c council" where
  "run_rounds answer prompt num_rounds rnd completed c =
     (if rnd < num_rounds
      then (case run_round answer prompt rnd c of
              (False, c') \<Rightarrow> (completed, c')
            | (True, c') \<Rightarrow> run_rounds answer prompt num_rounds (rnd + 1) (completed + 1) c')
      else (completed, c))"
  by pat_completeness auto
termination
  by (relation "measure (\<lambda>(answer, prompt, n, r, k, c). nat (n - r))") auto

declare run_rounds.simps [simp del]

text \<open>The analyst with the highest total score, the first one on a tie.\<close>

definition pick_winner :: "analyst_stats list \<Rightarrow> int" where
  "pick_winner sts =
     fst (select_best (- 1) (- 1) (zip (map int [0..<length sts]) (map total_score sts)))"

definition collect_responses :: "analyst \<Rightarrow> int \<Rightarrow> string list" where
  "collect_responses a n =
     List.filter (\<lambda>t. t \<noteq> []) (map (\<lambda>r. get_response a (int r)) [0..<nat n])"

definition finalize_results :: "'c council \<Rightarrow> debate_result" where
  "finalize_results c =
     (case council_pool c of
        None \<Rightarrow> debate_result_default\<lparr>summary := ''Error: Pool not initialized''\<rparr>
      | Some p \<Rightarrow>
          (let sts = get_stats p;
               w = pick_winner sts;
               winner = (if w \<ge> 0 then get_analyst p (nat w) else None);
               n_pruned = int (length (List.filter (\<lambda>st. pruned st \<noteq> 0) sts))
           in debate_result_default
                \<lparr>final_winner := w,
                 winner_responses :=
                   (case winner of None \<Rightarrow> []
                    | Some a \<Rightarrow> collect_responses a (rounds (council_config c))),
                 final_stats := sts,
                 analysts_pruned := n_pruned,
                 summary :=
                   (if w \<ge> 0
                    then (case winner of None \<Rightarrow> []
                          | Some a \<Rightarrow>
                              ''Debate complete. Winner: '' @ role_name a @ '' (score: '' @
                              show_int (total_score (sts ! nat w)) @ '', pruned: '' @
                              show_int n_pruned @ '')'')
                    else ''No clear winner'')\<rparr>))"

definition run_debate ::
  "'c answers \<Rightarrow> string \<Rightarrow> int \<Rightarrow> 'c council \<Rightarrow> debate_result \<times> 'c council" where
  "run_debate answer prompt num_rounds c =
     (if \<not> is_initialized c
      then (debate_result_default\<lparr>summary := ''Error: Council not initialized''\<rparr>, c)
      else (case run_rounds answer prompt num_rounds 0 0 c of
              (completed, c') \<Rightarrow> (finalize_results c', c')))"

definition get_election_history :: "'c council \<Rightarrow> election_round list" where
  "get_election_history c =
     (case council_voting c of None \<Rightarrow> [] | Some vs \<Rightarrow> election_history vs)"

section \<open>How the pool evolves\<close>

text \<open>
  What no round and no election changes: the number of analysts, their scores and identity,
  and whether a base analyst is active; nobody becomes active again, and responses are
  only appended.
\<close>

definition pool_evolves :: "pool \<Rightarrow> pool \<Rightarrow> bool" where
  "pool_evolves p p' \<longleftrightarrow>
     analyst_count p' = analyst_count p \<and>
     (\<forall>i < analyst_count p.
        let a = analysts p ! i; a' = analysts p' ! i in
          total_score (stats a') = total_score (stats a) \<and> role_name a' = role_name a \<and>
          model a' = model a \<and> system_prompt a' = system_prompt a \<and>
          (is_active a' \<longrightarrow> is_active a) \<and>
          (i < BASE_ANALYST_COUNT \<longrightarrow> is_active a' = is_active a) \<and>
          prefix (responses a) (responses a'))"

lemma pool_evolves_refl: "pool_evolves p p"
  by (simp add: pool_evolves_def)

lemma pool_evolves_trans: "pool_evolves p q \<Longrightarrow> pool_evolves q r \<Longrightarrow> pool_evolves p r"
  unfolding pool_evolves_def Let_def
  by (auto intro: prefix_order.trans)

lemma round_of_responses:
  "responses (round_of llm prompt i a) =
     (if is_active a then responses a @ [round_text (llm i (round_request a prompt))]
      else responses a)"
  by (simp add: round_of_def execute_round_responses)

lemma pool_round_nth:
  "i < analyst_count p \<Longrightarrow>
   analysts (snd (pool_execute_round llm prompt p)) ! i = round_of llm prompt i (analysts p ! i)"
  by (simp add: pool_execute_round_def analyst_count_def)

lemma round_of_identity [simp]:
  "model (round_of llm prompt i a) = model a"
  "system_prompt (round_of llm prompt i a) = system_prompt a"
  by (simp_all add: round_of_def)

lemma pool_round_evolves: "pool_evolves p (snd (pool_execute_round llm prompt p))"
  by (auto simp: pool_evolves_def Let_def pool_round_nth round_of_responses)

lemma mark_pruned_score [simp]:
  "total_score (stats (mark_pruned a)) = total_score (stats a)"
  "model (mark_pruned a) = model a"
  "system_prompt (mark_pruned a) = system_prompt a"
  by (simp_all add: mark_pruned_def)

lemma prune_evolves: "pool_evolves p (fst (prune_inactive_analysts p))"
  by (auto simp: pool_evolves_def Let_def prune_count prune_nth)

section \<open>One round of the council\<close>

lemma run_round_Some:
  "council_pool c = Some p \<Longrightarrow> council_client c = Some cl \<Longrightarrow> council_voting c = Some vs \<Longrightarrow>
   run_round answer prompt rnd c =
     (let e = pool_execute_round (answer cl rnd) prompt p
      in if fst e = 0 then (False, c\<lparr>council_pool := Some (snd e)\<rparr>)
         else (True, c\<lparr>council_pool := Some (fst (snd (run_election_round rnd (snd e, vs)))),
                       council_voting := Some (snd (snd (run_election_round rnd (snd e, vs))))\<rparr>))"
  by (simp add: run_round_def Let_def case_prod_beta)

lemma run_round_cases:
  assumes "is_initialized c"
  obtains p cl vs where "council_pool c = Some p" "council_client c = Some cl"
    "council_voting c = Some vs"
    "run_round answer prompt rnd c =
      (let e = pool_execute_round (answer cl rnd) prompt p
       in if fst e = 0 then (False, c\<lparr>council_pool := Some (snd e)\<rparr>)
          else (True, c\<lparr>council_pool := Some (fst (snd (run_election_round rnd (snd e, vs)))),
                        council_voting := Some (snd (snd (run_election_round rnd (snd e, vs))))\<rparr>))"
  using assms run_round_Some [of c] by (auto simp: is_initialized_def)

lemma run_round_keeps:
  assumes "is_initialized c" and "run_round answer prompt rnd c = (b, c')"
  shows "is_initialized c'" and "council_config c' = council_config c"
    and "council_client c' = council_client c"
    and "pool_evolves (the (council_pool c)) (the (council_pool c'))"
    and "pool_inv (the (council_pool c)) \<Longrightarrow> pool_inv (the (council_pool c'))"
    and "map round_number (get_election_history c') =
           map round_number (get_election_history c) @ (if b then [rnd] else [])"
proof -
  obtain p cl vs where c: "council_pool c = Some p" "council_client c = Some cl"
    "council_voting c = Some vs" and r:
    "run_round answer prompt rnd c =
      (let e = pool_execute_round (answer cl rnd) prompt p
       in if fst e = 0 then (False, c\<lparr>council_pool := Some (snd e)\<rparr>)
          else (True, c\<lparr>council_pool := Some (fst (snd (run_election_round rnd (snd e, vs)))),
                        council_voting := Some (snd (snd (run_election_round rnd (snd e, vs))))\<rparr>))"
    by (rule run_round_cases [OF assms(1)])
  let ?p = "snd (pool_execute_round (answer cl rnd) prompt p)"
  have ev: "pool_evolves p ?p" by (rule pool_round_evolves)
  have ev': "pool_evolves p (fst (prune_inactive_analysts ?p))"
    using ev prune_evolves by (rule pool_evolves_trans)
  note c' = assms(2) [unfolded r]
  show "is_initialized c'" "council_config c' = council_config c"
    "council_client c' = council_client c"
    using c c' by (auto simp: is_initialized_def Let_def split: if_splits)
  show "pool_evolves (the (council_pool c)) (the (council_pool c'))"
    using c c' ev ev' by (auto simp: Let_def split: if_splits)
  show "pool_inv (the (council_pool c)) \<Longrightarrow> pool_inv (the (council_pool c'))"
    using c c' prune_inv [OF pool_execute_round_inv] pool_execute_round_inv
    by (auto simp: Let_def split: if_splits)
  show "map round_number (get_election_history c') =
      map round_number (get_election_history c) @ (if b then [rnd] else [])"
    using c c' by (auto simp: get_election_history_def Let_def split: if_splits)
qed

section \<open>The whole loop\<close>

definition debate_keeps :: "'c council \<Rightarrow> 'c council \<Rightarrow> bool" where
  "debate_keeps c c' \<longleftrightarrow>
     is_initialized c' \<and> council_config c' = council_config c \<and>
     council_client c' = council_client c \<and>
     pool_evolves (the (council_pool c)) (the (council_pool c')) \<and>
     (pool_inv (the (council_pool c)) \<longrightarrow> pool_inv (the (council_pool c')))"

lemma run_rounds_keeps:
  assumes "is_initialized c" and "run_rounds answer prompt n rnd k c = (k', c')"
  shows "debate_keeps c c' \<and> k \<le> k' \<and> k' - k \<le> max 0 (n - rnd) \<and>
    map round_number (get_election_history c') =
      map round_number (get_election_history c) @ map (\<lambda>j. rnd + int j) [0..<nat (k' - k)]"
  using assms
proof (induction answer prompt n rnd k c rule: run_rounds.induct)
  case (1 answer prompt n rnd k c)
  show ?case
  proof (cases "rnd < n")
    case False
    with 1(3) have "k' = k" "c' = c" by (auto simp: run_rounds.simps [of answer prompt n rnd k c])
    with 1(2) show ?thesis by (simp add: debate_keeps_def pool_evolves_refl)
  next
    case True
    obtain b c1 where r: "run_round answer prompt rnd c = (b, c1)"
      by (cases "run_round answer prompt rnd c")
    note keep = run_round_keeps [OF 1(2) r]
    have keep1: "debate_keeps c c1" using keep by (simp add: debate_keeps_def)
    show ?thesis
    proof (cases b)
      case False
      with 1(3) True r have "k' = k" "c' = c1"
        by (auto simp: run_rounds.simps [of answer prompt n rnd k c])
      with keep1 keep(6) False show ?thesis by simp
    next
      case b: True
      with 1(3) True r have rest: "run_rounds answer prompt n (rnd + 1) (k + 1) c1 = (k', c')"
        by (simp add: run_rounds.simps [of answer prompt n rnd k c])
      have IH: "debate_keeps c1 c' \<and> k + 1 \<le> k' \<and> k' - (k + 1) \<le> max 0 (n - (rnd + 1)) \<and>
          map round_number (get_election_history c') =
            map round_number (get_election_history c1) @
            map (\<lambda>j. rnd + 1 + int j) [0..<nat (k' - (k + 1))]"
        using 1(1) [OF True r [symmetric] _ keep(1) rest] b by simp
      have "debate_keeps c c'" using keep1 IH
        by (auto simp: debate_keeps_def intro: pool_evolves_trans)
      moreover have "nat (k' - k) = Suc (nat (k' - (k + 1)))" using IH by linarith
      then have "map (\<lambda>j. rnd + int j) [0..<nat (k' - k)] =
          rnd # map (\<lambda>j. rnd + 1 + int j) [0..<nat (k' - (k + 1))]"
        by (simp del: upt_Suc add: upt_conv_Cons map_Suc_upt [symmetric] algebra_simps)
      ultimately show ?thesis using IH keep(6) b True by auto
    qed
  qed
qed

section \<open>The winner of the debate\<close>

lemma pick_winner_cases:
  "(pick_winner sts = - 1 \<and> (\<forall>st\<in>set sts. total_score st \<le> - 1)) \<or>
   (\<exists>i < length sts. pick_winner sts = int i \<and> 0 \<le> total_score (sts ! i) \<and>
      (\<forall>j < length sts. total_score (sts ! j) \<le> total_score (sts ! i) \<and>
         (total_score (sts ! j) = total_score (sts ! i) \<longrightarrow> i \<le> j)))"
proof -
  let ?xs = "zip (map int [0..<length sts]) (map total_score sts)"
  have nth: "?xs ! j = (int j, total_score (sts ! j))" if "j < length sts" for j
    using that by simp
  show ?thesis
    using select_best_cases [of "- 1" "- 1" ?xs]
  proof
    assume *: "select_best (- 1) (- 1) ?xs = (- 1, - 1) \<and> (\<forall>(i, s)\<in>set ?xs. s \<le> - 1)"
    have "total_score (sts ! j) \<le> - 1" if "j < length sts" for j
    proof -
      have "?xs ! j \<in> set ?xs" using that by (intro nth_mem) simp
      with * nth [OF that] show ?thesis by auto
    qed
    with * show ?thesis by (auto simp: pick_winner_def in_set_conv_nth)
  next
    assume "\<exists>ys i s zs. ?xs = ys @ (i, s) # zs \<and> select_best (- 1) (- 1) ?xs = (i, s) \<and> - 1 < s \<and>
      (\<forall>(j, t)\<in>set ys. t < s) \<and> (\<forall>(j, t)\<in>set zs. t \<le> s)"
    then obtain ys i s zs where x: "?xs = ys @ (i, s) # zs"
      "select_best (- 1) (- 1) ?xs = (i, s)" "- 1 < s"
      "\<forall>(j, t)\<in>set ys. t < s" "\<forall>(j, t)\<in>set zs. t \<le> s" by blast
    let ?n = "length ys"
    have n: "?n < length sts" using arg_cong [OF x(1), of length] by simp
    have at: "(i, s) = (int ?n, total_score (sts ! ?n))"
      using nth [OF n] x(1) by (metis nth_append_length)
    have "total_score (sts ! j) \<le> s \<and> (total_score (sts ! j) = s \<longrightarrow> ?n \<le> j)"
      if j: "j < length sts" for j
    proof (cases "j < ?n")
      case True
      then have "(int j, total_score (sts ! j)) \<in> set ys"
        using nth [OF j] x(1) by (metis nth_append nth_mem)
      with x(4) show ?thesis by fastforce
    next
      case False
      then have "(int j, total_score (sts ! j)) \<in> set ((i, s) # zs)"
        using nth [OF j] x(1) j n
        by (metis (no_types, lifting) diff_zero length_map length_upt length_zip min.idem nth_append
            nth_mem add_diff_inverse_nat length_append nat_add_left_cancel_less)
      with x(5) False show ?thesis by auto
    qed
    with at n x(2,3) show ?thesis by (auto simp: pick_winner_def)
  qed
qed

lemma run_debate_initialized:
  assumes "is_initialized c"
  obtains k c' where "run_rounds answer prompt n 0 0 c = (k, c')"
    and "run_debate answer prompt n c = (finalize_results c', c')"
  using assms by (cases "run_rounds answer prompt n 0 0 c") (auto simp: run_debate_def)

lemma finalize_rounds_completed: "rounds_completed (finalize_results c) = 0"
  by (auto simp: finalize_results_def debate_result_default_def Let_def split: option.splits)

lemma finalize_winner:
  "council_pool c = Some p \<Longrightarrow> final_winner (finalize_results c) = pick_winner (get_stats p)"
  by (simp add: finalize_results_def Let_def)

end
