(* ===== verification/Debate_Properties.thy ===== *)
theory Debate_Properties
  imports Pool_Concurrency Council
begin

text \<open>
  The properties of the debate core: the analyst, the pool and its parallel round, the
  election and the orchestrator, each stated over the definitions of its component and
  proved from the component's lemmas.
\<close>

section \<open>Analysts\<close>

text \<open>C17: after any history of calls on a new analyst the statistics count exactly this history:
  there is one stored response per executed round, the text of the answer or the empty one; the
  counters are the numbers of adopted proposals, of challenges won, and of rounds with a text; the
  score is twice the first plus the second; the idle counter is the number of rounds answered
  with an empty text since the last contribution; the analyst is pruned or complete when it was once
  marked so. No counter exceeds twice the number of calls, so none overflows an \<open>int\<close> in
  \<open>INT_MAX div 2\<close> calls.\<close>

theorem analyst_statistics_describe_history:
  "let a = analyst_run (new_analyst r m sp) cs; st = stats a;
       adopted = int (length (List.filter (\<lambda>c. c = Adopted) cs));
       won = int (length (List.filter (\<lambda>c. c = Challenge_won) cs))
   in responses a = map round_text (round_results cs) \<and>
      proposals_adopted st = adopted \<and> challenges_won st = won \<and> total_score st = 2 * adopted + won \<and>
      rounds_active st = int (length (List.filter (\<lambda>x. round_text x \<noteq> []) (round_results cs))) \<and>
      rounds_since_contrib st = int (silent_rounds cs) \<and>
      (is_pruned a \<longleftrightarrow> Prune \<in> set cs) \<and> (complete a \<longleftrightarrow> Complete \<in> set cs) \<and>
      total_score st \<le> 2 * int (length cs) \<and> rounds_active st \<le> int (length cs) \<and>
      rounds_since_contrib st \<le> int (length cs)"
proof -
  let ?a = "analyst_run (new_analyst r m sp) cs"
  have score: "total_score (stats ?a) = 2 * proposals_adopted (stats ?a) + challenges_won (stats ?a)"
    using analyst_run_inv [OF new_analyst_inv, of r m sp cs]
    by (simp add: analyst_inv_def SCORE_ADOPTED_def SCORE_CHALLENGE_WON_def)
  have "length (round_results cs) \<le> length cs"
    by (induction cs rule: round_results.induct) simp_all
  then have "length (List.filter (\<lambda>x. round_text x \<noteq> []) (round_results cs)) \<le> length cs"
    using le_trans [OF length_filter_le] by blast
  moreover have "silent_rounds cs \<le> length cs"
    unfolding silent_rounds_def
    using le_trans [OF length_filter_le length_takeWhile_le, of silent "\<lambda>c. \<not> contributes c" "rev cs"]
    by simp
  moreover have "length (List.filter (\<lambda>c. c = Adopted) cs) +
      length (List.filter (\<lambda>c. c = Challenge_won) cs) \<le> length cs"
    by (rule count_two_calls) simp
  ultimately show ?thesis
    using analyst_counts [of r m sp cs] score by (simp add: Let_def)
qed

lemma analyst_run_active:
  "is_active (analyst_run a cs) \<longleftrightarrow> is_active a \<and> Prune \<notin> set cs \<and> Complete \<notin> set cs"
proof (induction cs arbitrary: a)
  case (Cons c cs)
  have "is_active (analyst_step a c) \<longleftrightarrow> is_active a \<and> c \<noteq> Prune \<and> c \<noteq> Complete"
    by (cases c) (auto simp: tribunal_simps)
  with Cons [of "analyst_step a c"] show ?case by (auto simp: analyst_run_def)
qed (simp add: analyst_run_def)

text \<open>an analyst takes part in the debate exactly until it is marked pruned or complete;
  no later call makes it active again.\<close>

theorem analyst_active_until_removed:
  "is_active (analyst_run (new_analyst r m sp) cs) \<longleftrightarrow> Prune \<notin> set cs \<and> Complete \<notin> set cs"
  by (simp add: analyst_run_active) (simp add: is_active_def new_analyst_def analyst_stats_default_def)

text \<open>C6: what a round does to an analyst, on every branch: it returns whether the client gave a
  response without an error; it appends exactly one response, the text of the answer or the empty
  one; the error is the one the client reported or the message of the exception it threw, and stays
  as it was after a success; the statistics change only after a success; and nothing else changes.\<close>

theorem execute_round_effect:
  "let r = query (round_request a prompt) in
     analyst_execute_round query prompt a =
       (round_ok r,
        a\<lparr>responses := responses a @ [round_text r],
          last_error :=
            (case r of
               Inl e \<Rightarrow> what e
             | Inr resp \<Rightarrow> if resp_error resp \<noteq> [] then resp_error resp else last_error a),
          stats :=
            (if \<not> round_ok r then stats a
             else if round_text r = []
             then (stats a)\<lparr>rounds_since_contrib := rounds_since_contrib (stats a) + 1\<rparr>
             else (stats a)\<lparr>rounds_active := rounds_active (stats a) + 1, rounds_since_contrib := 0\<rparr>)\<rparr>)"
  by (simp add: Let_def analyst_execute_round_def round_ok_def round_text_def record_round_activity_def
      split: sum.split)

section \<open>The pool\<close>

datatype pool_op =
  Add analyst_role string string
| Remove nat
| Round "nat \<Rightarrow> prompt_request \<Rightarrow> llm_result" string
| Call nat analyst_call
| Sweep_idle

fun pool_step :: "pool \<Rightarrow> pool_op \<Rightarrow> pool" where
  "pool_step p (Add r m sp) = snd (add_analyst r m sp p)"
| "pool_step p (Remove i) = snd (remove_analyst i p)"
| "pool_step p (Round llm prompt) = snd (pool_execute_round llm prompt p)"
| "pool_step p (Call i c) = modify_analyst i (\<lambda>a. analyst_step a c) p"
| "pool_step p Sweep_idle = fst (prune_inactive_analysts p)"

lemma pool_step_inv: "pool_inv p \<Longrightarrow> pool_inv (pool_step p op)"
  by (cases op)
    (simp_all add: add_analyst_inv remove_analyst_inv pool_execute_round_inv prune_inv
      modify_analyst_inv analyst_step_inv)

text \<open>C18: whatever sequence of additions, removals, rounds, method calls and pruning passes
  runs on a pool built by the constructor, it never holds more than 16 analysts and every
  member's statistics stay consistent with its history.\<close>

theorem pool_capacity_and_consistency:
  "analyst_count (foldl pool_step (new_pool ms) ops) \<le> 16 \<and>
   (\<forall>i. get_analyst (foldl pool_step (new_pool ms) ops) i = None \<or>
      (\<exists>a. get_analyst (foldl pool_step (new_pool ms) ops) i = Some a \<and> analyst_inv a))"
proof -
  have "pool_inv p \<Longrightarrow> pool_inv (foldl pool_step p ops)" for p
    by (induction ops arbitrary: p) (auto intro: pool_step_inv)
  then have "pool_inv (foldl pool_step (new_pool ms) ops)" using new_pool_inv by blast
  then show ?thesis
    by (auto simp: pool_inv_def MAX_MODELS_def get_analyst_def)
qed

text \<open>removal by index deletes exactly that member and shifts the later ones down, for
  every valid index: nothing protects the four base analysts, whatever
  \<open>base_analyst_count\<close> says.\<close>

theorem remove_analyst_exact:
  "fst (remove_analyst i p) = (i < analyst_count p) \<and>
   get_analyst (snd (remove_analyst i p)) j =
     (if i < analyst_count p then get_analyst p (if j < i then j else Suc j) else get_analyst p j)"
  by (auto simp: remove_analyst_def get_analyst_def analyst_count_def nth_append min_def)

section \<open>The parallel round\<close>

text \<open>C4: in every interleaving of the analysts' threads, once all are joined, the analysts
  are in the state the sequential account gives, and the racy \<open>success_count\<close> is at most the
  number of successful queries and zero exactly when there was none. So the test
  \<open>success_count <= 0\<close> of the caller decides the same in every interleaving.\<close>

theorem parallel_round_refines_sequential:
  assumes "par_reach llm prompt (analysts p) s" and "par_done s"
  shows "par_analysts s = analysts (snd (pool_execute_round llm prompt p)) \<and>
    par_count s \<le> fst (pool_execute_round llm prompt p) \<and>
    (par_count s = 0 \<longleftrightarrow> fst (pool_execute_round llm prompt p) = 0)"
  using par_done_analysts par_done_count par_reach_inv assms by blast

text \<open>Two analysts whose increments overlap: both threads load 0 and both store 1.\<close>

lemma overlapping_increments:
  assumes act: "is_active a0" "is_active a1"
    and e: "analyst_execute_round (llm 0) prompt a0 = (True, b0)"
      "analyst_execute_round (llm 1) prompt a1 = (True, b1)"
  shows "par_reach llm prompt [a0, a1]
    \<lparr>par_analysts = [b0, b1], par_count = Suc 0, par_workers = [Finished, Finished]\<rparr>"
proof -
  let ?S = "\<lambda>as n ws. \<lparr>par_analysts = as, par_count = n, par_workers = ws\<rparr>"
  let ?R = "par_reach llm prompt [a0, a1]"
  have next_state: "?R s \<Longrightarrow> par_step llm prompt s t' \<Longrightarrow> t' = t \<Longrightarrow> ?R t" for s t t'
    using par_reach.step by blast
  have "?R (?S [a0, a1] 0 [Querying, Querying])"
    using par_reach.start [of llm prompt "[a0, a1]"] act by (simp add: par_start_def)
  then have "?R (?S [b0, a1] 0 [Loading, Querying])"
    by (rule next_state [OF _ par_step.query [where i = 0 and ok = True and a = b0]])
      (use e in simp_all)
  then have "?R (?S [b0, b1] 0 [Loading, Loading])"
    by (rule next_state [OF _ par_step.query [where i = 1 and ok = True and a = b1]])
      (use e in simp_all)
  then have "?R (?S [b0, b1] 0 [Storing 0, Loading])"
    by (rule next_state [OF _ par_step.load [where i = 0]]) simp_all
  then have "?R (?S [b0, b1] 0 [Storing 0, Storing 0])"
    by (rule next_state [OF _ par_step.load [where i = 1]]) simp_all
  then have "?R (?S [b0, b1] (Suc 0) [Finished, Storing 0])"
    by (rule next_state [OF _ par_step.store [where i = 0 and c = 0]]) simp_all
  then show ?thesis
    by (rule next_state [OF _ par_step.store [where i = 1 and c = 0]]) simp_all
qed

definition echo_llm :: "nat \<Rightarrow> prompt_request \<Rightarrow> llm_result" where
  "echo_llm i q = Inr (text_response (req_user_message q))"

definition two_analysts :: pool where
  "two_analysts = new_pool [''m1'', ''m2'']"

definition two_done :: par_round where
  "two_done =
     \<lparr>par_analysts = analysts (snd (pool_execute_round echo_llm ''p'' two_analysts)),
      par_count = 1, par_workers = [Finished, Finished]\<rparr>"

lemma upt_2: "[0..<2] = [0, 1::nat]"
  by (simp add: upt_rec)

lemma two_analysts_eq:
  "analysts two_analysts =
     [new_analyst Security ''m1'' (base_prompts ! 0), new_analyst Performance ''m2'' (base_prompts ! 1)]"
  by (simp add: two_analysts_def new_pool_def base_roles_def upt_2)

lemma new_analyst_active [simp]: "is_active (new_analyst r m sp)"
  by (simp add: is_active_def new_analyst_def analyst_stats_default_def)

lemma echo_execute:
  "analyst_execute_round (echo_llm i) prompt a =
     (True, record_round_activity (prompt \<noteq> []) (a\<lparr>responses := responses a @ [prompt]\<rparr>))"
  by (simp add: analyst_execute_round_def echo_llm_def text_response_def round_request_def)

lemma two_done_reach: "par_reach echo_llm ''p'' (analysts two_analysts) two_done"
  by (simp add: two_done_def two_analysts_eq pool_execute_round_def upt_2 round_of_def echo_execute)
    (rule overlapping_increments, simp_all add: echo_execute)

lemma two_done_count: "fst (pool_execute_round echo_llm ''p'' two_analysts) = 2"
  by (simp add: two_analysts_eq pool_execute_round_def upt_2 round_success_def echo_execute)

theorem parallel_round_refines_sequential_witness:
  "par_reach echo_llm ''p'' (analysts two_analysts) two_done \<and> par_done two_done \<and>
   par_count two_done = 1 \<and>
   par_analysts two_done = analysts (snd (pool_execute_round echo_llm ''p'' two_analysts))"
proof -
  have d: "par_done two_done" by (simp add: par_done_def two_done_def)
  show ?thesis
    using parallel_round_refines_sequential [OF two_done_reach d] two_done_reach d
    by (simp add: two_done_def)
qed

text \<open>the count can be wrong: two analysts that both succeed can be reported as one.\<close>

theorem parallel_round_loses_updates:
  "\<exists>llm prompt p s. par_reach llm prompt (analysts p) s \<and> par_done s \<and>
     fst (pool_execute_round llm prompt p) = 2 \<and> par_count s = 1"
proof (intro exI conjI)
  show "par_reach echo_llm ''p'' (analysts two_analysts) two_done" by (rule two_done_reach)
  show "par_done two_done" "par_count two_done = 1" by (simp_all add: par_done_def two_done_def)
  show "fst (pool_execute_round echo_llm ''p'' two_analysts) = 2" by (rule two_done_count)
qed

text \<open>C19: the parallel round cannot hang: a state in which not all threads have finished has a next
  step; every step decreases the remaining work; so no schedule goes on for ever, and none from the
  start has more than three steps per analyst.\<close>

theorem parallel_round_terminates:
  "(par_done s \<or> (\<exists>t. par_step llm prompt s t)) \<and>
   (\<forall>t. par_step llm prompt s t \<longrightarrow> par_work t < par_work s) \<and>
   \<not> (\<exists>f. f 0 = s \<and> (\<forall>n. par_step llm prompt (f n) (f (Suc n)))) \<and>
   (\<forall>n t. (par_step llm prompt ^^ n) (par_start as) t \<longrightarrow> n \<le> 3 * length as)"
proof (intro conjI)
  show "par_done s \<or> (\<exists>t. par_step llm prompt s t)" using par_progress by blast
  show "\<forall>t. par_step llm prompt s t \<longrightarrow> par_work t < par_work s" using par_step_work by blast
  show "\<not> (\<exists>f. f 0 = s \<and> (\<forall>n. par_step llm prompt (f n) (f (Suc n))))"
  proof
    assume "\<exists>f. f 0 = s \<and> (\<forall>n. par_step llm prompt (f n) (f (Suc n)))"
    then obtain f where f: "\<And>n. par_step llm prompt (f n) (f (Suc n))" by blast
    have "par_work (f n) + n \<le> par_work (f 0)" for n
    proof (induction n)
      case (Suc n)
      then show ?case using par_step_work [OF f [of n]] by simp
    qed simp
    from this [of "Suc (par_work (f 0))"] show False by simp
  qed
  show "\<forall>n t. (par_step llm prompt ^^ n) (par_start as) t \<longrightarrow> n \<le> 3 * length as"
    using par_steps_bounded by blast
qed

theorem parallel_round_terminates_witness:
  "par_step echo_llm ''p'' (par_start (analysts two_analysts))
     ((par_start (analysts two_analysts))\<lparr>par_analysts := (analysts two_analysts)
        [0 := snd (analyst_execute_round (echo_llm 0) ''p'' (analysts two_analysts ! 0))],
       par_workers := [Loading, Querying]\<rparr>) \<and>
   par_work ((par_start (analysts two_analysts))\<lparr>par_workers := [Loading, Querying]\<rparr>) <
     par_work (par_start (analysts two_analysts))"
proof -
  let ?s = "par_start (analysts two_analysts)"
  let ?a = "snd (analyst_execute_round (echo_llm 0) ''p'' (analysts two_analysts ! 0))"
  have ws: "par_workers ?s = [Querying, Querying]"
    by (simp add: par_start_def two_analysts_eq)
  have "analyst_execute_round (echo_llm 0) ''p'' (par_analysts ?s ! 0) = (True, ?a)"
    by (simp add: par_start_def echo_execute)
  then have "par_step echo_llm ''p'' ?s (?s\<lparr>par_analysts := (par_analysts ?s)[0 := ?a],
      par_workers := (par_workers ?s)[0 := if True then Loading else Finished]\<rparr>)"
    by (intro par_step.query) (simp_all only: ws list.size nth_Cons_0)
  moreover have "par_analysts ?s = analysts two_analysts" by (simp add: par_start_def)
  ultimately have step: "par_step echo_llm ''p'' ?s (?s\<lparr>par_analysts := (analysts two_analysts)[0 := ?a],
      par_workers := [Loading, Querying]\<rparr>)"
    by (simp add: ws)
  from parallel_round_terminates [of ?s echo_llm "''p''"] step
  have "par_work (?s\<lparr>par_analysts := (analysts two_analysts)[0 := ?a],
      par_workers := [Loading, Querying]\<rparr>) < par_work ?s" by blast
  with step show ?thesis by (simp add: par_work_def)
qed

end
