(* ===== verification/Vote_Properties.thy ===== *)
theory Vote_Properties
  imports Council
begin

text \<open>
  The properties of the voting system: what the tally computes, who wins, which votes are
  cast, and what the pruning pass does. The outcome of an election is characterised by the
  number of voters for a candidate (\<open>votes_total\<close>), from which the two theorems about
  small and large councils follow.
\<close>

section \<open>Tally and winner\<close>

text \<open>The sum of the scores of the votes for \<open>k\<close>.\<close>

definition score_of :: "vote list \<Rightarrow> int \<Rightarrow> int" where
  "score_of vs k = sum_list (map vote_score (List.filter (\<lambda>v. votee_id v = k) vs))"

lemma score_of_no_votes: "k \<notin> votee_id ` set vs \<Longrightarrow> score_of vs k = 0"
  by (induction vs) (auto simp: score_of_def)

lemma map_of_tally_score:
  "map_of (tally_votes vs) k = (if k \<in> votee_id ` set vs then Some (score_of vs k) else None)"
  by (simp add: map_of_tally score_of_def)

text \<open>the tally is a map in increasing key order that holds, for exactly the identifiers
  that received a vote, the sum of the scores of their votes.\<close>

theorem tally_votes_exact:
  "map_of (tally_votes vs) k =
     (if k \<in> votee_id ` set vs
      then Some (sum_list (map vote_score (List.filter (\<lambda>v. votee_id v = k) vs))) else None) \<and>
   sorted_wrt (<) (map fst (tally_votes vs))"
  using om_ok_tally [of vs] by (simp add: map_of_tally om_ok_def)

lemma select_winner_score:
  "(select_winner (tally_votes vs) = - 1 \<and> (\<forall>k. score_of vs k \<le> 0)) \<or>
   (select_winner (tally_votes vs) \<in> votee_id ` set vs \<and>
    0 < score_of vs (select_winner (tally_votes vs)) \<and>
    (\<forall>k. score_of vs k < score_of vs (select_winner (tally_votes vs)) \<or>
         score_of vs k = score_of vs (select_winner (tally_votes vs)) \<and>
         select_winner (tally_votes vs) \<le> k))"
  (is "_ \<or> ?W")
  using select_winner_cases [OF om_ok_tally, of vs]
proof
  assume *: "select_winner (tally_votes vs) = - 1 \<and>
    (\<forall>k s. map_of (tally_votes vs) k = Some s \<longrightarrow> s \<le> 0)"
  have "score_of vs k \<le> 0" for k
  proof (cases "k \<in> votee_id ` set vs")
    case True
    then have "map_of (tally_votes vs) k = Some (score_of vs k)" by (simp add: map_of_tally_score)
    with * show ?thesis by blast
  qed (simp add: score_of_no_votes)
  with * show ?thesis by blast
next
  let ?w = "select_winner (tally_votes vs)"
  assume "\<exists>s. map_of (tally_votes vs) ?w = Some s \<and> 0 < s \<and>
    (\<forall>k t. map_of (tally_votes vs) k = Some t \<longrightarrow> t \<le> s \<and> (t = s \<longrightarrow> ?w \<le> k))"
  then have w: "?w \<in> votee_id ` set vs" "0 < score_of vs ?w"
    and max: "\<And>k t. map_of (tally_votes vs) k = Some t \<Longrightarrow>
        t \<le> score_of vs ?w \<and> (t = score_of vs ?w \<longrightarrow> ?w \<le> k)"
    by (auto simp: map_of_tally_score split: if_splits)
  have "score_of vs k < score_of vs ?w \<or> score_of vs k = score_of vs ?w \<and> ?w \<le> k" for k
  proof (cases "k \<in> votee_id ` set vs")
    case True
    then have "map_of (tally_votes vs) k = Some (score_of vs k)" by (simp add: map_of_tally_score)
    from max [OF this] show ?thesis by auto
  next
    case False
    with score_of_no_votes [OF False] w(2) show ?thesis by simp
  qed
  with w show ?thesis by blast
qed

lemma score_of_bounded: "\<bar>score_of vs k\<bar> \<le> (\<Sum>v\<leftarrow>vs. \<bar>vote_score v\<bar>)"
  by (induction vs) (auto simp: score_of_def)

lemma score_of_is_int:
  assumes "(\<Sum>v\<leftarrow>vs. \<bar>vote_score v\<bar>) \<le> INT_MAX"
  shows "is_int (score_of (take n vs) k)"
proof -
  have "(\<Sum>v\<leftarrow>take n vs. \<bar>vote_score v\<bar>) + (\<Sum>v\<leftarrow>drop n vs. \<bar>vote_score v\<bar>) = (\<Sum>v\<leftarrow>vs. \<bar>vote_score v\<bar>)"
    by (metis append_take_drop_id map_append sum_list_append)
  moreover have "0 \<le> (\<Sum>v\<leftarrow>drop n vs. \<bar>vote_score v\<bar>)" by (intro sum_list_nonneg) auto
  ultimately have "\<bar>score_of (take n vs) k\<bar> \<le> INT_MAX"
    using score_of_bounded [of "take n vs" k] assms by linarith
  then have "score_of (take n vs) k \<le> INT_MAX" "- score_of (take n vs) k \<le> INT_MAX"
    by (simp_all add: abs_le_iff)
  then show ?thesis by (simp add: is_int_def INT_MAX_def INT_MIN_def)
qed

text \<open>C7: for votes for analysts (no identifier is negative) whose weights cannot overflow an
  \<open>int\<close>, no sum the tally goes through overflows; the winner is -1 exactly when no candidate has a
  positive sum; and it is the analyst \<open>w\<close> exactly when the sum of \<open>w\<close> is positive, no other sum is
  greater, and no smaller identifier has the same sum. A tie is never reported as -1.\<close>

theorem select_winner_plurality:
  assumes "\<forall>v\<in>set vs. 0 \<le> votee_id v" and "(\<Sum>v\<leftarrow>vs. \<bar>vote_score v\<bar>) \<le> INT_MAX"
  shows "is_int (score_of (take n vs) k) \<and>
    (select_winner (tally_votes vs) = - 1 \<longleftrightarrow> (\<forall>k. score_of vs k \<le> 0)) \<and>
    (select_winner (tally_votes vs) = int w \<longleftrightarrow>
       0 < score_of vs (int w) \<and>
       (\<forall>k. score_of vs k < score_of vs (int w) \<or> score_of vs k = score_of vs (int w) \<and> int w \<le> k))"
proof -
  let ?w = "select_winner (tally_votes vs)"
  have pos: "0 \<le> ?w" if "?w \<in> votee_id ` set vs" using that assms(1) by auto
  from select_winner_score [of vs]
  have "(?w = - 1 \<longleftrightarrow> (\<forall>k. score_of vs k \<le> 0)) \<and>
    (?w = int w \<longleftrightarrow> 0 < score_of vs (int w) \<and>
       (\<forall>k. score_of vs k < score_of vs (int w) \<or> score_of vs k = score_of vs (int w) \<and> int w \<le> k))"
  proof
    assume "?w = - 1 \<and> (\<forall>k. score_of vs k \<le> 0)"
    moreover from this have "\<not> 0 < score_of vs (int w)" by (simp add: linorder_not_less)
    moreover have "(- 1 :: int) \<noteq> int w" by simp
    ultimately show ?thesis by metis
  next
    assume *: "?w \<in> votee_id ` set vs \<and> 0 < score_of vs ?w \<and>
      (\<forall>k. score_of vs k < score_of vs ?w \<or> score_of vs k = score_of vs ?w \<and> ?w \<le> k)"
    then have "0 \<le> ?w" using pos by blast
    then have "?w \<noteq> - 1" by simp
    moreover have "\<not> (\<forall>k. score_of vs k \<le> 0)" using * by (metis linorder_not_less)
    moreover have "?w = int w"
      if "\<forall>k. score_of vs k < score_of vs (int w) \<or> score_of vs k = score_of vs (int w) \<and> int w \<le> k"
      using that * by (metis linorder_not_less order_antisym_conv order_less_imp_not_less)
    ultimately show ?thesis using * by metis
  qed
  then show ?thesis using score_of_is_int [OF assms(2), of n k] by blast
qed

theorem select_winner_plurality_witness:
  "select_winner (tally_votes [\<lparr>voter_id = 0, votee_id = 2, vote_score = 5\<rparr>,
     \<lparr>voter_id = 1, votee_id = 2, vote_score = 5\<rparr>, \<lparr>voter_id = 2, votee_id = 0, vote_score = 5\<rparr>]) = 2"
  using select_winner_plurality [of "[\<lparr>voter_id = 0, votee_id = 2, vote_score = 5\<rparr>,
     \<lparr>voter_id = 1, votee_id = 2, vote_score = 5\<rparr>, \<lparr>voter_id = 2, votee_id = 0, vote_score = 5\<rparr>]" 0 0 2]
  by (auto simp: score_of_def INT_MAX_def)

section \<open>The votes of a round\<close>

definition resp_len :: "pool \<Rightarrow> int \<Rightarrow> nat \<Rightarrow> nat" where
  "resp_len p rnd i = length (get_response (analysts p ! i) rnd)"

definition active_ids :: "pool \<Rightarrow> nat set" where
  "active_ids p = {i. i < analyst_count p \<and> is_active (analysts p ! i)}"

lemma finite_active_ids [simp]: "finite (active_ids p)"
  by (simp add: active_ids_def)

lemma best_votee_spec:
  "best_votee p rnd i = - 1 \<and> (\<forall>k\<in>active_ids p - {i}. resp_len p rnd k = 0) \<or>
   (\<exists>j\<in>active_ids p - {i}. best_votee p rnd i = int j \<and> 0 < resp_len p rnd j \<and>
      (\<forall>k\<in>active_ids p - {i}. resp_len p rnd k \<le> resp_len p rnd j \<and>
         (resp_len p rnd k = resp_len p rnd j \<longrightarrow> j \<le> k)))"
  using best_votee_cases [of p rnd i]
proof
  assume *: "best_votee p rnd i = - 1 \<and> (\<forall>(k, l)\<in>set (candidates p rnd i). l = 0)"
  have "resp_len p rnd k = 0" if "k \<in> active_ids p - {i}" for k
  proof -
    have "(int k, resp_len p rnd k) \<in> set (candidates p rnd i)"
      using that by (auto simp: candidates_mem active_ids_def resp_len_def)
    with * show ?thesis by auto
  qed
  with * show ?thesis by blast
qed (auto simp: active_ids_def resp_len_def)

lemma generate_votes_active:
  "v \<in> set (generate_votes_for_round p rnd) \<longleftrightarrow>
   (\<exists>i\<in>active_ids p. best_votee p rnd i \<ge> 0 \<and>
      v = \<lparr>voter_id = int i, votee_id = best_votee p rnd i, vote_score = 5\<rparr>)"
  by (auto simp: generate_votes_mem active_ids_def)

lemma vote_cast:
  assumes "v \<in> set (generate_votes_for_round p rnd)"
  shows "\<exists>i\<in>active_ids p. \<exists>j\<in>active_ids p. voter_id v = int i \<and> votee_id v = int j \<and> i \<noteq> j \<and>
     vote_score v = 5 \<and> get_response (analysts p ! j) rnd \<noteq> [] \<and>
     (\<forall>k\<in>active_ids p - {i}. resp_len p rnd k \<le> resp_len p rnd j \<and>
        (resp_len p rnd k = resp_len p rnd j \<longrightarrow> j \<le> k))"
proof -
  from assms obtain i where i: "i \<in> active_ids p" "best_votee p rnd i \<ge> 0"
    "v = \<lparr>voter_id = int i, votee_id = best_votee p rnd i, vote_score = 5\<rparr>"
    by (auto simp: generate_votes_active)
  with best_votee_spec [of p rnd i] show ?thesis by (auto simp: resp_len_def)
qed

lemma has_votee:
  "best_votee p rnd i \<ge> 0 \<longleftrightarrow> (\<exists>k\<in>active_ids p - {i}. get_response (analysts p ! k) rnd \<noteq> [])"
  using best_votee_spec [of p rnd i] by (auto simp: resp_len_def)

lemma voters:
  "map voter_id (generate_votes_for_round p rnd) = map int
     (List.filter (\<lambda>i. i \<in> active_ids p \<and>
         (\<exists>k\<in>active_ids p - {i}. get_response (analysts p ! k) rnd \<noteq> [])) [0..<analyst_count p])"
  unfolding generate_votes_for_round_def map_map comp_def vote.select_convs
  by (intro arg_cong [where f = "map int"] filter_cong)
    (auto simp: has_votee active_ids_def)

text \<open>C2: the voters of a round, in order, are exactly the active analysts for which another active
  analyst has a non-empty response, each once; and every vote is cast by an active analyst for another
  active analyst whose response this round is non-empty and the longest of the others', the first of
  several; its weight is 5. Nobody votes for itself or twice.\<close>

theorem votes_well_formed:
  "map voter_id (generate_votes_for_round p rnd) = map int
     (List.filter (\<lambda>i. i \<in> active_ids p \<and>
         (\<exists>k\<in>active_ids p - {i}. get_response (analysts p ! k) rnd \<noteq> [])) [0..<analyst_count p]) \<and>
   distinct (map voter_id (generate_votes_for_round p rnd)) \<and>
   (\<forall>v\<in>set (generate_votes_for_round p rnd).
      \<exists>i\<in>active_ids p. \<exists>j\<in>active_ids p. voter_id v = int i \<and> votee_id v = int j \<and> i \<noteq> j \<and>
        vote_score v = 5 \<and> get_response (analysts p ! j) rnd \<noteq> [] \<and>
        (\<forall>k\<in>active_ids p - {i}. resp_len p rnd k \<le> resp_len p rnd j \<and>
           (resp_len p rnd k = resp_len p rnd j \<longrightarrow> j \<le> k)))"
proof -
  have "distinct (map voter_id (generate_votes_for_round p rnd))"
    by (simp add: voters distinct_map)
  with voters [of p rnd] vote_cast [of _ p rnd] show ?thesis by blast
qed

text \<open>A pool of base analysts that have answered one round with the given texts.\<close>

definition answered_pool :: "string list \<Rightarrow> pool" where
  "answered_pool ts =
     \<lparr>analysts = map (\<lambda>t. (new_analyst Security ''m'' [])\<lparr>responses := [t]\<rparr>) ts,
      base_analyst_count = 4\<rparr>"

lemma answered_pool_simps:
  "analyst_count (answered_pool ts) = length ts"
  "active_ids (answered_pool ts) = {..<length ts}"
  "i < length ts \<Longrightarrow> get_response (analysts (answered_pool ts) ! i) 0 = ts ! i"
  "i < length ts \<Longrightarrow> resp_len (answered_pool ts) 0 i = length (ts ! i)"
  by (auto simp: answered_pool_def analyst_count_def active_ids_def get_response_def resp_len_def
      is_active_def new_analyst_def analyst_stats_default_def)

theorem votes_well_formed_witness:
  "map voter_id (generate_votes_for_round (answered_pool [''a'', ''bb'']) 0) = [0, 1] \<and>
   map votee_id (generate_votes_for_round (answered_pool [''a'', ''bb'']) 0) = [1, 0]"
proof -
  let ?p = "answered_pool [''a'', ''bb'']"
  let ?vs = "generate_votes_for_round ?p 0"
  note wf = votes_well_formed [of ?p 0]
  have ids: "active_ids ?p = {0, 1}" by (auto simp: answered_pool_simps)
  have "analyst_count ?p = 2" by (simp add: answered_pool_simps)
  then have upt: "[0..<analyst_count ?p] = [0, 1]" by (simp add: upt_rec)
  have "\<exists>k\<in>active_ids ?p - {0}. get_response (analysts ?p ! k) 0 \<noteq> []"
    unfolding ids by (intro bexI [of _ 1]) (simp_all add: answered_pool_simps)
  moreover have "\<exists>k\<in>active_ids ?p - {1}. get_response (analysts ?p ! k) 0 \<noteq> []"
    unfolding ids by (intro bexI [of _ 0]) (simp_all add: answered_pool_simps)
  moreover have "0 \<in> active_ids ?p" "1 \<in> active_ids ?p" using ids by simp_all
  ultimately have "List.filter (\<lambda>i. i \<in> active_ids ?p \<and>
      (\<exists>k\<in>active_ids ?p - {i}. get_response (analysts ?p ! k) 0 \<noteq> [])) [0..<analyst_count ?p] = [0, 1]"
    by (simp only: upt filter.simps if_True simp_thms)
  then have voters: "map voter_id ?vs = [0, 1]" using conjunct1 [OF wf] by simp
  then obtain v w where vs: "?vs = [v, w]" "voter_id v = 0" "voter_id w = 1" by auto
  have "votee_id v = 1" "votee_id w = 0" using wf vs ids by auto
  with voters vs show ?thesis by simp
qed

lemma votes_filter:
  "List.filter (\<lambda>v. votee_id v = k) (generate_votes_for_round p rnd) =
     map (\<lambda>i. \<lparr>voter_id = int i, votee_id = best_votee p rnd i, vote_score = 5\<rparr>)
       (List.filter (\<lambda>i. is_active (analysts p ! i) \<and> best_votee p rnd i \<ge> 0 \<and> best_votee p rnd i = k)
          [0..<analyst_count p])"
  by (simp add: generate_votes_for_round_def filter_map comp_def conj_assoc)

lemma votes_total:
  assumes "0 \<le> k"
  shows "score_of (generate_votes_for_round p rnd) k =
    5 * int (card {i \<in> active_ids p. best_votee p rnd i = k})"
proof -
  let ?L = "List.filter (\<lambda>i. is_active (analysts p ! i) \<and> best_votee p rnd i \<ge> 0 \<and>
      best_votee p rnd i = k) [0..<analyst_count p]"
  have "score_of (generate_votes_for_round p rnd) k = sum_list (map (\<lambda>i. 5) ?L)"
    by (simp add: score_of_def votes_filter comp_def)
  also have "\<dots> = 5 * int (length ?L)" by (simp add: sum_list_triv)
  also have "length ?L = card (set ?L)"
    by (simp only: distinct_card distinct_filter distinct_upt)
  also have "set ?L = {i \<in> active_ids p. best_votee p rnd i = k}"
    using assms by (auto simp: active_ids_def)
  finally show ?thesis .
qed

lemma election_winner_score:
  "winner_id (fst (run_election_round rnd (p, vs))) =
     select_winner (tally_votes (generate_votes_for_round p rnd))"
  by simp

text \<open>the winner of an election round is -1 or the index of an analyst that was active
  when the votes were cast, that some other active analyst voted for, and whose response
  this round is not empty.\<close>

theorem election_winner_valid:
  "winner_id (fst (run_election_round rnd (p, vs))) = - 1 \<or>
   (\<exists>j\<in>active_ids p. winner_id (fst (run_election_round rnd (p, vs))) = int j \<and>
      get_response (analysts p ! j) rnd \<noteq> [] \<and>
      (\<exists>i\<in>active_ids p. i \<noteq> j \<and> best_votee p rnd i = int j))"
proof -
  let ?V = "generate_votes_for_round p rnd"
  show ?thesis
    using select_winner_score [of ?V]
  proof
    assume "select_winner (tally_votes ?V) = - 1 \<and> (\<forall>k. score_of ?V k \<le> 0)"
    then show ?thesis by simp
  next
    assume "select_winner (tally_votes ?V) \<in> votee_id ` set ?V \<and>
      0 < score_of ?V (select_winner (tally_votes ?V)) \<and>
      (\<forall>k. score_of ?V k < score_of ?V (select_winner (tally_votes ?V)) \<or>
         score_of ?V k = score_of ?V (select_winner (tally_votes ?V)) \<and>
         select_winner (tally_votes ?V) \<le> k)"
    then obtain v where v: "v \<in> set ?V" "select_winner (tally_votes ?V) = votee_id v" by auto
    from v(1) obtain i where i: "i \<in> active_ids p" "best_votee p rnd i \<ge> 0"
      "votee_id v = best_votee p rnd i"
      by (auto simp: generate_votes_active)
    with best_votee_spec [of p rnd i] obtain j where "j \<in> active_ids p - {i}"
      "best_votee p rnd i = int j" "0 < resp_len p rnd j" by auto
    with i v(2) show ?thesis by (auto simp: resp_len_def)
  qed
qed

section \<open>Councils of two, councils of three and more\<close>

lemma winner_by_count:
  assumes l: "l \<in> active_ids p" and
    pos: "{i \<in> active_ids p. best_votee p rnd i = int l} \<noteq> {}" and
    best: "\<And>k. k \<in> active_ids p \<Longrightarrow> k \<noteq> l \<Longrightarrow>
      card {i \<in> active_ids p. best_votee p rnd i = int k} < card {i \<in> active_ids p. best_votee p rnd i = int l} \<or>
      card {i \<in> active_ids p. best_votee p rnd i = int k} = card {i \<in> active_ids p. best_votee p rnd i = int l} \<and> l < k"
  shows "winner_id (fst (run_election_round rnd (p, vs))) = int l"
proof -
  let ?V = "generate_votes_for_round p rnd"
  let ?w = "select_winner (tally_votes ?V)"
  let ?c = "\<lambda>k. card {i \<in> active_ids p. best_votee p rnd i = int k}"
  have tot: "score_of ?V (int k) = 5 * int (?c k)" for k by (simp add: votes_total)
  have "0 < score_of ?V (int l)" using pos by (simp add: tot card_gt_0_iff)
  then have w: "?w \<in> votee_id ` set ?V" and
    max: "\<And>k. score_of ?V k < score_of ?V ?w \<or> score_of ?V k = score_of ?V ?w \<and> ?w \<le> k"
    using select_winner_score [of ?V] by (metis not_le)+
  from w obtain v where "v \<in> set ?V" "?w = votee_id v" by auto
  then obtain j where j: "j \<in> active_ids p" "?w = int j"
    using vote_cast [of v p rnd] by auto
  have "j = l"
  proof (rule ccontr)
    assume "j \<noteq> l"
    from best [OF j(1) this] max [of "int l"] show False by (auto simp: j(2) tot)
  qed
  with j show ?thesis by simp
qed

text \<open>with exactly two active analysts that both answered, each votes for the other and
  the tie goes to the lower index: the content of the responses does not matter.\<close>

theorem two_active_lower_index_wins:
  assumes "active_ids p = {i, j}" and "i < j"
    and "get_response (analysts p ! i) rnd \<noteq> []" and "get_response (analysts p ! j) rnd \<noteq> []"
  shows "winner_id (fst (run_election_round rnd (p, vs))) = int i"
proof -
  have "best_votee p rnd i = int j" and "best_votee p rnd j = int i"
    using best_votee_spec [of p rnd i] best_votee_spec [of p rnd j] assms by (auto simp: resp_len_def)
  then have "{x \<in> active_ids p. best_votee p rnd x = int i} = {j}"
    "{x \<in> active_ids p. best_votee p rnd x = int j} = {i}"
    using assms(1,2) by auto
  then show ?thesis using assms(1,2) by (intro winner_by_count) auto
qed

theorem two_active_lower_index_wins_witness:
  "winner_id (fst (run_election_round 0 (answered_pool [''a'', ''a much longer response''],
     \<lparr>election_history = []\<rparr>))) = 0"
  using two_active_lower_index_wins [of "answered_pool [''a'', ''a much longer response'']" 0 1 0
      "\<lparr>election_history = []\<rparr>"]
  by (simp add: answered_pool_simps lessThan_Suc insert_commute)

text \<open>with three or more active analysts, one whose response is strictly longer than all
  the others' wins the election.\<close>

theorem longest_response_wins:
  assumes "3 \<le> card (active_ids p)" and l: "l \<in> active_ids p"
    and longest: "\<forall>k\<in>active_ids p - {l}. resp_len p rnd k < resp_len p rnd l"
  shows "winner_id (fst (run_election_round rnd (p, vs))) = int l"
proof -
  have for_l: "best_votee p rnd i = int l" if i: "i \<in> active_ids p" "i \<noteq> l" for i
  proof -
    have "l \<in> active_ids p - {i}" using i l by simp
    moreover have "0 < resp_len p rnd l" using longest i by fastforce
    ultimately show ?thesis
      using best_votee_spec [of p rnd i] longest by (metis DiffD1 DiffI linorder_not_less neq0_conv singletonD)
  qed
  have L: "active_ids p - {l} \<subseteq> {i \<in> active_ids p. best_votee p rnd i = int l}" using for_l by auto
  have "card (active_ids p - {l}) = card (active_ids p) - 1" using l by simp
  with card_mono [OF _ L] assms(1)
  have two: "2 \<le> card {i \<in> active_ids p. best_votee p rnd i = int l}" by simp
  have "card {i \<in> active_ids p. best_votee p rnd i = int k} \<le> 1" if "k \<noteq> l" for k
  proof -
    have "{i \<in> active_ids p. best_votee p rnd i = int k} \<subseteq> {l}" using for_l that by fastforce
    then show ?thesis using card_mono [of "{l}"] by fastforce
  qed
  with two have "card {i \<in> active_ids p. best_votee p rnd i = int k}
      < card {i \<in> active_ids p. best_votee p rnd i = int l}" if "k \<noteq> l" for k
    using that by fastforce
  moreover have "{i \<in> active_ids p. best_votee p rnd i = int l} \<noteq> {}"
    using two by (metis card.empty not_numeral_le_zero)
  ultimately show ?thesis using l by (intro winner_by_count) blast+
qed

theorem longest_response_wins_witness:
  "winner_id (fst (run_election_round 0 (answered_pool [''a'', ''bbb'', ''cc''],
     \<lparr>election_history = []\<rparr>))) = 1"
  using longest_response_wins [of "answered_pool [''a'', ''bbb'', ''cc'']" 1 0
      "\<lparr>election_history = []\<rparr>"]
  by (simp add: answered_pool_simps lessThan_Suc insert_Diff_if)

section \<open>Pruning\<close>

text \<open>C3: the pruning pass marks exactly the active analysts from index 4 on that were idle
  for three rounds or whose score is below two, and changes nothing else; either condition
  alone is enough.\<close>

theorem prune_exact:
  "get_analyst (fst (prune_inactive_analysts p)) j =
     (case get_analyst p j of
        None \<Rightarrow> None
      | Some a \<Rightarrow>
          Some (if 4 \<le> j \<and> is_active a \<and> (get_idle_rounds a \<ge> 3 \<or> get_total_score a < 2)
                then mark_pruned a else a)) \<and>
   snd (prune_inactive_analysts p) =
     card {j. 4 \<le> j \<and> j \<in> active_ids p \<and>
              (get_idle_rounds (analysts p ! j) \<ge> 3 \<or> get_total_score (analysts p ! j) < 2)}"
proof -
  have "snd (prune_inactive_analysts p) =
      card (set (List.filter (\<lambda>i. should_prune (analysts p ! i)) [4..<analyst_count p]))"
    by (simp add: prune_hits BASE_ANALYST_COUNT_def distinct_card del: set_filter)
  also have "set (List.filter (\<lambda>i. should_prune (analysts p ! i)) [4..<analyst_count p]) =
      {j. 4 \<le> j \<and> j \<in> active_ids p \<and>
          (get_idle_rounds (analysts p ! j) \<ge> 3 \<or> get_total_score (analysts p ! j) < 2)}"
    by (auto simp: should_prune_def active_ids_def MAX_IDLE_ROUNDS_def MIN_CONTRIBUTION_SCORE_def)
  finally show ?thesis
    by (auto simp: prune_at pl.hit_def should_prune_def tribunal_simps split: option.splits)
qed

text \<open>pruning is idempotent: a second pass right after the first prunes nobody.\<close>

theorem prune_idempotent:
  "prune_inactive_analysts (fst (prune_inactive_analysts p)) = (fst (prune_inactive_analysts p), 0)"
proof -
  let ?p = "fst (prune_inactive_analysts p)"
  have "pl.sweep_one should_prune mark_pruned (?p, 0) j = (?p, 0)"
    if "BASE_ANALYST_COUNT \<le> j" for j
    using that by (auto simp: pl.sweep_one_def prune_at pl.hit_def should_prune_def split: option.splits)
  then have "foldl (pl.sweep_one should_prune mark_pruned) (?p, 0) js = (?p, 0)"
    if "\<forall>j\<in>set js. BASE_ANALYST_COUNT \<le> j" for js
    using that by (induction js) auto
  then show ?thesis by (simp add: prune_is_sweep pl.sweep_def)
qed

end
