(* ===== verification/Council_Properties.thy ===== *)
theory Council_Properties
  imports Council
begin

text \<open>
  The properties of a whole debate. A debate on a freshly initialised council has an exact
  functional description (\<open>at_round\<close>): which rounds run, what each analyst's transcript
  holds, and who is reported as the winner.
\<close>

section \<open>A fresh council\<close>

definition debate_request :: "string list \<Rightarrow> nat \<Rightarrow> string \<Rightarrow> prompt_request" where
  "debate_request ms i prompt =
     round_request (new_analyst (base_roles ! i) (ms ! i) (base_prompts ! i)) prompt"

text \<open>The answer to analyst \<open>i\<close> in round \<open>j\<close>, and whether any analyst gets one.\<close>

definition round_answer ::
  "'c answers \<Rightarrow> 'c \<Rightarrow> string list \<Rightarrow> string \<Rightarrow> nat \<Rightarrow> nat \<Rightarrow> llm_result" where
  "round_answer answer cl ms prompt j i = answer cl (int j) i (debate_request ms i prompt)"

definition round_alive :: "'c answers \<Rightarrow> 'c \<Rightarrow> string list \<Rightarrow> string \<Rightarrow> nat \<Rightarrow> bool" where
  "round_alive answer cl ms prompt j \<longleftrightarrow>
     (\<exists>i < min 4 (length ms). round_ok (round_answer answer cl ms prompt j i))"

definition member_at ::
  "'c answers \<Rightarrow> 'c \<Rightarrow> string list \<Rightarrow> string \<Rightarrow> nat \<Rightarrow> nat \<Rightarrow> analyst \<Rightarrow> bool" where
  "member_at answer cl ms prompt r i a \<longleftrightarrow>
     is_active a \<and> total_score (stats a) = 0 \<and>
     round_request a prompt = debate_request ms i prompt \<and>
     responses a = map (\<lambda>j. round_text (round_answer answer cl ms prompt j i)) [0..<r]"

definition at_round ::
  "'c answers \<Rightarrow> 'c \<Rightarrow> string list \<Rightarrow> string \<Rightarrow> nat \<Rightarrow> 'c council \<Rightarrow> bool" where
  "at_round answer cl ms prompt r c \<longleftrightarrow>
     council_client c = Some cl \<and> council_voting c \<noteq> None \<and>
     (\<exists>p. council_pool c = Some p \<and> analyst_count p = min 4 (length ms) \<and>
        (\<forall>i < min 4 (length ms). member_at answer cl ms prompt r i (analysts p ! i)))"

lemma at_round_initialized: "at_round answer cl ms prompt r c \<Longrightarrow> is_initialized c"
  by (auto simp: at_round_def is_initialized_def)

lemma initialize_at_round:
  assumes "initialize_analysts (Some cl) ms c = (True, c')"
  shows "at_round answer cl ms prompt 0 c'" and "get_election_history c' = []" and "ms \<noteq> []"
  using assms
  by (auto simp: initialize_analysts_def at_round_def new_pool_def analyst_count_def member_at_def
      debate_request_def get_election_history_def is_active_def new_analyst_def
      analyst_stats_default_def split: if_splits)

lemma request_cong:
  "model a' = model a \<Longrightarrow> system_prompt a' = system_prompt a \<Longrightarrow>
   round_request a' prompt = round_request a prompt"
  by (simp add: round_request_def)

lemma round_of_member_at:
  assumes "member_at answer cl ms prompt r i a"
  shows "member_at answer cl ms prompt (Suc r) i (round_of (answer cl (int r)) prompt i a)"
proof -
  have "round_request (round_of (answer cl (int r)) prompt i a) prompt = debate_request ms i prompt"
    using assms by (simp add: member_at_def round_request_def)
  with assms show ?thesis
    by (simp add: member_at_def round_of_responses round_answer_def)
qed

lemma prune_base_pool:
  assumes "analyst_count p \<le> 4"
  shows "prune_inactive_analysts p = (p, 0)"
  using assms by (simp add: prune_inactive_analysts_def BASE_ANALYST_COUNT_def)

lemma at_round_step:
  assumes at: "at_round answer cl ms prompt r c"
    and run: "run_round answer prompt (int r) c = (b, c')"
  shows "at_round answer cl ms prompt (Suc r) c'" and "b = round_alive answer cl ms prompt r"
proof -
  obtain p vs where c: "council_pool c = Some p" "council_client c = Some cl"
    "council_voting c = Some vs" and n: "analyst_count p = min 4 (length ms)"
    and mem: "\<And>i. i < min 4 (length ms) \<Longrightarrow> member_at answer cl ms prompt r i (analysts p ! i)"
    using at by (auto simp: at_round_def)
  let ?e = "pool_execute_round (answer cl (int r)) prompt p"
  have mem': "member_at answer cl ms prompt (Suc r) i (analysts (snd ?e) ! i)"
    if "i < min 4 (length ms)" for i
    using round_of_member_at [OF mem [OF that]] that n by (simp add: pool_round_nth)
  have prune: "fst (prune_inactive_analysts (snd ?e)) = snd ?e"
    using n by (simp add: prune_base_pool)
  have run': "(b, c') = (let e = ?e in if fst e = 0 then (False, c\<lparr>council_pool := Some (snd e)\<rparr>)
      else (True, c\<lparr>council_pool := Some (fst (snd (run_election_round (int r) (snd e, vs)))),
                    council_voting := Some (snd (snd (run_election_round (int r) (snd e, vs))))\<rparr>))"
    using run_round_Some [OF c, of answer prompt "int r"] run by simp
  show "at_round answer cl ms prompt (Suc r) c'"
    using run' c mem' n by (auto simp: at_round_def Let_def prune split: if_splits)
  have "b \<longleftrightarrow> 0 < fst ?e" using run' by (auto simp: Let_def split: if_splits)
  also have "\<dots> \<longleftrightarrow> (\<exists>i < analyst_count p. round_success (answer cl (int r)) prompt i (analysts p ! i))"
    by (auto simp: pool_execute_round_def analyst_count_def filter_empty_conv)
  also have "\<dots> \<longleftrightarrow> round_alive answer cl ms prompt r"
    using mem n
    by (auto simp: round_alive_def round_success_def execute_round_ok member_at_def round_answer_def)
  finally show "b = round_alive answer cl ms prompt r" .
qed

text \<open>
  The loop from round \<open>r\<close>: \<open>e\<close> more rounds complete, all of them alive; if the loop stops
  before the last round, the next one is dead but its (empty) answers are in the transcripts.
\<close>

lemma run_rounds_at:
  assumes "at_round answer cl ms prompt r c"
    and "run_rounds answer prompt n (int r) k c = (k', c')"
  shows "\<exists>e. k' = k + int e \<and> r + e \<le> max r (nat n) \<and>
    (\<forall>j. r \<le> j \<and> j < r + e \<longrightarrow> round_alive answer cl ms prompt j) \<and>
    (r + e < nat n \<longrightarrow> \<not> round_alive answer cl ms prompt (r + e)) \<and>
    at_round answer cl ms prompt (if r + e < nat n then r + e + 1 else r + e) c'"
  using assms
proof (induction "nat n - r" arbitrary: r k c)
  case 0
  then have "\<not> int r < n" by linarith
  with 0 have "k' = k" "c' = c" by (auto simp: run_rounds.simps [of answer prompt n "int r" k c])
  with 0 \<open>\<not> int r < n\<close> show ?case by (intro exI [of _ 0]) auto
next
  case (Suc d)
  then have lt: "int r < n" by linarith
  obtain b c1 where r: "run_round answer prompt (int r) c = (b, c1)"
    by (cases "run_round answer prompt (int r) c")
  note st = at_round_step [OF Suc.prems(1) r]
  show ?case
  proof (cases b)
    case False
    with lt r Suc.prems(2) have "k' = k" "c' = c1"
      by (auto simp: run_rounds.simps [of answer prompt n "int r" k c])
    with st False lt show ?thesis by (intro exI [of _ 0]) auto
  next
    case True
    with lt r Suc.prems(2) have rest: "run_rounds answer prompt n (int (Suc r)) (k + 1) c1 = (k', c')"
      by (simp add: run_rounds.simps [of answer prompt n "int r" k c] add.commute)
    have "d = nat n - Suc r" using Suc.hyps(2) by simp
    from Suc.hyps(1) [OF this st(1) rest] obtain e where e: "k' = k + 1 + int e"
      "Suc r + e \<le> max (Suc r) (nat n)"
      "\<forall>j. Suc r \<le> j \<and> j < Suc r + e \<longrightarrow> round_alive answer cl ms prompt j"
      "Suc r + e < nat n \<longrightarrow> \<not> round_alive answer cl ms prompt (Suc r + e)"
      "at_round answer cl ms prompt (if Suc r + e < nat n then Suc r + e + 1 else Suc r + e) c'"
      by blast
    have "\<forall>j. r \<le> j \<and> j < r + Suc e \<longrightarrow> round_alive answer cl ms prompt j"
      using e(3) st(2) True by (metis Suc_leI add_Suc_right add_Suc le_eq_less_or_eq)
    with e lt show ?thesis by (intro exI [of _ "Suc e"]) auto
  qed
qed

text \<open>The number of rounds a fresh debate completes, read off the election history.\<close>

lemma fresh_debate:
  assumes init: "initialize_analysts (Some cl) ms c0 = (True, c)"
    and run: "run_debate answer prompt n c = (res, c')"
  defines "k \<equiv> length (get_election_history c')"
  shows "k \<le> nat n" and "\<forall>j<k. round_alive answer cl ms prompt j"
    and "k < nat n \<longrightarrow> \<not> round_alive answer cl ms prompt k"
    and "at_round answer cl ms prompt (if k < nat n then k + 1 else k) c'"
    and "res = finalize_results c'"
    and "map round_number (get_election_history c') = map int [0..<k]"
proof -
  have at: "at_round answer cl ms prompt 0 c" by (rule initialize_at_round(1) [OF init])
  have ini: "is_initialized c" using at by (rule at_round_initialized)
  obtain kk where rr: "run_rounds answer prompt n 0 0 c = (kk, c')" and res: "res = finalize_results c'"
    using run_debate_initialized [OF ini, of answer prompt n] run by (metis prod.inject)
  have rr': "run_rounds answer prompt n (int 0) 0 c = (kk, c')" using rr by simp
  from run_rounds_at [OF at rr'] obtain e where e: "kk = int e" "e \<le> nat n"
    "\<forall>j. j < e \<longrightarrow> round_alive answer cl ms prompt j"
    "e < nat n \<longrightarrow> \<not> round_alive answer cl ms prompt e"
    "at_round answer cl ms prompt (if e < nat n then e + 1 else e) c'"
    unfolding add_0 max_0L by auto
  have hist: "map round_number (get_election_history c') = map int [0..<e]"
    using run_rounds_keeps [OF ini rr] initialize_at_round(2) [OF init] e(1) by simp
  have "length (map round_number (get_election_history c')) = length (map int [0..<e])"
    by (simp only: hist)
  then have "k = e" by (simp add: k_def)
  show "k \<le> nat n" "\<forall>j<k. round_alive answer cl ms prompt j"
    "k < nat n \<longrightarrow> \<not> round_alive answer cl ms prompt k"
    "at_round answer cl ms prompt (if k < nat n then k + 1 else k) c'"
    "res = finalize_results c'"
    "map round_number (get_election_history c') = map int [0..<k]"
    unfolding \<open>k = e\<close> using e res hist by blast+
qed

section \<open>Properties\<close>

text \<open>C1: the transcript of a fresh debate: the debate runs as long as some analyst answers,
  at most \<open>n\<close> rounds; analyst \<open>i\<close>'s \<open>j\<close>-th response is its answer in round \<open>j\<close> (the
  empty string when its client failed), for all rounds that ran, the last failing one
  included; and there is one election record per completed round, numbered from 0.\<close>

theorem fresh_debate_transcript:
  assumes "initialize_analysts (Some cl) ms c0 = (True, c)"
    and "run_debate answer prompt n c = (res, c')"
  shows "\<exists>k m p. k \<le> nat n \<and> m = (if k < nat n then k + 1 else k) \<and>
    (\<forall>j<k. round_alive answer cl ms prompt j) \<and>
    (k < nat n \<longrightarrow> \<not> round_alive answer cl ms prompt k) \<and>
    map round_number (get_election_history c') = map int [0..<k] \<and>
    council_pool c' = Some p \<and> analyst_count p = min 4 (length ms) \<and>
    (\<forall>i < min 4 (length ms). responses (analysts p ! i) =
       map (\<lambda>j. round_text (round_answer answer cl ms prompt j i)) [0..<m])"
  using fresh_debate [OF assms] by (auto simp: at_round_def member_at_def)

text \<open>Analyst \<open>i\<close> answers the prompt in the rounds before \<open>d\<close>; after that the client fails.\<close>

definition fading_answers :: "unit answers" where
  "fading_answers cl rnd i q =
     (if rnd < 2 then Inr (text_response (req_user_message q)) else Inr (error_response ''down''))"

definition demo_council :: "unit council" where
  "demo_council = snd (initialize_analysts (Some ()) [''m1'', ''m2''] (new_council configuration_default))"

lemma demo_council_init:
  "initialize_analysts (Some ()) [''m1'', ''m2''] (new_council configuration_default) = (True, demo_council)"
  by (simp add: demo_council_def initialize_analysts_def)

lemma fading_alive: "round_alive fading_answers () [''m1'', ''m2''] ''q'' j \<longleftrightarrow> j < 2"
  by (auto simp: round_alive_def round_answer_def fading_answers_def round_ok_def
      text_response_def error_response_def)

theorem fresh_debate_transcript_witness:
  "\<exists>p. council_pool (snd (run_debate fading_answers ''q'' 5 demo_council)) = Some p \<and>
     responses (analysts p ! 1) = [''q'', ''q'', []]"
proof -
  obtain res c' where r: "run_debate fading_answers ''q'' 5 demo_council = (res, c')"
    by (cases "run_debate fading_answers ''q'' 5 demo_council")
  from fresh_debate_transcript [OF demo_council_init r] obtain k m p where
    k: "k \<le> 5" "m = (if k < 5 then k + 1 else k)"
      "\<forall>j<k. round_alive fading_answers () [''m1'', ''m2''] ''q'' j"
      "k < 5 \<longrightarrow> \<not> round_alive fading_answers () [''m1'', ''m2''] ''q'' k"
    and p: "council_pool c' = Some p"
      "\<forall>i < min 4 (length [''m1'', ''m2'']). responses (analysts p ! i) =
        map (\<lambda>j. round_text (round_answer fading_answers () [''m1'', ''m2''] ''q'' j i)) [0..<m]"
    by auto
  have "\<not> k < 2" using k(4) unfolding fading_alive by linarith
  moreover have "\<not> 2 < k" using k(3) unfolding fading_alive by blast
  ultimately have "k = 2" by simp
  with k(2) have "[0..<m] = [0, 1, 2]" by (simp add: upt_rec)
  with p(2) have "responses (analysts p ! 1) = [''q'', ''q'', []]"
    by (simp add: round_answer_def fading_answers_def round_text_def text_response_def
        error_response_def debate_request_def round_request_def)
  with p(1) r show ?thesis by simp
qed

lemma fresh_result:
  assumes "initialize_analysts (Some cl) ms c0 = (True, c)"
  shows "final_winner (fst (run_debate answer prompt n c)) = 0 \<and>
    rounds_completed (fst (run_debate answer prompt n c)) = 0 \<and>
    analysts_pruned (fst (run_debate answer prompt n c)) = 0"
proof -
  obtain res c' where r: "run_debate answer prompt n c = (res, c')"
    by (cases "run_debate answer prompt n c")
  note f = fresh_debate [OF assms r]
  from f(4) obtain p m where p: "council_pool c' = Some p" "analyst_count p = min 4 (length ms)"
    "\<forall>i < min 4 (length ms). member_at answer cl ms prompt m i (analysts p ! i)"
    by (auto simp: at_round_def)
  have len: "0 < length (get_stats p)"
    using initialize_at_round(3) [OF assms] p(2) by (simp add: get_stats_def analyst_count_def)
  have zero: "total_score (get_stats p ! i) = 0 \<and> pruned (get_stats p ! i) = 0"
    if "i < length (get_stats p)" for i
    using that p(2,3) by (auto simp: get_stats_def analyst_count_def member_at_def is_active_def)
  have "pick_winner (get_stats p) = 0"
    using pick_winner_cases [of "get_stats p"]
  proof
    assume "pick_winner (get_stats p) = - 1 \<and> (\<forall>st\<in>set (get_stats p). total_score st \<le> - 1)"
    with zero [OF len] nth_mem [OF len] show ?thesis by fastforce
  next
    assume "\<exists>i < length (get_stats p). pick_winner (get_stats p) = int i \<and>
      0 \<le> total_score (get_stats p ! i) \<and>
      (\<forall>j < length (get_stats p). total_score (get_stats p ! j) \<le> total_score (get_stats p ! i) \<and>
         (total_score (get_stats p ! j) = total_score (get_stats p ! i) \<longrightarrow> i \<le> j))"
    then obtain i where i: "i < length (get_stats p)" "pick_winner (get_stats p) = int i"
      "total_score (get_stats p ! 0) = total_score (get_stats p ! i) \<longrightarrow> i \<le> 0"
      using len by blast
    with zero [OF i(1)] zero [OF len] show ?thesis by simp
  qed
  moreover have "List.filter (\<lambda>st. pruned st \<noteq> 0) (get_stats p) = []"
    using zero by (auto simp: filter_empty_conv in_set_conv_nth)
  then have "analysts_pruned (finalize_results c') = 0"
    using p(1) by (simp add: finalize_results_def Let_def)
  ultimately show ?thesis
    using r f(5) p(1) by (simp add: finalize_winner finalize_rounds_completed)
qed

text \<open>the result of a fresh debate never depends on the debate: no operation of the loop
  awards points, so the winner is always analyst 0, nobody has been pruned, and the number of
  completed rounds is reported as 0 however many ran.\<close>

theorem fresh_debate_result_constant:
  assumes "initialize_analysts (Some cl) ms c0 = (True, c)"
  shows "final_winner (fst (run_debate answer prompt n c)) = 0 \<and>
    rounds_completed (fst (run_debate answer prompt n c)) = 0 \<and>
    analysts_pruned (fst (run_debate answer prompt n c)) = 0"
  using fresh_result [OF assms] by blast

theorem fresh_debate_result_constant_witness:
  "final_winner (fst (run_debate fading_answers ''q'' 5 demo_council)) = 0"
  using fresh_debate_result_constant [OF demo_council_init, of fading_answers "''q''" 5] by blast

text \<open>C5: any debate on an initialised council, in any state: the elections it holds are
  numbered from 0 without gaps, at most one per requested round; the council stays
  initialised with its configuration and client; and the pool keeps its size, every score,
  every identity, the activity of the four base analysts, and all earlier responses.\<close>

theorem debate_preserves_council:
  assumes "is_initialized c" and "run_debate answer prompt n c = (res, c')"
  shows "\<exists>k. k \<le> nat n \<and>
    map round_number (get_election_history c') =
      map round_number (get_election_history c) @ map int [0..<k] \<and>
    debate_keeps c c'"
proof -
  obtain kk where rr: "run_rounds answer prompt n 0 0 c = (kk, c')"
    using run_debate_initialized [OF assms(1), of answer prompt n] assms(2) by (metis prod.inject)
  from run_rounds_keeps [OF assms(1) rr] show ?thesis
    by (intro exI [of _ "nat kk"]) auto
qed

theorem debate_preserves_council_witness:
  "is_initialized demo_council \<and>
   debate_keeps demo_council (snd (run_debate fading_answers ''q'' 5 demo_council))"
proof -
  have i: "is_initialized demo_council"
    using initialize_at_round(1) [OF demo_council_init] by (rule at_round_initialized)
  obtain res c' where r: "run_debate fading_answers ''q'' 5 demo_council = (res, c')"
    by (cases "run_debate fading_answers ''q'' 5 demo_council")
  from debate_preserves_council [OF i r] i r show ?thesis by auto
qed

text \<open>the winner of the final result is the first analyst with the greatest total score,
  -1 exactly when every score is negative; its index is always valid.\<close>

theorem final_winner_first_maximum:
  "(pick_winner sts = - 1 \<and> (\<forall>i. length sts \<le> i \<or> total_score (sts ! i) < 0)) \<or>
   (\<exists>i < length sts. pick_winner sts = int i \<and> 0 \<le> total_score (sts ! i) \<and>
      (\<forall>j. length sts \<le> j \<or> total_score (sts ! j) < total_score (sts ! i) \<or>
           total_score (sts ! j) = total_score (sts ! i) \<and> i \<le> j))"
  using pick_winner_cases [of sts]
proof
  assume *: "pick_winner sts = - 1 \<and> (\<forall>st\<in>set sts. total_score st \<le> - 1)"
  have "length sts \<le> i \<or> total_score (sts ! i) < 0" for i
    using * nth_mem [of i sts] by fastforce
  with * show ?thesis by blast
next
  assume "\<exists>i < length sts. pick_winner sts = int i \<and> 0 \<le> total_score (sts ! i) \<and>
    (\<forall>j < length sts. total_score (sts ! j) \<le> total_score (sts ! i) \<and>
       (total_score (sts ! j) = total_score (sts ! i) \<longrightarrow> i \<le> j))"
  then obtain i where i: "i < length sts" "pick_winner sts = int i" "0 \<le> total_score (sts ! i)"
    and m: "\<And>j. j < length sts \<Longrightarrow> total_score (sts ! j) \<le> total_score (sts ! i) \<and>
       (total_score (sts ! j) = total_score (sts ! i) \<longrightarrow> i \<le> j)" by blast
  have "length sts \<le> j \<or> total_score (sts ! j) < total_score (sts ! i) \<or>
      total_score (sts ! j) = total_score (sts ! i) \<and> i \<le> j" for j
    using m [of j] by linarith
  with i show ?thesis by blast
qed

end
