(* ===== verification/Config_Parser.thy ===== *)
theory Config_Parser
  imports Core_Types Cpp_Numbers
begin

text \<open>
  \<open>core/ConfigParser.cpp\<close>: reading \<open>council.conf\<close>, the overrides from the environment and the
  credential files of other tools. What the process can see outside itself (environment
  variables, files, the output of the \<open>gcloud\<close> command) is the parameter record \<open>environment\<close>.
\<close>

record environment =
  getenv :: "string \<Rightarrow> string option"
  read_file :: "string \<Rightarrow> string option"
  gcloud_output :: "string option"

section \<open>Trimming and lines\<close>

function trim_start :: "string \<Rightarrow> nat \<Rightarrow> nat" where
  "trim_start s i = (if i < length s \<and> isspace (s ! i) then trim_start s (i + 1) else i)"
  by pat_completeness auto
termination
  by (relation "measure (\<lambda>(s, i). length s - i)") auto

declare trim_start.simps [simp del]

fun trim_end :: "string \<Rightarrow> nat \<Rightarrow> nat \<Rightarrow> nat" where
  "trim_end s i j = (if j > i \<and> isspace (s ! (j - 1)) then trim_end s i (j - 1) else j)"

declare trim_end.simps [simp del]

definition trim :: "string \<Rightarrow> string" where
  "trim str =
     (let i = trim_start str 0; j = trim_end str i (length str) in substr str i (j - i))"

text \<open>\<open>None\<close> when the line sets nothing, otherwise its key and its value.\<close>

definition parse_line :: "string \<Rightarrow> (string \<times> string) option" where
  "parse_line line =
     (let trimmed = trim line
      in if trimmed = [] \<or> trimmed ! 0 = CHR ''#'' then None
         else (case str_find trimmed ''='' 0 of
                 None \<Rightarrow> None
               | Some eq_pos \<Rightarrow>
                   let key = trim (substr trimmed 0 eq_pos);
                       v = trim (drop (eq_pos + 1) trimmed);
                       v' = (case str_find v ''#'' 0 of
                               None \<Rightarrow> v
                             | Some p \<Rightarrow> trim (substr v 0 p))
                   in if key \<noteq> [] \<and> v' \<noteq> [] then Some (key, v') else None))"

section \<open>Setting values\<close>

text \<open>\<open>config.f = std::stoi(value)\<close>: the exceptions of \<open>stoi\<close> leave the configuration unset.\<close>

definition set_int :: "((int \<Rightarrow> int) \<Rightarrow> configuration \<Rightarrow> configuration) \<Rightarrow> string \<Rightarrow>
    configuration \<Rightarrow> configuration outcome" where
  "set_int upd v c = omap (\<lambda>i. upd (\<lambda>_. i) c) (stoi v)"

definition set_config_value ::
  "string \<Rightarrow> string \<Rightarrow> configuration \<Rightarrow> configuration outcome" where
  "set_config_value key v c =
     (if key = ''rounds'' then set_int rounds_update v c
      else if key = ''election_start'' then set_int election_start_update v c
      else if key = ''election_backoff'' then set_int election_backoff_update v c
      else if key = ''election_max'' then set_int election_max_update v c
      else if key = ''judge_model'' then Ret (c\<lparr>judge_model := v\<rparr>)
      else if key = ''spawn_enabled'' then set_int spawn_enabled_update v c
      else if key = ''spawn_check_round'' then set_int spawn_check_round_update v c
      else if key = ''prune_enabled'' then set_int prune_enabled_update v c
      else if key = ''prune_interval'' then set_int prune_interval_update v c
      else if key = ''prune_grace'' then set_int prune_grace_update v c
      else if key = ''min_analysts'' then set_int min_analysts_update v c
      else if key = ''prune_respawn'' then set_int prune_respawn_update v c
      else if key = ''model'' then Ret (c\<lparr>models := models c @ [v]\<rparr>)
      else if key = ''ollama_url'' then Ret (c\<lparr>ollama_urls := ollama_urls c @ [v]\<rparr>)
      else if key = ''ollama_timeout'' then set_int ollama_timeout_update v c
      else if key = ''api_type'' then Ret (c\<lparr>api_type := v\<rparr>)
      else if key = ''ollama_api_url'' then Ret (c\<lparr>ollama_api_url := v\<rparr>)
      else if key = ''claude_model'' then Ret (c\<lparr>claude_model := v\<rparr>)
      else if key = ''claude_api_key'' then Ret (c\<lparr>claude_api_key := v\<rparr>)
      else if key = ''google_agy_model'' then Ret (c\<lparr>google_agy_model := v\<rparr>)
      else if key = ''google_agy_api_key'' then Ret (c\<lparr>google_agy_api_key := v\<rparr>)
      else if key = ''google_agy_endpoint'' then Ret (c\<lparr>google_agy_endpoint := v\<rparr>)
      else Ret c)"

definition int_keys :: "string list" where
  "int_keys = [''rounds'', ''election_start'', ''election_backoff'', ''election_max'',
     ''spawn_enabled'', ''spawn_check_round'', ''prune_enabled'', ''prune_interval'',
     ''prune_grace'', ''min_analysts'', ''prune_respawn'', ''ollama_timeout'']"

definition load_line :: "string \<Rightarrow> configuration \<Rightarrow> configuration outcome" where
  "load_line line c =
     (case parse_line line of None \<Rightarrow> Ret c | Some (k, v) \<Rightarrow> set_config_value k v c)"

fun load_lines :: "string list \<Rightarrow> configuration \<Rightarrow> configuration outcome" where
  "load_lines [] c = Ret c"
| "load_lines (l # ls) c = obind (load_line l c) (load_lines ls)"

section \<open>Credentials\<close>

text \<open>The first line on which one of the patterns is followed by a closed string.\<close>

fun extract_any :: "string list \<Rightarrow> string \<Rightarrow> string option" where
  "extract_any [] line = None"
| "extract_any (pat # pats) line =
     (case extract_quoted pat line of Some v \<Rightarrow> Some v | None \<Rightarrow> extract_any pats line)"

fun first_extract :: "string list \<Rightarrow> string list \<Rightarrow> string option" where
  "first_extract pats [] = None"
| "first_extract pats (l # ls) =
     (case extract_any pats l of Some v \<Rightarrow> Some v | None \<Rightarrow> first_extract pats ls)"

definition token_pattern :: "string \<Rightarrow> string" where
  "token_pattern k = quote # k @ [quote, CHR '':'', quote]"

definition read_claude_cli_credentials :: "environment \<Rightarrow> string" where
  "read_claude_cli_credentials env =
     (case getenv env ''HOME'' of
        None \<Rightarrow> []
      | Some home \<Rightarrow>
          (case read_file env (home @ ''/.claude/.credentials.json'') of
             None \<Rightarrow> []
           | Some text \<Rightarrow>
               (case first_extract [token_pattern ''accessToken''] (getlines text) of
                  None \<Rightarrow> [] | Some v \<Rightarrow> v)))"

text \<open>
  \<open>fgets\<close> into 256 bytes: \<open>None\<close> when the command printed nothing, otherwise the first line with
  its newline, cut at 255 bytes and at the first NUL, as \<open>std::string(buffer)\<close> sees it.
\<close>

definition fgets_256 :: "string \<Rightarrow> string option" where
  "fgets_256 s =
     (if s = [] then None
      else let l = takeWhile (\<lambda>c. c \<noteq> newline) s;
               line = (if length l < length s then l @ [newline] else l)
           in Some (takeWhile (\<lambda>c. c \<noteq> CHR 0x00) (take 255 line)))"

text \<open>After \<open>fgets\<close> the stream is closed; an unusable answer then closes it a second time.\<close>

definition read_gcloud_project :: "environment \<Rightarrow> string outcome" where
  "read_gcloud_project env =
     (case getenv env ''GOOGLE_CLOUD_PROJECT'' of
        Some (c # cs) \<Rightarrow> Ret (c # cs)
      | _ \<Rightarrow>
          (case gcloud_output env of
             None \<Rightarrow> Ret []
           | Some printed \<Rightarrow>
               (case fgets_256 printed of
                  None \<Rightarrow> Ret []
                | Some buffer \<Rightarrow>
                    let result = trim buffer
                    in if result \<noteq> [] \<and> result \<noteq> ''(unset)'' then Ret result
                       else Undef ''pclose of a closed stream'')))"

definition read_gcloud_credentials :: "environment \<Rightarrow> string" where
  "read_gcloud_credentials env =
     (let from_env =
            (case getenv env ''GOOGLE_APPLICATION_CREDENTIALS'' of
               None \<Rightarrow> None
             | Some path \<Rightarrow>
                 (case read_file env path of
                    None \<Rightarrow> None
                  | Some text \<Rightarrow> first_extract [token_pattern ''access_token''] (getlines text)))
      in case from_env of
           Some v \<Rightarrow> v
         | None \<Rightarrow>
             (case getenv env ''HOME'' of
                None \<Rightarrow> []
              | Some home \<Rightarrow>
                  (case read_file env
                          (home @ ''/.config/gcloud/application_default_credentials.json'') of
                     None \<Rightarrow> []
                   | Some text \<Rightarrow>
                       (case first_extract
                               [token_pattern ''access_token'', token_pattern ''client_secret'']
                               (getlines text) of
                          None \<Rightarrow> [] | Some v \<Rightarrow> v))))"

section \<open>Overrides and loading\<close>

definition nonempty_env :: "environment \<Rightarrow> string \<Rightarrow> string option" where
  "nonempty_env env k =
     (case getenv env k of Some (c # cs) \<Rightarrow> Some (c # cs) | _ \<Rightarrow> None)"

definition claude_key_from_env :: "environment \<Rightarrow> string" where
  "claude_key_from_env env =
     (case nonempty_env env ''CLAUDE_API_KEY'' of
        Some k \<Rightarrow> k
      | None \<Rightarrow>
          (case nonempty_env env ''ANTHROPIC_API_KEY'' of
             Some k \<Rightarrow> k
           | None \<Rightarrow> read_claude_cli_credentials env))"

definition google_key_from_env :: "environment \<Rightarrow> string" where
  "google_key_from_env env =
     (case nonempty_env env ''GOOGLE_AGY_API_KEY'' of
        Some k \<Rightarrow> k
      | None \<Rightarrow> read_gcloud_credentials env)"

definition project_endpoint :: "string \<Rightarrow> string" where
  "project_endpoint project =
     ''https://agy.googleapis.com/projects/'' @ project @ ''/locations/us-central1/v1beta1''"

definition apply_env_overrides :: "environment \<Rightarrow> configuration \<Rightarrow> configuration outcome" where
  "apply_env_overrides env c =
     (let c1 = (if claude_api_key c = [] then c\<lparr>claude_api_key := claude_key_from_env env\<rparr> else c);
          c2 = (if google_agy_api_key c1 = []
                then c1\<lparr>google_agy_api_key := google_key_from_env env\<rparr> else c1);
          c3 = (case getenv env ''GOOGLE_AGY_MODEL'' of
                  Some m \<Rightarrow> if google_agy_model c2 = [] then c2\<lparr>google_agy_model := m\<rparr> else c2
                | None \<Rightarrow> c2)
      in if google_agy_endpoint c3 = []
         then omap (\<lambda>project. if project \<noteq> []
                              then c3\<lparr>google_agy_endpoint := project_endpoint project\<rparr>
                              else c3)
                (read_gcloud_project env)
         else Ret c3)"

definition load :: "environment \<Rightarrow> string \<Rightarrow> configuration outcome" where
  "load env config_path =
     (case read_file env config_path of
        None \<Rightarrow> apply_env_overrides env configuration_default
      | Some text \<Rightarrow>
          obind (load_lines (getlines text) configuration_default) (apply_env_overrides env))"

definition load_or_default :: "environment \<Rightarrow> string \<Rightarrow> configuration outcome" where
  "load_or_default env config_path = load env config_path"

section \<open>The trimming loops strip white space on both sides\<close>

lemma trim_start_drop: "drop (trim_start s i) s = dropWhile isspace (drop i s) \<and> i \<le> trim_start s i"
proof (induction s i rule: trim_start.induct)
  case (1 s i)
  show ?case
  proof (cases "i < length s")
    case True
    then have "drop i s = s ! i # drop (Suc i) s" by (simp add: Cons_nth_drop_Suc)
    with 1 True show ?thesis by (subst (1 2) trim_start.simps) auto
  next
    case False
    then show ?thesis by (subst (1 2) trim_start.simps) auto
  qed
qed

lemma trim_start_le: "i \<le> length s \<Longrightarrow> trim_start s i \<le> length s"
  by (induction s i rule: trim_start.induct) (subst trim_start.simps, simp)

lemma trim_end_take:
  assumes "i \<le> j" and "j \<le> length s"
  shows "i \<le> trim_end s i j" and "trim_end s i j \<le> j"
    and "drop i (take (trim_end s i j) s) = rev (dropWhile isspace (rev (drop i (take j s))))"
proof (use assms in \<open>induction s i j rule: trim_end.induct\<close>)
  case (1 s i j)
  { case 1 then show ?case using "1.IH" by (subst trim_end.simps) auto }
  { case 2 then show ?case
    proof (cases "i < j \<and> isspace (s ! (j - 1))")
      case True
      then have "i \<le> j - 1" "j - 1 \<le> length s" using 2 by auto
      with 2 True "1.IH"(2) have "trim_end s i (j - 1) \<le> j - 1" by simp
      with True show ?thesis by (subst trim_end.simps) simp
    qed (subst trim_end.simps, auto) }
  { case 3
    show ?case
    proof (cases "i < j")
      case True
      then obtain k where k: "j = Suc k" "i \<le> k" by (cases j) auto
      with 3 have "drop i (take j s) = drop i (take k s) @ [s ! k]"
        by (simp add: take_Suc_conv_app_nth)
      then show ?thesis
        using True 3 k "1.IH"(3) by (subst trim_end.simps) auto
    next
      case False
      with 3 show ?thesis by (subst trim_end.simps) auto
    qed }
qed

lemma trim_strip: "trim s = rev (dropWhile isspace (rev (dropWhile isspace s)))"
  using trim_start_drop [of s 0] trim_start_le [of 0 s]
    trim_end_take(3) [of "trim_start s 0" "length s" s]
  by (simp add: trim_def substr_def Let_def drop_take)

end
