(* ===== verification/Logging.thy ===== *)
theory Logging
  imports Cpp_Numbers
begin

text \<open>
  \<open>util/Logging.h\<close> and \<open>util/Logging.cpp\<close>. The logger is its threshold together with the
  lines it has written to standard output and to standard error, in order; one call of
  \<open>log_impl\<close> holds the mutex from the test of the threshold to the end of the line, so a call
  is one step and several threads are an interleaving of their calls. The wall clock (a date
  text and the milliseconds) is a parameter.
\<close>

section \<open>Levels\<close>

datatype log_level = Debug | Info | Warning | Error | Silent

fun level_rank :: "log_level \<Rightarrow> nat" where
  "level_rank Debug = 0"
| "level_rank Info = 1"
| "level_rank Warning = 2"
| "level_rank Error = 3"
| "level_rank Silent = 4"

lemma level_rank_inj: "level_rank a = level_rank b \<Longrightarrow> a = b"
  by (cases a; cases b) simp_all

instantiation log_level :: linorder
begin

definition less_eq_log_level :: "log_level \<Rightarrow> log_level \<Rightarrow> bool" where
  "less_eq_log_level a b = (level_rank a \<le> level_rank b)"

definition less_log_level :: "log_level \<Rightarrow> log_level \<Rightarrow> bool" where
  "less_log_level a b = (level_rank a < level_rank b)"

instance
  by standard (auto simp: less_eq_log_level_def less_log_level_def intro: level_rank_inj)

end

fun level_name :: "log_level \<Rightarrow> string" where
  "level_name Debug = ''DEBUG''"
| "level_name Info = ''INFO''"
| "level_name Warning = ''WARN''"
| "level_name Error = ''ERROR''"
| "level_name Silent = ''NONE''"

section \<open>The logger\<close>

record clock_reading =
  date_text :: string
  millis :: nat

text \<open>\<open>std::setfill('0') << std::setw(3)\<close>.\<close>

definition pad3 :: "string \<Rightarrow> string" where
  "pad3 s = replicate (3 - length s) (CHR ''0'') @ s"

definition timestamp :: "clock_reading \<Rightarrow> string" where
  "timestamp t = date_text t @ ''.'' @ pad3 (show_nat (millis t mod 1000))"

record logger =
  min_level :: log_level
  out_lines :: "string list"
  err_lines :: "string list"

definition new_logger :: logger where
  "new_logger = \<lparr>min_level = Info, out_lines = [], err_lines = []\<rparr>"

definition set_level :: "log_level \<Rightarrow> logger \<Rightarrow> logger" where
  "set_level l lg = lg\<lparr>min_level := l\<rparr>"

definition formatted :: "clock_reading \<Rightarrow> log_level \<Rightarrow> string \<Rightarrow> string" where
  "formatted t l msg = ''['' @ timestamp t @ ''] ['' @ level_name l @ ''] '' @ msg"

definition log_impl :: "clock_reading \<Rightarrow> log_level \<Rightarrow> string \<Rightarrow> logger \<Rightarrow> logger" where
  "log_impl t l msg lg =
     (if l < min_level lg then lg
      else if l = Error then lg\<lparr>err_lines := err_lines lg @ [formatted t l msg]\<rparr>
      else lg\<lparr>out_lines := out_lines lg @ [formatted t l msg]\<rparr>)"

definition log_debug :: "clock_reading \<Rightarrow> string \<Rightarrow> logger \<Rightarrow> logger" where
  "log_debug t = log_impl t Debug"

definition log_info :: "clock_reading \<Rightarrow> string \<Rightarrow> logger \<Rightarrow> logger" where
  "log_info t = log_impl t Info"

definition log_warn :: "clock_reading \<Rightarrow> string \<Rightarrow> logger \<Rightarrow> logger" where
  "log_warn t = log_impl t Warning"

definition log_err :: "clock_reading \<Rightarrow> string \<Rightarrow> logger \<Rightarrow> logger" where
  "log_err t = log_impl t Error"

text \<open>A \<open>LogStream\<close> collects the pieces streamed into it; its destructor logs them as one line.\<close>

definition log_stream :: "clock_reading \<Rightarrow> log_level \<Rightarrow> string list \<Rightarrow> logger \<Rightarrow> logger" where
  "log_stream t l pieces = log_impl t l (concat pieces)"

section \<open>What a sequence of calls writes\<close>

type_synonym log_entry = "clock_reading \<times> log_level \<times> string"

definition log_all :: "log_entry list \<Rightarrow> logger \<Rightarrow> logger" where
  "log_all es lg = fold (\<lambda>(t, l, m). log_impl t l m) es lg"

definition render :: "log_entry \<Rightarrow> string" where
  "render e = (case e of (t, l, m) \<Rightarrow> formatted t l m)"

definition to_err :: "log_level \<Rightarrow> log_entry \<Rightarrow> bool" where
  "to_err thr e \<longleftrightarrow> thr \<le> fst (snd e) \<and> fst (snd e) = Error"

definition to_out :: "log_level \<Rightarrow> log_entry \<Rightarrow> bool" where
  "to_out thr e \<longleftrightarrow> thr \<le> fst (snd e) \<and> fst (snd e) \<noteq> Error"

lemma log_impl_min_level [simp]: "min_level (log_impl t l m lg) = min_level lg"
  by (simp add: log_impl_def)

lemma log_all_lines:
  "min_level (log_all es lg) = min_level lg"
  "out_lines (log_all es lg) = out_lines lg @ map render (filter (to_out (min_level lg)) es)"
  "err_lines (log_all es lg) = err_lines lg @ map render (filter (to_err (min_level lg)) es)"
  by (induction es arbitrary: lg)
    (auto simp: log_all_def log_impl_def render_def to_out_def to_err_def not_less)

lemma shuffles_map: "zs \<in> shuffles xs ys \<Longrightarrow> map f zs \<in> shuffles (map f xs) (map f ys)"
  by (induction xs ys arbitrary: zs rule: shuffles.induct) auto

lemma shuffles_filter: "zs \<in> shuffles xs ys \<Longrightarrow> filter P zs \<in> shuffles (filter P xs) (filter P ys)"
  using filter_shuffles [of P xs ys] by blast

end
