(* ===== verification/Config_Validator.thy ===== *)
theory Config_Validator
  imports Core_Types Logging
begin

text \<open>
  \<open>core/ConfigValidator.cpp\<close>. A check that throws \<open>ConfigValidationError\<close> is a value
  \<open>Throw\<close>; what a function writes to the log is returned beside its result as a list of
  levels and messages. The regular expression for Ollama URLs is the executable matcher
  \<open>ollama_url_matches\<close>, proved equal to the language the expression describes.
\<close>

definition VALID_MIN_ROUNDS :: int where "VALID_MIN_ROUNDS = 1"

definition VALID_MAX_ROUNDS :: int where "VALID_MAX_ROUNDS = 20"

definition VALID_MIN_MODELS :: nat where "VALID_MIN_MODELS = 2"

definition VALID_MAX_MODELS :: nat where "VALID_MAX_MODELS = 10"

definition validation_error :: "string \<Rightarrow> 'a outcome" where
  "validation_error msg = Throw (Exn Config_validation_error msg)"

definition valid_types :: "string list" where
  "valid_types = [''ollama'', ''claude'', ''google-agy'']"

definition validate_api_type :: "string \<Rightarrow> bool outcome" where
  "validate_api_type t =
     (if t \<in> set valid_types then Ret True
      else validation_error
        (''Unsupported api_type: '' @ [CHR 0x27] @ t @ [CHR 0x27] @
         ''. Supported: ollama, claude, google-agy''))"

definition validate_rounds :: "int \<Rightarrow> bool outcome" where
  "validate_rounds r =
     (if r < VALID_MIN_ROUNDS \<or> VALID_MAX_ROUNDS < r
      then validation_error (''rounds must be between '' @ show_int VALID_MIN_ROUNDS @ '' and '' @
             show_int VALID_MAX_ROUNDS @ '', got '' @ show_int r)
      else Ret True)"

definition validate_models :: "string list \<Rightarrow> (log_level \<times> string) list \<times> bool outcome" where
  "validate_models ms =
     (if ms = [] then ([], validation_error ''At least one model must be configured'')
      else (let warning =
                  (if length ms < VALID_MIN_MODELS
                   then [(Warning, ''Only '' @ show_nat (length ms) @ '' model(s) configured; '' @
                            show_nat VALID_MIN_MODELS @ '' recommended for debate'')]
                   else [])
            in (warning,
                if VALID_MAX_MODELS < length ms
                then validation_error (''Too many models: '' @ show_nat (length ms) @
                       '' (max: '' @ show_nat VALID_MAX_MODELS @ '')'')
                else Ret True)))"

section \<open>The URL expression\<close>

definition is_digit :: "char \<Rightarrow> bool" where
  "is_digit c \<longleftrightarrow> 48 \<le> code_of c \<and> code_of c \<le> 57"

definition host_char :: "char \<Rightarrow> bool" where
  "host_char c \<longleftrightarrow> is_digit c \<or> (97 \<le> code_of c \<and> code_of c \<le> 122) \<or>
     (65 \<le> code_of c \<and> code_of c \<le> 90) \<or> c = CHR ''.'' \<or> c = CHR ''-''"

definition after_scheme :: "string \<Rightarrow> string option" where
  "after_scheme s =
     (if take 7 s = ''http://'' then Some (drop 7 s)
      else if take 8 s = ''https://'' then Some (drop 8 s) else None)"

text \<open>\<open>std::regex_match\<close> with \<open>^https?://[a-zA-Z0-9.-]+:\d{1,5}/?$\<close>.\<close>

definition ollama_url_matches :: "string \<Rightarrow> bool" where
  "ollama_url_matches s =
     (case after_scheme s of
        None \<Rightarrow> False
      | Some r \<Rightarrow>
          (let host = takeWhile host_char r; r1 = dropWhile host_char r
           in host \<noteq> [] \<and>
              (case r1 of
                 [] \<Rightarrow> False
               | c # r2 \<Rightarrow>
                   (let port = takeWhile is_digit r2; r3 = dropWhile is_digit r2
                    in c = CHR '':'' \<and> 1 \<le> length port \<and> length port \<le> 5 \<and>
                       (r3 = [] \<or> r3 = ''/'')))))"

definition validate_ollama_urls :: "string list \<Rightarrow> bool outcome" where
  "validate_ollama_urls urls =
     (case List.find (\<lambda>u. \<not> ollama_url_matches u) urls of
        None \<Rightarrow> Ret True
      | Some u \<Rightarrow> validation_error (''Invalid Ollama URL format: '' @ u))"

section \<open>Collecting the errors\<close>

text \<open>\<open>try { check } catch (const ConfigValidationError& e) { errors.push_back(e.what()); }\<close>\<close>

definition error_of :: "bool outcome \<Rightarrow> string list" where
  "error_of r = (case r of Throw (Exn k msg) \<Rightarrow> [msg] | _ \<Rightarrow> [])"

definition get_validation_errors :: "configuration \<Rightarrow> string list" where
  "get_validation_errors c =
     error_of (validate_api_type (api_type c)) @
     error_of (validate_rounds (rounds c)) @
     (if length (models c) < VALID_MIN_MODELS
      then [''Insufficient models: '' @ show_nat (length (models c)) @ '' (minimum '' @
              show_nat VALID_MIN_MODELS @ '' required)'']
      else []) @
     (if api_type c = ''ollama'' \<and> ollama_urls c = [] then []
      else if api_type c = ''ollama'' then error_of (validate_ollama_urls (ollama_urls c))
      else []) @
     (if api_type c = ''claude'' \<and> claude_api_key c = []
      then [''Claude provider selected but claude_api_key not configured''] else []) @
     (if api_type c = ''google-agy'' \<and> google_agy_api_key c = []
      then [''Google Antigravity provider selected but google_agy_api_key not configured'']
      else [])"

definition validate :: "configuration \<Rightarrow> bool outcome" where
  "validate c =
     (let errors = get_validation_errors c
      in if errors \<noteq> []
         then validation_error (''Configuration validation failed:'' @ [newline] @
                concat (map (\<lambda>e. ''  - '' @ e @ [newline]) errors))
         else Ret True)"

definition default_models :: "string list" where
  "default_models = [''llama3.2'', ''mistral'', ''neural-chat'', ''dolphin-mixtral'']"

definition default_claude_model :: string where
  "default_claude_model = ''claude-3-5-sonnet-20241022''"

definition fill_defaults :: "configuration \<Rightarrow> configuration" where
  "fill_defaults c =
     c\<lparr>rounds := (if rounds c = 0 then 4 else rounds c),
       models := (if models c = [] then default_models else models c),
       api_type := (if api_type c = [] then ''ollama'' else api_type c),
       ollama_urls := (if ollama_urls c = [] then [''http://localhost:11434''] else ollama_urls c),
       claude_model := (if claude_model c = [] then default_claude_model else claude_model c),
       google_agy_model :=
         (if google_agy_model c = [] then default_claude_model else google_agy_model c)\<rparr>"

definition apply_defaults :: "configuration \<Rightarrow> (log_level \<times> string) list \<times> configuration" where
  "apply_defaults c =
     (let c' = fill_defaults c
      in (case validate c' of Throw (Exn k msg) \<Rightarrow> [(Error, msg)] | _ \<Rightarrow> [], c'))"

section \<open>The matcher accepts the language of the expression\<close>

definition ollama_url :: "string \<Rightarrow> bool" where
  "ollama_url s \<longleftrightarrow> (\<exists>scheme host port slash. s = scheme @ host @ CHR '':'' # port @ slash \<and>
     scheme \<in> {''http://'', ''https://''} \<and>
     host \<noteq> [] \<and> (\<forall>c\<in>set host. host_char c) \<and>
     1 \<le> length port \<and> length port \<le> 5 \<and> (\<forall>c\<in>set port. is_digit c) \<and>
     slash \<in> {[], ''/''})"

lemma separators: "\<not> host_char (CHR '':'')" "\<not> is_digit (CHR ''/'')"
  by (simp_all add: host_char_def is_digit_def)

lemma after_scheme_iff:
  "after_scheme s = Some r \<longleftrightarrow> s = ''http://'' @ r \<or> s = ''https://'' @ r"
proof
  assume "after_scheme s = Some r"
  then show "s = ''http://'' @ r \<or> s = ''https://'' @ r"
    unfolding after_scheme_def by (metis append_take_drop_id option.distinct(1) option.inject)
qed (auto simp: after_scheme_def)

lemma url_matches_parts:
  assumes "scheme \<in> {''http://'', ''https://''}" and "host \<noteq> []" and "\<forall>c\<in>set host. host_char c"
    and "1 \<le> length port" and "length port \<le> 5" and "\<forall>c\<in>set port. is_digit c"
    and "slash \<in> {[], ''/''}"
  shows "ollama_url_matches (scheme @ host @ CHR '':'' # port @ slash)"
proof -
  have a: "after_scheme (scheme @ host @ CHR '':'' # port @ slash) = Some (host @ CHR '':'' # port @ slash)"
    using assms(1) by (auto simp: after_scheme_iff)
  have h: "takeWhile host_char (host @ CHR '':'' # port @ slash) = host"
    "dropWhile host_char (host @ CHR '':'' # port @ slash) = CHR '':'' # port @ slash"
    using assms(3) separators(1) by (auto simp: takeWhile_append dropWhile_append)
  have p: "takeWhile is_digit (port @ slash) = port" "dropWhile is_digit (port @ slash) = slash"
    using assms(6,7) separators(2) by (auto simp: takeWhile_append dropWhile_append)
  show ?thesis
    unfolding ollama_url_matches_def a option.case Let_def h list.case p
    using assms(2,4,5,7) by auto
qed

lemma url_parts_of_match:
  assumes "ollama_url_matches s"
  shows "ollama_url s"
proof -
  from assms obtain r where r: "after_scheme s = Some r"
    by (auto simp: ollama_url_matches_def split: option.splits)
  then obtain scheme where s: "s = scheme @ r" "scheme \<in> {''http://'', ''https://''}"
    by (auto simp: after_scheme_iff)
  let ?host = "takeWhile host_char r"
  from assms r obtain r2 where r2: "dropWhile host_char r = CHR '':'' # r2"
    by (auto simp: ollama_url_matches_def Let_def split: list.splits)
  let ?port = "takeWhile is_digit r2" and ?slash = "dropWhile is_digit r2"
  have "r = ?host @ CHR '':'' # ?port @ ?slash"
    by (metis r2 takeWhile_dropWhile_id)
  moreover have "?host \<noteq> []" "1 \<le> length ?port" "length ?port \<le> 5" "?slash \<in> {[], ''/''}"
    using assms r r2 by (auto simp: ollama_url_matches_def Let_def)
  moreover have "\<forall>c\<in>set ?host. host_char c" "\<forall>c\<in>set ?port. is_digit c"
    by (auto dest: set_takeWhileD)
  ultimately show ?thesis using s unfolding ollama_url_def by blast
qed

lemma ollama_url_matches_iff: "ollama_url_matches s \<longleftrightarrow> ollama_url s"
  using url_parts_of_match url_matches_parts unfolding ollama_url_def by blast

lemma validate_ollama_urls_iff:
  "validate_ollama_urls urls = Ret True \<longleftrightarrow> (\<forall>u\<in>set urls. ollama_url u)"
  by (auto simp: validate_ollama_urls_def validation_error_def ollama_url_matches_iff
      find_None_iff find_Some_iff split: option.splits dest: nth_mem)

lemma error_of_check [simp]:
  "error_of (Ret b) = []" "error_of (validation_error m) = [m]"
  by (simp_all add: error_of_def validation_error_def)

lemma validate_ollama_urls_no_error:
  "error_of (validate_ollama_urls urls) = [] \<longleftrightarrow> (\<forall>u\<in>set urls. ollama_url u)"
  unfolding validate_ollama_urls_iff [symmetric]
  by (cases "List.find (\<lambda>u. \<not> ollama_url_matches u) urls")
    (simp_all add: validate_ollama_urls_def, simp add: validation_error_def)

end
