(* ===== verification/Config_Properties.thy ===== *)
theory Config_Properties
  imports Config_Parser Config_Validator
begin

text \<open>
  What reading, overriding and validating a configuration guarantees: files written as
  \<open>key = value\<close> lines are read back exactly, loading fails exactly on a malformed number,
  the environment only fills what the file left empty, and validation accepts exactly the
  configurations with the listed properties.
\<close>

section \<open>Reading back what a file says\<close>

definition blank :: "string \<Rightarrow> bool" where
  "blank s \<longleftrightarrow> list_all isspace s"

definition stripped :: "string \<Rightarrow> bool" where
  "stripped s \<longleftrightarrow> s \<noteq> [] \<and> \<not> isspace (hd s) \<and> \<not> isspace (last s)"

lemma dropWhile_blank: "blank a \<Longrightarrow> dropWhile isspace (a @ b) = dropWhile isspace b"
  by (induction a) (auto simp: blank_def)

lemma blank_rev [simp]: "blank (rev a) = blank a"
  by (simp add: blank_def list_all_iff)

lemma dropWhile_blank_Nil: "blank a \<Longrightarrow> dropWhile isspace a = []"
  by (simp add: blank_def list_all_iff)

lemma trim_blank: "blank a \<Longrightarrow> trim a = []"
  by (simp only: trim_strip dropWhile_blank_Nil) simp

lemma isspace_special [simp]: "\<not> isspace (CHR ''='')" "\<not> isspace (CHR ''#'')"
  by (simp_all add: isspace_def)

lemma blank_no_special: "blank a \<Longrightarrow> CHR ''='' \<notin> set a \<and> CHR ''#'' \<notin> set a"
  by (auto simp: blank_def list_all_iff)

lemma trim_left: "blank a \<Longrightarrow> stripped w \<Longrightarrow> trim (a @ w @ r) = w @ rev (dropWhile isspace (rev r))"
proof -
  assume a: "blank a" and w: "stripped w"
  then obtain c cs where c: "w = c # cs" "\<not> isspace c" by (cases w) (auto simp: stripped_def)
  from w obtain d ds where d: "w = ds @ [d]" "\<not> isspace d"
    by (cases w rule: rev_cases) (auto simp: stripped_def)
  have "dropWhile isspace (a @ w @ r) = w @ r" using a c by (simp add: dropWhile_blank)
  moreover have "dropWhile isspace (rev r @ rev w) = dropWhile isspace (rev r) @ rev w"
    using d by (cases "\<forall>x\<in>set (rev r). isspace x") (auto simp: dropWhile_append)
  ultimately show ?thesis by (simp add: trim_strip)
qed

lemma trim_padded: "stripped w \<Longrightarrow> blank a \<Longrightarrow> blank b \<Longrightarrow> trim (a @ w @ b) = w"
  by (simp only: trim_left dropWhile_blank_Nil blank_rev) simp

text \<open>A line that sets a value, with padding and an optional comment, or one that sets nothing.\<close>

datatype config_item =
    Entry (pad1: string) (item_key: string) (pad2: string) (pad3': string) (item_value: string)
      (pad4: string) (item_comment: "string option")
  | Comment_line string string
  | Blank_line string

fun item_line :: "config_item \<Rightarrow> string" where
  "item_line (Entry a k b c v d cm) =
     a @ k @ b @ CHR ''='' # c @ v @ d @ (case cm of None \<Rightarrow> [] | Some t \<Rightarrow> CHR ''#'' # t)"
| "item_line (Comment_line a t) = a @ CHR ''#'' # t"
| "item_line (Blank_line a) = a"

fun item_ok :: "config_item \<Rightarrow> bool" where
  "item_ok (Entry a k b c v d cm) \<longleftrightarrow>
     blank a \<and> blank b \<and> blank c \<and> blank d \<and> stripped k \<and> stripped v \<and>
     hd k \<noteq> CHR ''#'' \<and> CHR ''='' \<notin> set k \<and> CHR ''#'' \<notin> set v"
| "item_ok (Comment_line a t) \<longleftrightarrow> blank a"
| "item_ok (Blank_line a) \<longleftrightarrow> blank a"

fun item_setting :: "config_item \<Rightarrow> (string \<times> string) option" where
  "item_setting (Entry a k b c v d cm) = Some (k, v)"
| "item_setting _ = None"

lemma find_in_prefix:
  assumes "c \<notin> set u"
  shows "str_find (u @ c # w) [c] 0 = Some (length u)" and "str_find u [c] 0 = None"
  using assms find_sub_char [of c u w] find_sub_char_None [of c u] by (simp_all add: str_find_0)

lemma parse_entry:
  assumes ok: "item_ok (Entry a k b c v d cm)"
  shows "parse_line (item_line (Entry a k b c v d cm)) = Some (k, v)"
proof -
  from ok have pads: "blank a" "blank b" "blank c" "blank d" and kv: "stripped k" "stripped v"
    and free: "CHR ''='' \<notin> set (k @ b)" "CHR ''#'' \<notin> set (v @ d)" and hk: "hd k \<noteq> CHR ''#''"
    using blank_no_special by auto
  define tl where "tl = (case cm of None \<Rightarrow> [] | Some t \<Rightarrow> CHR ''#'' # t)"
  define rs where "rs = rev (dropWhile isspace (rev (d @ tl)))"
  have k: "k \<noteq> []" "v \<noteq> []" using kv by (auto simp: stripped_def)
  have sv: "stripped (k @ b @ CHR ''='' # c @ v)" using kv by (simp add: stripped_def)
  have line: "item_line (Entry a k b c v d cm) = a @ (k @ b @ CHR ''='' # c @ v) @ d @ tl"
    by (simp add: tl_def)
  have whole: "trim (item_line (Entry a k b c v d cm)) = (k @ b) @ CHR ''='' # c @ v @ rs"
    unfolding line trim_left [OF pads(1) sv] rs_def by simp
  have rs: "rs = [] \<or> (\<exists>t. rs = d @ CHR ''#'' # t)"
  proof (cases cm)
    case None
    then show ?thesis using pads(4) trim_blank [of d] dropWhile_blank [of "rev d" "[]"]
      by (simp add: rs_def tl_def)
  next
    case (Some t)
    have "dropWhile isspace (rev t @ CHR ''#'' # rev d) =
        dropWhile isspace (rev t) @ CHR ''#'' # rev d"
      by (cases "\<forall>x\<in>set (rev t). isspace x") (auto simp: dropWhile_append)
    with Some show ?thesis by (simp add: rs_def tl_def)
  qed
  have idem: "rev (dropWhile isspace (rev rs)) = rs"
    by (simp add: rs_def)
  have val: "trim (c @ v @ rs) = v @ rs"
    using trim_left [OF pads(3) kv(2), of rs] idem by simp
  have key: "trim (k @ b) = k" using trim_padded [of k "[]" b] kv pads by (simp add: blank_def)
  have cut: "(case str_find (v @ rs) ''#'' 0 of None \<Rightarrow> v @ rs
      | Some p \<Rightarrow> trim (substr (v @ rs) 0 p)) = v"
    using rs
  proof
    assume "rs = []"
    then show ?thesis using free(2) find_in_prefix(2) [of "CHR ''#''" v] by simp
  next
    assume "\<exists>t. rs = d @ CHR ''#'' # t"
    then obtain t where "rs = d @ CHR ''#'' # t" by blast
    then show ?thesis
      using find_in_prefix(1) [OF free(2), of t] trim_padded [of v "[]" d] kv pads
      by (simp add: substr_def blank_def)
  qed
  define w where "w = (k @ b) @ CHR ''='' # c @ v @ rs"
  have w: "w \<noteq> []" "w ! 0 \<noteq> CHR ''#''" "str_find w ''='' 0 = Some (length (k @ b))"
    "substr w 0 (length (k @ b)) = k @ b" "drop (length (k @ b) + 1) w = c @ v @ rs"
    using find_in_prefix(1) [OF free(1), of "c @ v @ rs"] k hk
    by (simp_all add: w_def substr_def nth_append hd_conv_nth)
  show ?thesis
    unfolding parse_line_def whole [folded w_def] Let_def w(3) option.case w(4,5) key val cut
    using w k by simp
qed

lemma parse_comment: "blank a \<Longrightarrow> parse_line (item_line (Comment_line a t)) = None"
proof -
  assume "blank a"
  then have "trim (a @ CHR ''#'' # t) = CHR ''#'' # rev (dropWhile isspace (rev t))"
    using trim_left [of a "''#''" t] by (simp add: stripped_def)
  then show ?thesis by (simp add: parse_line_def)
qed

lemma parse_item: "item_ok it \<Longrightarrow> parse_line (item_line it) = item_setting it"
  by (cases it)
    (simp only: item_setting.simps parse_entry,
     simp only: item_setting.simps item_ok.simps parse_comment,
     simp add: parse_line_def trim_blank)

fun set_all :: "(string \<times> string) list \<Rightarrow> configuration \<Rightarrow> configuration outcome" where
  "set_all [] c = Ret c"
| "set_all ((k, v) # kvs) c = obind (set_config_value k v c) (set_all kvs)"

lemma load_items:
  "\<forall>it\<in>set items. item_ok it \<Longrightarrow>
   load_lines (map item_line items) c = set_all (List.map_filter item_setting items) c"
proof (induction items arbitrary: c)
  case (Cons it items)
  then have "load_lines (map item_line items) =
      set_all (List.map_filter item_setting items)" by auto
  with Cons.prems parse_item [of it] show ?case
    by (cases "item_setting it") (auto simp: load_line_def)
qed simp

lemma getlines_of_lines:
  "\<forall>l\<in>set ls. newline \<notin> set l \<Longrightarrow> getlines (concat (map (\<lambda>l. l @ [newline]) ls)) = ls"
  by (induction ls) (simp_all add: getlines_line)

text \<open>C14: a configuration file written as entries, comments and blank lines, with any padding
  and trailing comments, loads as exactly its entries applied in order to the default
  configuration, followed by the overrides from the environment.\<close>

theorem config_file_roundtrip:
  assumes "\<forall>it\<in>set items. item_ok it \<and> newline \<notin> set (item_line it)"
    and "read_file env path = Some (concat (map (\<lambda>it. item_line it @ [newline]) items))"
  shows "load env path =
    obind (set_all (List.map_filter item_setting items) configuration_default)
      (apply_env_overrides env)"
  using assms load_items [of items] getlines_of_lines [of "map item_line items"]
  by (simp add: load_def comp_def)

definition demo_items :: "config_item list" where
  "demo_items =
     [Comment_line [] '' council'', Entry [] ''rounds'' '' '' '' '' ''7'' '' '' (Some '' = many''),
      Blank_line ''  '', Entry ''  '' ''model'' [] [] ''a=b'' [] None]"

definition file_env :: "string \<Rightarrow> environment" where
  "file_env text = \<lparr>getenv = (\<lambda>_. None), read_file = (\<lambda>_. Some text), gcloud_output = None\<rparr>"

theorem config_file_roundtrip_witness:
  "load (file_env (concat (map (\<lambda>it. item_line it @ [newline]) demo_items))) ''council.conf'' =
    obind (set_all [(''rounds'', ''7''), (''model'', ''a=b'')] configuration_default)
      (apply_env_overrides (file_env (concat (map (\<lambda>it. item_line it @ [newline]) demo_items))))"
proof -
  have "\<forall>it\<in>set demo_items. item_ok it \<and> newline \<notin> set (item_line it)"
    by (simp add: demo_items_def blank_def stripped_def isspace_def newline_def)
  then show ?thesis
    using config_file_roundtrip [of demo_items "file_env (concat (map (\<lambda>it. item_line it @ [newline]) demo_items))"
        "''council.conf''"]
    by (simp add: file_env_def demo_items_def)
qed

section \<open>Malformed numbers\<close>

lemma set_int_throws: "set_int upd v c = Throw e \<longleftrightarrow> stoi v = Throw e"
  by (cases "stoi v") (auto simp: set_int_def)

lemma set_config_value_int:
  "k \<in> set int_keys \<Longrightarrow> \<exists>upd. set_config_value k v c = set_int upd v c"
  unfolding int_keys_def list.set insert_iff empty_iff
  by (elim disjE) (simp_all add: set_config_value_def, blast+)

lemma set_config_value_other:
  "k \<notin> set int_keys \<Longrightarrow> \<exists>c'. set_config_value k v c = Ret c'"
  by (simp add: int_keys_def set_config_value_def)

lemma set_config_value_throws:
  "set_config_value k v c = Throw e \<longleftrightarrow> k \<in> set int_keys \<and> stoi v = Throw e"
  using set_config_value_int [of k v c] set_config_value_other [of k v c]
  by (metis outcome.distinct(1) set_int_throws)

lemma set_config_value_total:
  "(\<exists>c'. set_config_value k v c = Ret c') \<or> (\<exists>e. set_config_value k v c = Throw e)"
proof (cases "k \<in> set int_keys")
  case True
  then obtain upd where "set_config_value k v c = set_int upd v c"
    using set_config_value_int by blast
  then show ?thesis using stoi_total [of 10 v] by (auto simp: set_int_def)
qed (use set_config_value_other in blast)

definition bad_line :: "string \<Rightarrow> bool" where
  "bad_line l \<longleftrightarrow>
     (case parse_line l of None \<Rightarrow> False
      | Some (k, v) \<Rightarrow> k \<in> set int_keys \<and> (case stoi v of Ret i \<Rightarrow> False | _ \<Rightarrow> True))"

lemma load_line_bad: "(\<exists>e. load_line l c = Throw e) \<longleftrightarrow> bad_line l"
  "(\<exists>c'. load_line l c = Ret c') \<longleftrightarrow> \<not> bad_line l"
proof -
  show "(\<exists>e. load_line l c = Throw e) \<longleftrightarrow> bad_line l"
  proof (cases "parse_line l")
    case (Some kv)
    then show ?thesis using stoi_total [of 10 "snd kv"]
      by (cases kv) (auto simp: load_line_def bad_line_def set_config_value_throws)
  qed (simp add: load_line_def bad_line_def)
  moreover have "(\<exists>c'. load_line l c = Ret c') \<or> (\<exists>e. load_line l c = Throw e)"
    using set_config_value_total by (auto simp: load_line_def split: option.splits)
  ultimately show "(\<exists>c'. load_line l c = Ret c') \<longleftrightarrow> \<not> bad_line l"
    by (metis outcome.distinct(1))
qed

lemma load_lines_bad:
  "(\<exists>e. load_lines ls c = Throw e) \<longleftrightarrow> (\<exists>l\<in>set ls. bad_line l)"
proof (induction ls arbitrary: c)
  case (Cons l ls)
  show ?case
  proof (cases "bad_line l")
    case True
    then obtain e where "load_line l c = Throw e" using load_line_bad(1) by blast
    with True show ?thesis by auto
  next
    case False
    then obtain c' where "load_line l c = Ret c'" using load_line_bad(2) by blast
    with False Cons show ?thesis by auto
  qed
qed simp

lemma apply_env_overrides_no_throw: "apply_env_overrides env c \<noteq> Throw e"
  by (auto simp: apply_env_overrides_def read_gcloud_project_def Let_def
      split: option.splits list.splits)

text \<open>loading ends in an exception exactly when the file exists and some line of it sets
  one of the integer options to a value \<open>std::stoi\<close> refuses (not a number, or outside
  \<open>int\<close>); a missing file never fails.\<close>

theorem load_throws_iff:
  "(\<exists>e. load env path = Throw e) \<longleftrightarrow>
   (\<exists>text. read_file env path = Some text \<and> (\<exists>l\<in>set (getlines text). bad_line l))"
proof (cases "read_file env path")
  case None
  then show ?thesis by (simp add: load_def apply_env_overrides_no_throw)
next
  case (Some s)
  have "(\<exists>e. load env path = Throw e) \<longleftrightarrow>
      (\<exists>e. load_lines (getlines s) configuration_default = Throw e)"
    using Some apply_env_overrides_no_throw
    by (cases "load_lines (getlines s) configuration_default") (auto simp: load_def)
  with Some show ?thesis by (simp add: load_lines_bad)
qed

section \<open>Overrides\<close>

definition first_nonempty :: "string list \<Rightarrow> string" where
  "first_nonempty xs = (case filter (\<lambda>x. x \<noteq> []) xs of [] \<Rightarrow> [] | x # _ \<Rightarrow> x)"

definition env_text :: "environment \<Rightarrow> string \<Rightarrow> string" where
  "env_text env k = (case getenv env k of None \<Rightarrow> [] | Some v \<Rightarrow> v)"

definition filled :: "environment \<Rightarrow> configuration \<Rightarrow> configuration" where
  "filled env c =
     c\<lparr>claude_api_key := first_nonempty [claude_api_key c, env_text env ''CLAUDE_API_KEY'',
          env_text env ''ANTHROPIC_API_KEY'', read_claude_cli_credentials env],
       google_agy_api_key := first_nonempty [google_agy_api_key c,
          env_text env ''GOOGLE_AGY_API_KEY'', read_gcloud_credentials env],
       google_agy_model := first_nonempty [google_agy_model c, env_text env ''GOOGLE_AGY_MODEL'']\<rparr>"

text \<open>The command printed something that is no project: a blank line or \<open>(unset)\<close>.\<close>

definition gcloud_no_project :: "environment \<Rightarrow> bool" where
  "gcloud_no_project env \<longleftrightarrow> env_text env ''GOOGLE_CLOUD_PROJECT'' = [] \<and>
     (\<exists>out buffer. gcloud_output env = Some out \<and> fgets_256 out = Some buffer \<and>
        trim buffer \<in> {[], ''(unset)''})"

lemma first_nonempty_simps:
  "first_nonempty [] = []"
  "first_nonempty (x # xs) = (if x \<noteq> [] then x else first_nonempty xs)"
  by (simp_all add: first_nonempty_def)

lemma nonempty_env_text:
  "nonempty_env env k = (if env_text env k = [] then None else Some (env_text env k))"
  by (auto simp: nonempty_env_def env_text_def split: option.splits list.splits)

lemma keys_from_env:
  "claude_key_from_env env = first_nonempty [env_text env ''CLAUDE_API_KEY'',
      env_text env ''ANTHROPIC_API_KEY'', read_claude_cli_credentials env]"
  "google_key_from_env env = first_nonempty [env_text env ''GOOGLE_AGY_API_KEY'',
      read_gcloud_credentials env]"
  by (simp_all add: claude_key_from_env_def google_key_from_env_def nonempty_env_text
      first_nonempty_simps)

lemma apply_env_overrides_filled:
  "apply_env_overrides env c =
     (if google_agy_endpoint c \<noteq> [] then Ret (filled env c)
      else omap (\<lambda>p. if p = [] then filled env c
                     else (filled env c)\<lparr>google_agy_endpoint := project_endpoint p\<rparr>)
             (read_gcloud_project env))"
proof -
  have claude: "(if claude_api_key d = [] then d\<lparr>claude_api_key := claude_key_from_env env\<rparr> else d) =
      d\<lparr>claude_api_key := first_nonempty [claude_api_key d, env_text env ''CLAUDE_API_KEY'',
          env_text env ''ANTHROPIC_API_KEY'', read_claude_cli_credentials env]\<rparr>"
    for d :: configuration by (simp add: keys_from_env first_nonempty_simps)
  have google: "(if google_agy_api_key d = []
        then d\<lparr>google_agy_api_key := google_key_from_env env\<rparr> else d) =
      d\<lparr>google_agy_api_key := first_nonempty [google_agy_api_key d,
          env_text env ''GOOGLE_AGY_API_KEY'', read_gcloud_credentials env]\<rparr>"
    for d :: configuration by (simp add: keys_from_env first_nonempty_simps)
  have model: "(case getenv env ''GOOGLE_AGY_MODEL'' of None \<Rightarrow> d
        | Some m \<Rightarrow> if google_agy_model d = [] then d\<lparr>google_agy_model := m\<rparr> else d) =
      d\<lparr>google_agy_model := first_nonempty [google_agy_model d, env_text env ''GOOGLE_AGY_MODEL'']\<rparr>"
    for d :: configuration
    by (auto simp: first_nonempty_simps env_text_def split: option.splits)
  have swap: "(if p \<noteq> [] then x else y) = (if p = [] then y else x)" for p :: string and x y :: configuration
    by simp
  show ?thesis
    unfolding apply_env_overrides_def Let_def claude google model swap filled_def
    by (simp cong: if_cong)
qed

lemma read_gcloud_project_Undef:
  "(\<exists>r. read_gcloud_project env = Undef r) \<longleftrightarrow> gcloud_no_project env"
  by (auto simp: read_gcloud_project_def gcloud_no_project_def env_text_def Let_def
      split: option.splits list.splits)

text \<open>the overrides only fill what the file left empty. Each key becomes the first
  non-empty one of its sources in the documented order, starting with the configured value;
  the endpoint, if empty, is the one of the detected project; every other option keeps its
  value. The call is undefined (a stream closed twice) exactly when the endpoint has to be
  detected and \<open>gcloud\<close> answers with no project.\<close>

theorem env_overrides_only_fill:
  "(if google_agy_endpoint c = [] \<and> gcloud_no_project env
    then \<exists>r. apply_env_overrides env c = Undef r
    else \<exists>endpoint. apply_env_overrides env c =
        Ret ((filled env c)\<lparr>google_agy_endpoint := endpoint\<rparr>) \<and>
      (if google_agy_endpoint c \<noteq> [] then endpoint = google_agy_endpoint c
       else endpoint = [] \<or>
         (\<exists>p. p \<noteq> [] \<and> read_gcloud_project env = Ret p \<and> endpoint = project_endpoint p)))"
proof (cases "google_agy_endpoint c = []")
  case False
  then show ?thesis
    by (auto simp: apply_env_overrides_filled filled_def intro!: exI [of _ "google_agy_endpoint c"])
next
  case True
  show ?thesis
  proof (cases "read_gcloud_project env")
    case (Ret p)
    then have "\<not> gcloud_no_project env"
      using read_gcloud_project_Undef [of env] by auto
    with True Ret show ?thesis
      by (cases "p = []") (auto simp: apply_env_overrides_filled filled_def
          intro: exI [of _ "[]"])
  next
    case (Undef r)
    with True show ?thesis
      using read_gcloud_project_Undef [of env] by (auto simp: apply_env_overrides_filled)
  qed (auto simp: read_gcloud_project_def Let_def split: option.splits list.splits if_splits)
qed

section \<open>Validation\<close>

lemma validate_Ret: "validate c = Ret True \<longleftrightarrow> get_validation_errors c = []"
  by (simp add: validate_def Let_def validation_error_def)

lemma error_of_types: "error_of (validate_api_type t) = [] \<longleftrightarrow> t \<in> set valid_types"
  by (simp add: validate_api_type_def)

lemma error_of_rounds: "error_of (validate_rounds r) = [] \<longleftrightarrow> 1 \<le> r \<and> r \<le> 20"
  by (auto simp: validate_rounds_def VALID_MIN_ROUNDS_def VALID_MAX_ROUNDS_def)

lemma no_validation_errors:
  "get_validation_errors c = [] \<longleftrightarrow>
   1 \<le> rounds c \<and> rounds c \<le> 20 \<and> 2 \<le> length (models c) \<and>
   (api_type c = ''ollama'' \<and> (\<forall>u\<in>set (ollama_urls c). ollama_url u) \<or>
    api_type c = ''claude'' \<and> claude_api_key c \<noteq> [] \<or>
    api_type c = ''google-agy'' \<and> google_agy_api_key c \<noteq> [])"
  by (auto simp: get_validation_errors_def error_of_types error_of_rounds valid_types_def
      validate_ollama_urls_no_error VALID_MIN_MODELS_def)

text \<open>C26: \<open>validate\<close> accepts exactly the configurations with 1 to 20 rounds, at least two
  models, and a supported provider that has what it needs: well-formed URLs for Ollama, a
  key for Claude or Google. On all others it throws \<open>ConfigValidationError\<close>.\<close>

theorem config_valid_iff:
  "(if 1 \<le> rounds c \<and> rounds c \<le> 20 \<and> 2 \<le> length (models c) \<and>
      (api_type c = ''ollama'' \<and> list_all ollama_url (ollama_urls c) \<or>
       api_type c = ''claude'' \<and> claude_api_key c \<noteq> [] \<or>
       api_type c = ''google-agy'' \<and> google_agy_api_key c \<noteq> [])
    then validate c = Ret True
    else \<exists>msg. validate c = Throw (Exn Config_validation_error msg))"
  (is "if ?P then _ else _")
proof -
  have "?P \<longleftrightarrow> get_validation_errors c = []"
    by (simp only: no_validation_errors list_all_iff)
  moreover have "\<exists>msg. validate c = Throw (Exn Config_validation_error msg)"
    if "get_validation_errors c \<noteq> []"
    using that by (simp add: validate_def Let_def validation_error_def)
  ultimately show ?thesis
    by (cases ?P) (simp_all only: if_True if_False validate_Ret simp_thms)
qed

lemma localhost_url: "ollama_url ''http://localhost:11434''"
  unfolding ollama_url_matches_iff [symmetric]
  by (simp add: ollama_url_matches_def after_scheme_def host_char_def is_digit_def)

text \<open>\<open>apply_defaults\<close> changes only options that are unset, so applying it twice is
  applying it once; and it logs no error exactly when what was set is acceptable, in
  particular for a configuration in which nothing was set.\<close>

theorem apply_defaults_complete:
  "snd (apply_defaults (snd (apply_defaults c))) = snd (apply_defaults c) \<and>
   (fst (apply_defaults c) = [] \<longleftrightarrow>
     0 \<le> rounds c \<and> rounds c \<le> 20 \<and> length (models c) \<noteq> 1 \<and>
     ((api_type c = [] \<or> api_type c = ''ollama'') \<and> list_all ollama_url (ollama_urls c) \<or>
      api_type c = ''claude'' \<and> claude_api_key c \<noteq> [] \<or>
      api_type c = ''google-agy'' \<and> google_agy_api_key c \<noteq> [])) \<and>
   fst (apply_defaults configuration_default) = []"
proof -
  have idem: "snd (apply_defaults (snd (apply_defaults c))) = snd (apply_defaults c)"
    by (simp add: apply_defaults_def fill_defaults_def Let_def default_models_def
        default_claude_model_def)
  have log: "fst (apply_defaults d) = [] \<longleftrightarrow> get_validation_errors (fill_defaults d) = []" for d
    by (auto simp: apply_defaults_def Let_def validate_def validation_error_def)
  have "length (models c) \<noteq> 1 \<longleftrightarrow> 2 \<le> length (models (fill_defaults c))"
    by (cases "models c") (auto simp: fill_defaults_def default_models_def Suc_le_eq)
  moreover have "0 \<le> rounds c \<and> rounds c \<le> 20 \<longleftrightarrow>
      1 \<le> rounds (fill_defaults c) \<and> rounds (fill_defaults c) \<le> 20"
    by (auto simp: fill_defaults_def)
  moreover have "(\<forall>u\<in>set (ollama_urls (fill_defaults c)). ollama_url u) \<longleftrightarrow>
      list_all ollama_url (ollama_urls c)"
    using localhost_url by (auto simp: fill_defaults_def list_all_iff)
  ultimately have l: "fst (apply_defaults c) = [] \<longleftrightarrow>
     0 \<le> rounds c \<and> rounds c \<le> 20 \<and> length (models c) \<noteq> 1 \<and>
     ((api_type c = [] \<or> api_type c = ''ollama'') \<and> list_all ollama_url (ollama_urls c) \<or>
      api_type c = ''claude'' \<and> claude_api_key c \<noteq> [] \<or>
      api_type c = ''google-agy'' \<and> google_agy_api_key c \<noteq> [])"
    unfolding log no_validation_errors by (auto simp: fill_defaults_def)
  have "fst (apply_defaults configuration_default) = []"
    unfolding log no_validation_errors using localhost_url
    by (simp add: fill_defaults_def configuration_default_def default_models_def)
  with idem l show ?thesis by blast
qed

end
