(* ===== verification/Query_Classifier.thy ===== *)
theory Query_Classifier
  imports Core_Types Cpp_Numbers Ordered_Map
begin

text \<open>
  \<open>ui/QueryClassifier.h\<close> and \<open>ui/QueryClassifier.cpp\<close>: keyword scores, the choice of the
  query type, the roles, prompts and the explanation. Scores and the confidence are \<open>float\<close>
  in the source; a score is a multiple of 0.5 of at most 19.5, which \<open>float\<close> represents
  exactly, so they are rationals here.
\<close>

record keyword_set =
  kw_type :: query_type
  kw_words :: "string list"
  kw_weight :: rat

definition keyword_sets :: "keyword_set list" where
  "keyword_sets =
     [\<lparr>kw_type = Security_audit,
       kw_words = [''security'', ''vulnerability'', ''exploit'', ''attack'', ''breach'', ''unsafe'',
         ''injection'', ''xss'', ''csrf'', ''overflow'', ''buffer'', ''leak'', ''risk''],
       kw_weight = 3 / 2\<rparr>,
      \<lparr>kw_type = Performance_query,
       kw_words = [''performance'', ''speed'', ''fast'', ''slow'', ''optimize'', ''efficient'',
         ''latency'', ''throughput'', ''memory'', ''cpu'', ''bottleneck'', ''profile''],
       kw_weight = 3 / 2\<rparr>,
      \<lparr>kw_type = Correctness_query,
       kw_words = [''correct'', ''logic'', ''bug'', ''error'', ''logic'', ''edge case'', ''spec'',
         ''specification'', ''invariant'', ''precondition'', ''postcondition''],
       kw_weight = 3 / 2\<rparr>,
      \<lparr>kw_type = Style_query,
       kw_words = [''style'', ''readable'', ''maintainable'', ''clean'', ''refactor'',
         ''naming'', ''convention'', ''pattern'', ''structure'', ''design''],
       kw_weight = 3 / 2\<rparr>,
      \<lparr>kw_type = Code_review,
       kw_words = [''review'', ''analyze'', ''check'', ''assess'', ''evaluate'', ''quality''],
       kw_weight = 1\<rparr>]"

record query_classification =
  primary_type :: query_type
  relevant_roles :: "analyst_role list"
  classified_as :: string
  confidence :: rat
  analysis :: string

definition contains_keyword :: "string \<Rightarrow> string \<Rightarrow> bool" where
  "contains_keyword txt kw = (str_find (lowercase txt) (lowercase kw) 0 \<noteq> None)"

definition score_query_for_type :: "string \<Rightarrow> query_type \<Rightarrow> rat" where
  "score_query_for_type query t =
     foldl (\<lambda>score s.
         if kw_type s \<noteq> t then score
         else foldl (\<lambda>score kw. if contains_keyword query kw then score + kw_weight s else score)
                score (kw_words s))
       0 keyword_sets"

fun get_roles_for_type :: "query_type \<Rightarrow> analyst_role list" where
  "get_roles_for_type Security_audit = [Security, Correctness]"
| "get_roles_for_type Performance_query = [Performance, Correctness]"
| "get_roles_for_type Correctness_query = [Correctness, Performance]"
| "get_roles_for_type Style_query = [Style, Correctness]"
| "get_roles_for_type _ = [Security, Performance, Correctness, Style]"

fun type_label :: "query_type \<Rightarrow> string" where
  "type_label Security_audit = ''Security Audit''"
| "type_label Performance_query = ''Performance Analysis''"
| "type_label Correctness_query = ''Correctness Verification''"
| "type_label Style_query = ''Style & Maintainability''"
| "type_label _ = ''Code Review''"

fun get_system_prompt_for_type :: "query_type \<Rightarrow> string" where
  "get_system_prompt_for_type Security_audit =
     ''You are analyzing code for security vulnerabilities. Look for: '' @
     ''buffer overflows, SQL injection, XSS, authentication/authorization flaws, '' @
     ''unsafe memory operations, and other security risks.''"
| "get_system_prompt_for_type Performance_query =
     ''You are analyzing code for performance and efficiency. Look for: '' @
     ''inefficient algorithms, unnecessary allocations, cache misses, '' @
     ''locking contention, and optimization opportunities.''"
| "get_system_prompt_for_type Correctness_query =
     ''You are analyzing code for correctness. Look for: '' @
     ''logic errors, edge cases not handled, violations of specifications, '' @
     ''incorrect invariants, and flawed algorithms.''"
| "get_system_prompt_for_type Style_query =
     ''You are analyzing code for style and maintainability. Look for: '' @
     ''naming consistency, code organization, clarity, adherence to patterns, '' @
     ''and opportunities to improve readability.''"
| "get_system_prompt_for_type _ =
     ''You are performing a general code review. Analyze the code for quality, '' @
     ''correctness, security, performance, and maintainability issues.''"

definition best_type :: "string \<Rightarrow> query_type \<times> rat" where
  "best_type query =
     select_best Code_review 0
       (map (\<lambda>s. (kw_type s, score_query_for_type query (kw_type s))) keyword_sets)"

definition classify :: "string \<Rightarrow> query_classification" where
  "classify query =
     (let (t, max_score) = best_type query;
          roles = get_roles_for_type t;
          conf = min 1 (max_score / 10)
      in \<lparr>primary_type = t, relevant_roles = roles, classified_as = type_label t,
          confidence = conf,
          analysis = ''Query classified as '' @ type_label t @ '' (confidence: '' @
            show_int \<lfloor>conf * 100\<rfloor> @ ''%). '' @ show_nat (length roles) @
            '' analysts will focus on this type.''\<rparr>)"

section \<open>Scores\<close>

text \<open>What the nested loops compute: the weight of a type times its occurring kw_words.\<close>

definition occurring :: "string \<Rightarrow> string list \<Rightarrow> nat" where
  "occurring query kws = length (filter (contains_keyword query) kws)"

lemma foldl_score:
  "foldl (\<lambda>score kw. if contains_keyword q kw then score + w else score) a kws =
   a + of_nat (occurring q kws) * (w :: rat)"
  by (induction kws arbitrary: a) (auto simp: occurring_def algebra_simps)

lemma score_of_set:
  "s \<in> set keyword_sets \<Longrightarrow>
   score_query_for_type q (kw_type s) = of_nat (occurring q (kw_words s)) * kw_weight s"
  unfolding score_query_for_type_def foldl_score
  by (auto simp: keyword_sets_def)

lemma score_nonneg: "0 \<le> score_query_for_type q (kw_type s)" if "s \<in> set keyword_sets" for s
  using that by (auto simp: score_of_set) (auto simp: keyword_sets_def)

lemma score_zero_iff:
  assumes "s \<in> set keyword_sets"
  shows "score_query_for_type q (kw_type s) = 0 \<longleftrightarrow>
    (\<forall>kw\<in>set (kw_words s). \<not> contains_keyword q kw)"
proof -
  have "kw_weight s \<noteq> 0" using assms by (auto simp: keyword_sets_def)
  then show ?thesis
    by (auto simp: score_of_set [OF assms] occurring_def filter_empty_conv)
qed

lemma contains_keyword_iff:
  "contains_keyword txt kw \<longleftrightarrow> sublist (lowercase kw) (lowercase txt)"
  by (simp add: contains_keyword_def str_find_0 find_sub_None_iff)

lemma best_type_cases:
  "(\<forall>s\<in>set keyword_sets. \<forall>kw\<in>set (kw_words s). \<not> contains_keyword q kw) \<and>
     best_type q = (Code_review, 0) \<or>
   (\<exists>i < length keyword_sets.
     best_type q = (kw_type (keyword_sets ! i), score_query_for_type q (kw_type (keyword_sets ! i))) \<and>
     0 < snd (best_type q) \<and>
     (\<forall>j < length keyword_sets.
        score_query_for_type q (kw_type (keyword_sets ! j)) \<le> snd (best_type q) \<and>
        (j < i \<longrightarrow> score_query_for_type q (kw_type (keyword_sets ! j)) < snd (best_type q))))"
proof -
  let ?f = "\<lambda>s. (kw_type s, score_query_for_type q (kw_type s))"
  let ?xs = "map ?f keyword_sets"
  consider
    (none) "best_type q = (Code_review, 0)" "\<forall>(i, s)\<in>set ?xs. s \<le> 0"
  | (some) ys i s zs where "?xs = ys @ (i, s) # zs" "best_type q = (i, s)" "0 < s"
      "\<forall>(j, t)\<in>set ys. t < s" "\<forall>(j, t)\<in>set zs. t \<le> s"
    using select_best_cases [of Code_review 0 ?xs] unfolding best_type_def [symmetric]
    by blast
  then show ?thesis
  proof cases
    case none
    have "\<not> contains_keyword q kw" if "s \<in> set keyword_sets" "kw \<in> set (kw_words s)" for s kw
      using none(2) score_nonneg [OF that(1), of q] score_zero_iff [OF that(1), of q] that by force
    with none(1) show ?thesis by blast
  next
    case some
    have len: "length keyword_sets = length ys + Suc (length zs)"
      using arg_cong [OF some(1), of length] by simp
    have nth: "?f (keyword_sets ! j) = (ys @ (i, s) # zs) ! j" if "j < length keyword_sets" for j
      using that some(1) by (metis (no_types, lifting) nth_map)
    have best: "best_type q = ?f (keyword_sets ! length ys)"
      using nth [of "length ys"] len some(2) by auto
    have bound: "snd (?f (keyword_sets ! j)) \<le> s \<and> (j < length ys \<longrightarrow> snd (?f (keyword_sets ! j)) < s)"
      if "j < length keyword_sets" for j
    proof -
      consider "j < length ys" | "j = length ys" | "length ys < j" by linarith
      then show ?thesis
      proof cases
        case 1
        then have "?f (keyword_sets ! j) \<in> set ys" using nth [OF that] by (simp add: nth_append)
        with some(4) 1 show ?thesis by (auto intro: less_imp_le)
      next
        case 2
        then show ?thesis using nth [OF that] by auto
      next
        case 3
        then obtain k where k: "j = length ys + Suc k" using less_imp_Suc_add by auto
        then have "?f (keyword_sets ! j) \<in> set zs"
          using nth [OF that] that len by (simp add: nth_append)
        with some(5) 3 show ?thesis by auto
      qed
    qed
    have "length ys < length keyword_sets" using len by simp
    moreover have "snd (best_type q) = s" using some(2) by simp
    ultimately show ?thesis
      using best bound some(3)
      by (intro disjI2 exI [of _ "length ys"]) (simp del: length_0_conv)
  qed
qed

text \<open>C35: the classifier picks the type whose occurring kw_words weigh most, the first one
  listed among equals; a query that contains no keyword falls back to a general review with
  confidence 0. The confidence is a tenth of that weight, cut at 1, and the roles and the
  label are those of the chosen type.\<close>

theorem classify_best_type:
  "(if \<exists>s\<in>set keyword_sets. \<exists>kw\<in>set (kw_words s). sublist (lowercase kw) (lowercase q)
    then \<exists>i < length keyword_sets. primary_type (classify q) = kw_type (keyword_sets ! i) \<and>
      0 < confidence (classify q) \<and> confidence (classify q) \<le> 1 \<and>
      confidence (classify q) =
        min 1 (of_nat (occurring q (kw_words (keyword_sets ! i))) * kw_weight (keyword_sets ! i) / 10) \<and>
      (\<forall>j. length keyword_sets \<le> j \<or>
        (let w = (\<lambda>n. of_nat (occurring q (kw_words (keyword_sets ! n))) * kw_weight (keyword_sets ! n))
         in w j < w i \<or> w j = w i \<and> i \<le> j))
    else primary_type (classify q) = Code_review \<and> confidence (classify q) = 0) \<and>
   relevant_roles (classify q) = get_roles_for_type (primary_type (classify q)) \<and>
   classified_as (classify q) = type_label (primary_type (classify q))"
  (is "(if ?P then ?A else ?B) \<and> ?C")
proof -
  have c: "primary_type (classify q) = fst (best_type q)"
    "confidence (classify q) = min 1 (snd (best_type q) / 10)" ?C
    by (simp_all add: classify_def Let_def split: prod.splits)
  have w: "score_query_for_type q (kw_type (keyword_sets ! j)) =
      of_nat (occurring q (kw_words (keyword_sets ! j))) * kw_weight (keyword_sets ! j)"
    if "j < length keyword_sets" for j
    using score_of_set [OF nth_mem [OF that]] .
  have P: "?P \<longleftrightarrow> (\<exists>s\<in>set keyword_sets. \<exists>kw\<in>set (kw_words s). contains_keyword q kw)"
    by (simp add: contains_keyword_iff)
  from best_type_cases [of q] have "(if ?P then ?A else ?B)"
  proof
    assume "(\<forall>s\<in>set keyword_sets. \<forall>kw\<in>set (kw_words s). \<not> contains_keyword q kw) \<and>
      best_type q = (Code_review, 0)"
    with P c show ?thesis by simp
  next
    assume "\<exists>i < length keyword_sets.
     best_type q = (kw_type (keyword_sets ! i), score_query_for_type q (kw_type (keyword_sets ! i))) \<and>
     0 < snd (best_type q) \<and>
     (\<forall>j < length keyword_sets.
        score_query_for_type q (kw_type (keyword_sets ! j)) \<le> snd (best_type q) \<and>
        (j < i \<longrightarrow> score_query_for_type q (kw_type (keyword_sets ! j)) < snd (best_type q)))"
    then obtain i where i: "i < length keyword_sets" "fst (best_type q) = kw_type (keyword_sets ! i)"
      "snd (best_type q) = score_query_for_type q (kw_type (keyword_sets ! i))"
      "0 < snd (best_type q)"
      and m: "\<And>j. j < length keyword_sets \<Longrightarrow>
        score_query_for_type q (kw_type (keyword_sets ! j)) \<le> snd (best_type q) \<and>
        (j < i \<longrightarrow> score_query_for_type q (kw_type (keyword_sets ! j)) < snd (best_type q))"
      by (metis fst_conv snd_conv)
    from i have "?P" unfolding P using score_zero_iff [OF nth_mem [OF i(1)], of q]
      nth_mem [OF i(1)] by (metis less_irrefl)
    moreover have "?A"
      using i m c w [OF i(1)] w
      by (intro exI [of _ i]) (force simp: Let_def not_le)
    ultimately show ?thesis by (simp only: if_True)
  qed
  with c(3) show ?thesis by blast
qed

text \<open>classification ignores the case of the query.\<close>

theorem classify_ignores_case:
  "classify (lowercase q) = classify q"
proof -
  have "contains_keyword (lowercase q) = contains_keyword q"
    by (rule ext) (simp add: contains_keyword_def)
  then have "best_type (lowercase q) = best_type q"
    by (simp only: best_type_def score_query_for_type_def)
  then show ?thesis by (simp only: classify_def)
qed

end
