(* ===== verification/Resilience.thy ===== *)
theory Resilience
  imports Cpp_Numbers Logging
begin

text \<open>
  \<open>util/Resilience.h\<close> and \<open>util/Resilience.cpp\<close>: retries with exponential backoff, the circuit
  breaker and the timeout guard. The function a retry or a breaker runs is a parameter that
  works on a state of its own and returns or throws; the jitter is a parameter (the draws of
  \<open>uniform_int_distribution(0, 100)\<close>), the clock readings are arguments in nanoseconds. The
  backoff multiplier is a \<open>double\<close> in the source and a rational here; with the multipliers of
  the presets (2 and 3/2) the products are exact in both.
\<close>

section \<open>Retries\<close>

record retry_policy =
  max_attempts :: int
  initial_delay_ms :: int
  max_delay_ms :: int
  backoff_multiplier :: rat
  jitter_enabled :: bool

definition retry_policy_default :: retry_policy where
  "retry_policy_default = \<lparr>max_attempts = 3, initial_delay_ms = 100, max_delay_ms = 5000,
     backoff_multiplier = 2, jitter_enabled = True\<rparr>"

definition aggressive :: retry_policy where
  "aggressive = \<lparr>max_attempts = 5, initial_delay_ms = 50, max_delay_ms = 2000,
     backoff_multiplier = 2, jitter_enabled = True\<rparr>"

definition moderate :: retry_policy where
  "moderate = \<lparr>max_attempts = 3, initial_delay_ms = 100, max_delay_ms = 5000,
     backoff_multiplier = 2, jitter_enabled = True\<rparr>"

definition conservative :: retry_policy where
  "conservative = \<lparr>max_attempts = 2, initial_delay_ms = 500, max_delay_ms = 10000,
     backoff_multiplier = 3 / 2, jitter_enabled = False\<rparr>"

record 's retry_state =
  rt_world :: 's
  rt_delay :: int
  rt_msg :: "string option"
  rt_waits :: "int list"
  rt_log :: "(log_level \<times> string) list"

text \<open>\<open>static_cast<int>\<close> of a floating-point value: truncation, undefined outside \<open>int\<close>.\<close>

definition trunc_int :: "rat \<Rightarrow> int outcome" where
  "trunc_int x = checked_int (if x < 0 then \<lceil>x\<rceil> else \<lfloor>x\<rfloor>)"

definition actual_delay :: "retry_policy \<Rightarrow> int \<Rightarrow> int \<Rightarrow> int outcome" where
  "actual_delay pol jitter delay =
     omap (\<lambda>d. if d > max_delay_ms pol then max_delay_ms pol else d)
       (if jitter_enabled pol
        then omap (\<lambda>p. cdiv p 100) (checked_int (delay * (100 + jitter)))
        else Ret delay)"

definition retry_text :: "int \<Rightarrow> int \<Rightarrow> int \<Rightarrow> string" where
  "retry_text attempt limit d =
     ''Retry attempt '' @ show_int attempt @ ''/'' @ show_int limit @ '' - waiting '' @
     show_int d @ ''ms''"

text \<open>What follows a failed attempt: the wait and the next delay, unless it was the last one.\<close>

definition back_off ::
  "retry_policy \<Rightarrow> (int \<Rightarrow> int) \<Rightarrow> int \<Rightarrow> 's retry_state \<Rightarrow> 's retry_state outcome" where
  "back_off pol jitter attempt st =
     (if attempt < max_attempts pol
      then obind (actual_delay pol (jitter attempt) (rt_delay st)) (\<lambda>d.
           omap (\<lambda>next. st\<lparr>rt_delay := next, rt_waits := rt_waits st @ [d],
                   rt_log := rt_log st @ [(Debug, retry_text attempt (max_attempts pol) d)]\<rparr>)
             (trunc_int (of_int (rt_delay st) * backoff_multiplier pol)))
      else Ret st)"

definition run_attempt ::
  "('s \<Rightarrow> (exn + bool) \<times> 's) \<Rightarrow> 's retry_state \<Rightarrow> bool \<times> 's retry_state" where
  "run_attempt fn st =
     (case fn (rt_world st) of
        (Inr b, w) \<Rightarrow> (b, st\<lparr>rt_world := w\<rparr>)
      | (Inl e, w) \<Rightarrow> (False, st\<lparr>rt_world := w, rt_msg := map_option (\<lambda>_. what e) (rt_msg st)\<rparr>))"

function retry_loop ::
  "('s \<Rightarrow> (exn + bool) \<times> 's) \<Rightarrow> retry_policy \<Rightarrow> (int \<Rightarrow> int) \<Rightarrow> int \<Rightarrow> 's retry_state \<Rightarrow>
   (bool \<times> 's retry_state) outcome" where
  "retry_loop fn pol jitter attempt st =
     (if attempt \<le> max_attempts pol
      then (let (ok, st1) = run_attempt fn st
            in if ok then Ret (True, st1)
               else obind (back_off pol jitter attempt st1)
                      (retry_loop fn pol jitter (attempt + 1)))
      else Ret (False, st\<lparr>rt_msg := map_option (\<lambda>m. if m = []
                then ''All '' @ show_int (max_attempts pol) @ '' retry attempts exhausted''
                else m) (rt_msg st)\<rparr>))"
  by pat_completeness auto
termination
  by (relation "measure (\<lambda>(fn, pol, jitter, attempt, st). nat (max_attempts pol + 1 - attempt))") auto

declare retry_loop.simps [simp del]

definition retryable ::
  "('s \<Rightarrow> (exn + bool) \<times> 's) \<Rightarrow> retry_policy \<Rightarrow> (int \<Rightarrow> int) \<Rightarrow> string option \<Rightarrow> 's \<Rightarrow>
   (bool \<times> 's retry_state) outcome" where
  "retryable fn pol jitter msg w =
     retry_loop fn pol jitter 1
       \<lparr>rt_world = w, rt_delay = initial_delay_ms pol, rt_msg = msg, rt_waits = [], rt_log = []\<rparr>"

section \<open>Circuit breaker\<close>

datatype breaker_state = Closed | Open | Half_open

record circuit_breaker =
  failure_threshold :: int
  recovery_timeout_ms :: int
  success_threshold :: int
  cb_state :: breaker_state
  failure_count :: int
  cb_success_count :: int
  last_failure_time :: int
  cb_log :: "(log_level \<times> string) list"

definition new_breaker :: "int \<Rightarrow> int \<Rightarrow> int \<Rightarrow> circuit_breaker" where
  "new_breaker f r s =
     \<lparr>failure_threshold = f, recovery_timeout_ms = r, success_threshold = s, cb_state = Closed,
      failure_count = 0, cb_success_count = 0, last_failure_time = 0, cb_log = []\<rparr>"

text \<open>\<open>duration_cast<milliseconds>\<close> of a difference of two readings in nanoseconds.\<close>

definition elapsed_between :: "int \<Rightarrow> int \<Rightarrow> int" where
  "elapsed_between start now = cdiv (now - start) 1000000"

definition breaker_log :: "log_level \<Rightarrow> string \<Rightarrow> circuit_breaker \<Rightarrow> circuit_breaker" where
  "breaker_log l m cb = cb\<lparr>cb_log := cb_log cb @ [(l, m)]\<rparr>"

definition is_open :: "int \<Rightarrow> circuit_breaker \<Rightarrow> bool \<times> circuit_breaker" where
  "is_open now cb =
     (if cb_state cb = Open
      then if elapsed_between (last_failure_time cb) now \<ge> recovery_timeout_ms cb
           then (False, breaker_log Info ''Circuit breaker transitioning to half-open''
                   (cb\<lparr>cb_state := Half_open, cb_success_count := 0\<rparr>))
           else (True, cb)
      else (False, cb))"

fun get_state :: "breaker_state \<Rightarrow> string" where
  "get_state Closed = ''closed''"
| "get_state Open = ''open''"
| "get_state Half_open = ''half-open''"

definition reset :: "circuit_breaker \<Rightarrow> circuit_breaker" where
  "reset cb = breaker_log Info ''Circuit breaker reset to closed''
     (cb\<lparr>cb_state := Closed, failure_count := 0, cb_success_count := 0\<rparr>)"

definition record_success :: "circuit_breaker \<Rightarrow> circuit_breaker" where
  "record_success cb =
     (case cb_state cb of
        Half_open \<Rightarrow>
          (let cb1 = cb\<lparr>cb_success_count := cb_success_count cb + 1\<rparr>
           in if cb_success_count cb1 \<ge> success_threshold cb1
              then breaker_log Info ''Circuit breaker closed after successful recovery''
                     (cb1\<lparr>cb_state := Closed, failure_count := 0\<rparr>)
              else cb1)
      | Closed \<Rightarrow> cb\<lparr>failure_count := 0\<rparr>
      | Open \<Rightarrow> cb)"

definition record_failure :: "int \<Rightarrow> string \<Rightarrow> circuit_breaker \<Rightarrow> circuit_breaker" where
  "record_failure now err cb =
     (case cb_state cb of
        Half_open \<Rightarrow>
          breaker_log Warning (''Circuit breaker reopened after failure: '' @ err)
            (cb\<lparr>cb_state := Open, last_failure_time := now\<rparr>)
      | Closed \<Rightarrow>
          (let cb1 = cb\<lparr>failure_count := failure_count cb + 1\<rparr>
           in if failure_count cb1 \<ge> failure_threshold cb1
              then breaker_log Error (''Circuit breaker opened after '' @
                       show_int (failure_count cb1) @ '' failures: '' @ err)
                     (cb1\<lparr>cb_state := Open, last_failure_time := now\<rparr>)
              else cb1)
      | Open \<Rightarrow> cb)"

text \<open>
  \<open>call(fn)\<close>: \<open>now\<close> is the reading of \<open>is_open\<close>, \<open>later\<close> that of \<open>record_failure\<close>; \<open>fn\<close>
  returns normally (\<open>None\<close>) or throws.
\<close>

definition breaker_call ::
  "('s \<Rightarrow> exn option \<times> 's) \<Rightarrow> int \<Rightarrow> int \<Rightarrow> circuit_breaker \<times> 's \<Rightarrow>
   unit outcome \<times> circuit_breaker \<times> 's" where
  "breaker_call fn now later cw =
     (case is_open now (fst cw) of
        (True, cb) \<Rightarrow>
          (Throw (Exn Runtime_error ''Circuit breaker is open: service unavailable''), cb, snd cw)
      | (False, cb) \<Rightarrow>
          (case fn (snd cw) of
             (None, w) \<Rightarrow> (Ret (), record_success cb, w)
           | (Some e, w) \<Rightarrow> (Throw e, record_failure later (what e) cb, w)))"

section \<open>Timeout guard\<close>

record timeout_guard =
  timeout_ms :: int
  guard_name :: string
  start_time :: int

definition new_guard :: "int \<Rightarrow> string \<Rightarrow> int \<Rightarrow> timeout_guard" where
  "new_guard t n now = \<lparr>timeout_ms = t, guard_name = n, start_time = now\<rparr>"

definition elapsed_ms :: "int \<Rightarrow> timeout_guard \<Rightarrow> int" where
  "elapsed_ms now g = elapsed_between (start_time g) now"

definition guard_check :: "int \<Rightarrow> timeout_guard \<Rightarrow> unit outcome" where
  "guard_check now g =
     (if elapsed_ms now g > timeout_ms g
      then Throw (Exn Runtime_error (guard_name g @ '' exceeded timeout of '' @
             show_int (timeout_ms g) @ ''ms''))
      else Ret ())"

definition remaining_ms :: "int \<Rightarrow> timeout_guard \<Rightarrow> int" where
  "remaining_ms now g = max 0 (timeout_ms g - elapsed_ms now g)"

lemma guard_expired_no_time_left: "guard_check now g \<noteq> Ret () \<Longrightarrow> remaining_ms now g = 0"
  by (auto simp: guard_check_def remaining_ms_def split: if_splits)

section \<open>Successive calls of the retried function\<close>

definition world_after :: "('s \<Rightarrow> (exn + bool) \<times> 's) \<Rightarrow> 's \<Rightarrow> nat \<Rightarrow> 's" where
  "world_after fn w k = ((snd \<circ> fn) ^^ k) w"

definition attempt_succeeds :: "('s \<Rightarrow> (exn + bool) \<times> 's) \<Rightarrow> 's \<Rightarrow> nat \<Rightarrow> bool" where
  "attempt_succeeds fn w k \<longleftrightarrow> fst (fn (world_after fn w k)) = Inr True"

lemma world_after_simps [simp]:
  "world_after fn w 0 = w"
  "world_after fn w (Suc k) = world_after fn (snd (fn w)) k"
  by (simp_all add: world_after_def funpow_Suc_right del: funpow.simps)

lemma attempt_succeeds_Suc [simp]:
  "attempt_succeeds fn w (Suc k) = attempt_succeeds fn (snd (fn w)) k"
  by (simp add: attempt_succeeds_def)

lemma run_attempt_simps:
  "fst (run_attempt fn st) = attempt_succeeds fn (rt_world st) 0"
  "rt_world (snd (run_attempt fn st)) = snd (fn (rt_world st))"
  "rt_delay (snd (run_attempt fn st)) = rt_delay st"
  "rt_waits (snd (run_attempt fn st)) = rt_waits st"
  by (auto simp: run_attempt_def attempt_succeeds_def split: prod.splits sum.splits bool.splits)

text \<open>A policy whose delays stay inside \<open>int\<close> for all its attempts.\<close>

definition policy_safe :: "retry_policy \<Rightarrow> bool" where
  "policy_safe pol \<longleftrightarrow> 0 \<le> initial_delay_ms pol \<and> 0 \<le> max_delay_ms pol \<and>
     1 \<le> backoff_multiplier pol \<and>
     of_int (initial_delay_ms pol) * backoff_multiplier pol ^ nat (max_attempts pol) * 200
       \<le> (of_int INT_MAX :: rat)"

lemma presets_safe: "policy_safe aggressive" "policy_safe moderate" "policy_safe conservative"
  by (simp_all add: policy_safe_def aggressive_def moderate_def conservative_def INT_MAX_def
      power_numeral_reduce eval_nat_numeral)

lemma actual_delay_safe:
  assumes "0 \<le> d" and "d * 200 \<le> INT_MAX" and "0 \<le> j" and "j \<le> 100" and "0 \<le> max_delay_ms pol"
  shows "\<exists>a. actual_delay pol j d = Ret a \<and> 0 \<le> a \<and> a \<le> max_delay_ms pol"
proof -
  define p where "p = d * (100 + j)"
  have "p \<le> d * 200" using assms unfolding p_def by (intro mult_left_mono) auto
  moreover have nn: "0 \<le> p" using assms by (simp add: p_def)
  ultimately have "is_int p" using assms by (simp add: is_int_def INT_MIN_def)
  moreover have "0 \<le> cdiv p 100" using nn by (simp add: cdiv_nonneg pos_imp_zdiv_nonneg_iff)
  ultimately have "is_int (d * (100 + j))" "0 \<le> cdiv (d * (100 + j)) 100"
    by (simp_all only: p_def)
  with assms show ?thesis by (auto simp: actual_delay_def checked_int_def)
qed

lemma trunc_int_safe:
  assumes "0 \<le> x" and "x * 200 \<le> of_int INT_MAX"
  shows "\<exists>n. trunc_int x = Ret n \<and> 0 \<le> n \<and> of_int n \<le> x"
proof -
  have "of_int \<lfloor>x\<rfloor> \<le> (of_int INT_MAX :: rat)" using assms of_int_floor_le [of x] by linarith
  then have "\<lfloor>x\<rfloor> \<le> INT_MAX" by linarith
  with assms show ?thesis
    by (auto simp: trunc_int_def checked_int_def is_int_def INT_MIN_def)
qed


lemma back_off_safe:
  assumes "0 \<le> rt_delay st" and "of_int (rt_delay st) * backoff_multiplier pol * 200 \<le> of_int INT_MAX"
    and "1 \<le> backoff_multiplier pol" and "0 \<le> jitter a" and "jitter a \<le> 100"
    and "0 \<le> max_delay_ms pol" and "a < max_attempts pol"
  shows "\<exists>d st'. back_off pol jitter a st = Ret st' \<and> rt_world st' = rt_world st \<and>
    rt_waits st' = rt_waits st @ [d] \<and> 0 \<le> d \<and> d \<le> max_delay_ms pol \<and> 0 \<le> rt_delay st' \<and>
    of_int (rt_delay st') \<le> of_int (rt_delay st) * backoff_multiplier pol"
proof -
  have "of_int (rt_delay st) * 1 \<le> of_int (rt_delay st) * backoff_multiplier pol"
    using assms by (intro mult_left_mono) auto
  then have "of_int (rt_delay st * 200) \<le> (of_int INT_MAX :: rat)" using assms(2) by simp
  then have "rt_delay st * 200 \<le> INT_MAX" by (simp only: of_int_le_iff)
  then obtain d where d: "actual_delay pol (jitter a) (rt_delay st) = Ret d" "0 \<le> d"
    "d \<le> max_delay_ms pol"
    using actual_delay_safe [of "rt_delay st" "jitter a" pol] assms by blast
  obtain n where "trunc_int (of_int (rt_delay st) * backoff_multiplier pol) = Ret n" "0 \<le> n"
    "of_int n \<le> of_int (rt_delay st) * backoff_multiplier pol"
    using trunc_int_safe [of "of_int (rt_delay st) * backoff_multiplier pol"] assms by auto
  with d assms(7) show ?thesis by (auto simp: back_off_def)
qed

lemma retry_loop_safe:
  fixes st :: "'s retry_state"
  assumes jit: "\<And>i. 0 \<le> jitter i \<and> jitter i \<le> 100" and cap: "0 \<le> max_delay_ms pol"
    and mult: "1 \<le> backoff_multiplier pol"
  shows "0 \<le> rt_delay st \<Longrightarrow>
    of_int (rt_delay st) * backoff_multiplier pol ^ n * 200 \<le> of_int INT_MAX \<Longrightarrow>
    max_attempts pol = a + int n - 1 \<Longrightarrow>
    \<exists>b st' k ws. retry_loop fn pol jitter a st = Ret (b, st') \<and> k \<le> n \<and>
      rt_world st' = world_after fn (rt_world st) k \<and>
      (\<forall>i<k. attempt_succeeds fn (rt_world st) i \<longleftrightarrow> b \<and> Suc i = k) \<and>
      (b \<longrightarrow> 0 < k) \<and> (\<not> b \<longrightarrow> k = n \<and> rt_msg st' \<noteq> Some []) \<and>
      rt_waits st' = rt_waits st @ ws \<and> length ws = k - 1 \<and>
      (\<forall>w\<in>set ws. 0 \<le> w \<and> w \<le> max_delay_ms pol)"
proof (induction n arbitrary: a st)
  case 0
  then show ?case
    by (cases "rt_msg st") (auto simp: retry_loop.simps [of fn pol jitter a st])
next
  case (Suc n)
  obtain ok st1 where ra: "run_attempt fn st = (ok, st1)" by (cases "run_attempt fn st")
  note r1 = run_attempt_simps [of fn st, unfolded ra fst_conv snd_conv]
  show ?case
  proof (cases ok)
    case True
    then have "retry_loop fn pol jitter a st = Ret (True, st1)"
      using ra Suc.prems(3) by (subst retry_loop.simps) simp
    with r1 True show ?thesis
      by (intro exI [of _ True] exI [of _ st1] exI [of _ "1::nat"] exI [of _ "[]"]) auto
  next
    case False
    then have fail: "\<not> attempt_succeeds fn (rt_world st) 0" using r1 by simp
    have unf: "retry_loop fn pol jitter a st =
        obind (back_off pol jitter a st1) (retry_loop fn pol jitter (a + 1))"
      using ra False Suc.prems(3) by (subst retry_loop.simps) simp
    have pow: "of_int (rt_delay st) * backoff_multiplier pol * backoff_multiplier pol ^ n * 200
        \<le> of_int INT_MAX"
      using Suc.prems(2) by (simp add: algebra_simps)
    show ?thesis
    proof (cases n)
      case 0
      then have "back_off pol jitter a st1 = Ret st1" using Suc.prems by (simp add: back_off_def)
      moreover have "0 \<le> rt_delay st1"
        "of_int (rt_delay st1) * backoff_multiplier pol ^ n * 200 \<le> (of_int INT_MAX :: rat)"
        using Suc.prems(1) pow mult r1(3) 0
          mult_left_mono [OF mult, of "of_int (rt_delay st)"] by auto
      ultimately show ?thesis
        using Suc.IH [of st1 "a + 1"] Suc.prems(3) r1 fail 0 unf
        by (intro exI [of _ False]) (auto simp: less_Suc_eq_0_disj)
    next
      case (Suc m)
      have one: "1 \<le> backoff_multiplier pol ^ n" using mult by (simp add: one_le_power)
      have nn: "0 \<le> of_int (rt_delay st) * backoff_multiplier pol" using Suc.prems(1) mult by auto
      have small: "of_int (rt_delay st1) * backoff_multiplier pol * 200 \<le> (of_int INT_MAX :: rat)"
        using mult_left_mono [OF one nn] pow r1(3) by simp
      obtain d st2 where st2: "back_off pol jitter a st1 = Ret st2" "rt_world st2 = rt_world st1"
        "rt_waits st2 = rt_waits st1 @ [d]" "0 \<le> d" "d \<le> max_delay_ms pol" "0 \<le> rt_delay st2"
        "of_int (rt_delay st2) \<le> of_int (rt_delay st1) * backoff_multiplier pol"
        using back_off_safe [OF _ small mult, of jitter a] jit cap Suc.prems(1,3) r1(3) Suc by auto
      have "of_int (rt_delay st2) * backoff_multiplier pol ^ n * 200 \<le> (of_int INT_MAX :: rat)"
        using mult_right_mono [OF st2(7) order_trans [OF zero_le_one one]] pow
        unfolding r1(3) by linarith
      then obtain b st' k ws where ih: "retry_loop fn pol jitter (a + 1) st2 = Ret (b, st')" "k \<le> n"
        "rt_world st' = world_after fn (rt_world st2) k"
        "\<forall>i<k. attempt_succeeds fn (rt_world st2) i \<longleftrightarrow> b \<and> Suc i = k"
        "b \<longrightarrow> 0 < k" "\<not> b \<longrightarrow> k = n \<and> rt_msg st' \<noteq> Some []"
        "rt_waits st' = rt_waits st2 @ ws" "length ws = k - 1"
        "\<forall>w\<in>set ws. 0 \<le> w \<and> w \<le> max_delay_ms pol"
        using Suc.IH [of st2 "a + 1"] st2(6) Suc.prems(3) by auto
      then have "0 < k" using Suc by (cases b) auto
      have "retry_loop fn pol jitter a st = Ret (b, st')" using unf st2(1) ih(1) by simp
      then show ?thesis
        using ih(2-9) \<open>0 < k\<close> st2 r1 fail
        by (intro exI [of _ b] exI [of _ st'] exI [of _ "Suc k"] exI [of _ "d # ws"])
          (auto simp: less_Suc_eq_0_disj)
    qed
  qed
qed

end
