(* ===== verification/Resilience_Properties.thy ===== *)
theory Resilience_Properties
  imports Resilience
begin

text \<open>
  What retries and the circuit breaker guarantee: the presets never overflow and bound attempts
  and waits, the breaker opens exactly on enough consecutive failures, rejects without running
  the function while open, and closes again after enough successes.
\<close>

lemma retryable_safe:
  assumes "policy_safe pol" and "1 \<le> max_attempts pol" and "\<forall>i. 0 \<le> jitter i \<and> jitter i \<le> 100"
  shows "\<exists>b st k. retryable fn pol jitter msg w = Ret (b, st) \<and>
    k \<le> nat (max_attempts pol) \<and> rt_world st = world_after fn w k \<and>
    (\<forall>i<k. attempt_succeeds fn w i \<longleftrightarrow> b \<and> Suc i = k) \<and>
    (if b then 0 < k else k = nat (max_attempts pol) \<and> rt_msg st \<noteq> Some []) \<and>
    length (rt_waits st) = k - 1 \<and> (\<forall>d\<in>set (rt_waits st). 0 \<le> d \<and> d \<le> max_delay_ms pol)"
proof -
  define st0 where "st0 = \<lparr>rt_world = w, rt_delay = initial_delay_ms pol, rt_msg = msg,
    rt_waits = [], rt_log = []\<rparr>"
  note safe = assms(1) [unfolded policy_safe_def]
  obtain b st k ws where r: "retry_loop fn pol jitter 1 st0 = Ret (b, st)"
    "k \<le> nat (max_attempts pol)" "rt_world st = world_after fn (rt_world st0) k"
    "\<forall>i<k. attempt_succeeds fn (rt_world st0) i \<longleftrightarrow> b \<and> Suc i = k"
    "b \<longrightarrow> 0 < k" "\<not> b \<longrightarrow> k = nat (max_attempts pol) \<and> rt_msg st \<noteq> Some []"
    "rt_waits st = rt_waits st0 @ ws" "length ws = k - 1"
    "\<forall>w\<in>set ws. 0 \<le> w \<and> w \<le> max_delay_ms pol"
    using retry_loop_safe [of jitter pol st0 "nat (max_attempts pol)" 1 fn] safe assms
    unfolding st0_def by auto
  then show ?thesis
    unfolding retryable_def st0_def [symmetric]
    by (intro exI [of _ b] exI [of _ st] exI [of _ k]) (auto simp: st0_def)
qed

text \<open>C32: with the preset policies a retry always ends normally, whatever the function does: it
  calls the function once more after each failure until the first success, at most
  \<open>max_attempts\<close> times, and returns whether there was one; between the calls it waits, each
  time for at most \<open>max_delay_ms\<close>, and after a failure the error text is not empty.\<close>

theorem retry_presets_bounded:
  assumes "pol \<in> {aggressive, moderate, conservative}"
    and "\<forall>i. 0 \<le> jitter i \<and> jitter i \<le> 100"
  shows "\<exists>b st k. retryable fn pol jitter msg w = Ret (b, st) \<and>
    k \<le> nat (max_attempts pol) \<and> rt_world st = world_after fn w k \<and>
    (\<forall>i<k. attempt_succeeds fn w i \<longleftrightarrow> b \<and> Suc i = k) \<and>
    (if b then 0 < k else k = nat (max_attempts pol) \<and> rt_msg st \<noteq> Some []) \<and>
    length (rt_waits st) = k - 1 \<and> (\<forall>d\<in>set (rt_waits st). 0 \<le> d \<and> d \<le> max_delay_ms pol)"
proof -
  have "policy_safe pol" "1 \<le> max_attempts pol"
    using assms(1) presets_safe by (auto simp: aggressive_def moderate_def conservative_def)
  then show ?thesis by (rule retryable_safe [OF _ _ assms(2)])
qed

text \<open>A service that is up from its third call on; the state counts the calls.\<close>

definition third_time :: "nat \<Rightarrow> (exn + bool) \<times> nat" where
  "third_time n = (if n < 2 then Inl (Exn Runtime_error ''down'') else Inr True, n + 1)"

theorem retry_presets_bounded_witness:
  "\<exists>b st k. retryable third_time moderate (\<lambda>_. 50) (Some []) 0 = Ret (b, st) \<and> k \<le> 3 \<and>
     (\<forall>i<k. attempt_succeeds third_time 0 i \<longleftrightarrow> b \<and> Suc i = k)"
  using retry_presets_bounded [of moderate "\<lambda>_. 50" third_time "Some []" 0]
  by (auto simp: moderate_def)

section \<open>Opening\<close>

text \<open>A call: the readings of the clock in \<open>is_open\<close> and in \<open>record_failure\<close>, and whether the function
  returns or what it throws.\<close>

type_synonym timed_call = "int \<times> int \<times> exn option"

definition call_once :: "timed_call \<Rightarrow> circuit_breaker \<Rightarrow> circuit_breaker" where
  "call_once = (\<lambda>(now, later, x) cb. fst (snd (breaker_call (\<lambda>u. (x, u)) now later (cb, ()))))"

definition breaker_run :: "timed_call list \<Rightarrow> circuit_breaker \<Rightarrow> circuit_breaker" where
  "breaker_run cs cb = fold call_once cs cb"

definition failed :: "timed_call \<Rightarrow> bool" where
  "failed c \<longleftrightarrow> snd (snd c) \<noteq> None"

text \<open>\<open>n\<close> consecutive calls of a history fail; its last \<open>k\<close> calls all fail, on a closed breaker.\<close>

definition failure_streak :: "nat \<Rightarrow> timed_call list \<Rightarrow> bool" where
  "failure_streak n cs \<longleftrightarrow> (\<exists>pre suf post. cs = pre @ suf @ post \<and> length suf = n \<and> (\<forall>c\<in>set suf. failed c))"

definition failed_while_closed :: "circuit_breaker \<Rightarrow> nat \<Rightarrow> timed_call list \<Rightarrow> bool" where
  "failed_while_closed cb k cs \<longleftrightarrow>
     (\<exists>pre suf. cs = pre @ suf \<and> length suf = k \<and> (\<forall>c\<in>set suf. failed c) \<and>
        cb_state (breaker_run pre cb) = Closed)"

lemma breaker_run_snoc: "breaker_run (cs @ [c]) cb = call_once c (breaker_run cs cb)"
  by (simp add: breaker_run_def)

lemma failed_while_closed_0: "failed_while_closed cb 0 cs \<longleftrightarrow> cb_state (breaker_run cs cb) = Closed"
  by (simp add: failed_while_closed_def)

lemma failed_while_closed_snoc:
  "failed_while_closed cb (Suc k) (cs @ [c]) \<longleftrightarrow> failed c \<and> failed_while_closed cb k cs"
proof
  assume "failed_while_closed cb (Suc k) (cs @ [c])"
  then obtain pre suf where *: "cs @ [c] = pre @ suf" "length suf = Suc k" "\<forall>d\<in>set suf. failed d"
    "cb_state (breaker_run pre cb) = Closed"
    unfolding failed_while_closed_def by blast
  then obtain suf' d where "suf = suf' @ [d]" by (metis length_Suc_conv_rev)
  with * show "failed c \<and> failed_while_closed cb k cs"
    unfolding failed_while_closed_def by auto
next
  assume "failed c \<and> failed_while_closed cb k cs"
  then obtain pre suf where "cs = pre @ suf" "length suf = k" "\<forall>d\<in>set suf. failed d" "failed c"
    "cb_state (breaker_run pre cb) = Closed"
    unfolding failed_while_closed_def by blast
  then show "failed_while_closed cb (Suc k) (cs @ [c])"
    unfolding failed_while_closed_def by (intro exI [of _ pre] exI [of _ "suf @ [c]"]) auto
qed

text \<open>One call, by the state of the breaker before it.\<close>

lemma call_once_closed:
  assumes "cb_state cb = Closed"
  shows "cb_state (call_once c cb) =
      (if failed c \<and> failure_count cb + 1 \<ge> failure_threshold cb then Open else Closed)"
    and "failure_count (call_once c cb) = (if failed c then failure_count cb + 1 else 0)"
    and "cb_state (call_once (now, later, x) cb) = Open \<Longrightarrow> last_failure_time (call_once (now, later, x) cb) = later"
  using assms
  by (auto simp: call_once_def breaker_call_def is_open_def record_success_def record_failure_def
      breaker_log_def failed_def Let_def split: prod.split option.split)

lemma call_once_half_open:
  assumes "cb_state cb = Half_open"
  shows "cb_state (call_once c cb) =
      (if failed c then Open else if cb_success_count cb + 1 \<ge> success_threshold cb then Closed else Half_open)"
    and "\<not> failed c \<Longrightarrow> cb_success_count cb + 1 \<ge> success_threshold cb \<Longrightarrow> failure_count (call_once c cb) = 0"
  using assms
  by (auto simp: call_once_def breaker_call_def is_open_def record_success_def record_failure_def
      breaker_log_def failed_def Let_def split: prod.split option.split)

lemma call_once_open:
  assumes "cb_state cb = Open" and "cb_state (call_once c cb) = Closed"
  shows "\<not> failed c" and "failure_count (call_once c cb) = 0"
  using assms
  by (auto simp: call_once_def breaker_call_def is_open_def record_success_def record_failure_def
      breaker_log_def failed_def Let_def split: prod.splits option.splits if_splits)

lemma call_once_threshold: "failure_threshold (call_once c cb) = failure_threshold cb"
  by (auto simp: call_once_def breaker_call_def is_open_def record_success_def record_failure_def
      breaker_log_def Let_def split: prod.split option.split breaker_state.split)

lemma breaker_run_threshold: "failure_threshold (breaker_run cs cb) = failure_threshold cb"
  by (induction cs rule: rev_induct) (simp_all add: breaker_run_snoc call_once_threshold, simp add: breaker_run_def)

text \<open>The counter of a closed breaker counts the failures at the end of the history.\<close>

lemma closed_count:
  assumes "cb_state (breaker_run cs cb) = Closed" and "cb_state cb = Closed" and "failure_count cb = 0"
  shows "0 \<le> failure_count (breaker_run cs cb) \<and>
    (failed_while_closed cb k cs \<longleftrightarrow> int k \<le> failure_count (breaker_run cs cb))"
  using assms(1)
proof (induction cs arbitrary: k rule: rev_induct)
  case Nil
  then show ?case using assms(2,3) by (auto simp: failed_while_closed_def breaker_run_def)
next
  case (snoc c cs)
  let ?cb = "breaker_run cs cb"
  have closed: "cb_state (call_once c ?cb) = Closed" using snoc.prems by (simp add: breaker_run_snoc)
  show ?case
  proof (cases "cb_state ?cb = Closed")
    case True
    note call = call_once_closed(2) [OF True, of c] and IH = snoc.IH [OF True]
    show ?thesis
    proof (cases k)
      case 0
      then show ?thesis using IH call snoc.prems by (simp add: failed_while_closed_0 breaker_run_snoc)
    next
      case (Suc k')
      then show ?thesis using IH [of k'] call by (simp add: failed_while_closed_snoc breaker_run_snoc)
    qed
  next
    case False
    have "\<not> failed c \<and> failure_count (call_once c ?cb) = 0"
    proof (cases "cb_state ?cb")
      case Half_open
      note call = call_once_half_open [OF Half_open, of c]
      have "\<not> failed c" "cb_success_count ?cb + 1 \<ge> success_threshold ?cb"
        using call(1) closed by (metis breaker_state.distinct)+
      with call(2) show ?thesis by blast
    next
      case Open
      then show ?thesis using call_once_open [OF Open closed] by blast
    qed (use False in simp)
    then show ?thesis
      using snoc.prems
      by (cases k) (simp_all add: failed_while_closed_0 failed_while_closed_snoc breaker_run_snoc)
  qed
qed

lemma opens_iff:
  assumes "1 \<le> n" and "cb_state cb = Closed" and "failure_count cb = 0" and "failure_threshold cb = int n"
    and "cb_state (breaker_run cs cb) \<noteq> Open"
  shows "cb_state (breaker_run (cs @ [c]) cb) = Open \<longleftrightarrow>
    failed c \<and> (cb_state (breaker_run cs cb) = Half_open \<or> failed_while_closed cb (n - 1) cs)"
proof (cases "cb_state (breaker_run cs cb) = Closed")
  case True
  have "int (n - 1) \<le> x \<longleftrightarrow> int n \<le> x + 1" for x using assms(1) by auto
  then show ?thesis
    using True closed_count [OF True assms(2,3), of "n - 1"]
    by (simp add: breaker_run_snoc call_once_closed(1) breaker_run_threshold assms(4))
next
  case False
  then have "cb_state (breaker_run cs cb) = Half_open" using assms(5) by (cases "cb_state (breaker_run cs cb)") auto
  then show ?thesis by (simp add: breaker_run_snoc call_once_half_open(1))
qed

lemma streak_append: "failure_streak n pre \<Longrightarrow> failure_streak n (pre @ xs)"
  unfolding failure_streak_def
proof (elim exE conjE)
  fix p s q assume "pre = p @ s @ q" "length s = n" "\<forall>c\<in>set s. failed c"
  then show "\<exists>p s q. pre @ xs = p @ s @ q \<and> length s = n \<and> (\<forall>c\<in>set s. failed c)"
    by (intro exI [of _ p] exI [of _ s] exI [of _ "q @ xs"]) simp
qed

lemma streak_snoc:
  "failure_streak n (cs @ [c]) \<longleftrightarrow> failure_streak n cs \<or>
     (\<exists>pre suf. cs @ [c] = pre @ suf \<and> length suf = n \<and> (\<forall>d\<in>set suf. failed d))"
proof
  assume "failure_streak n (cs @ [c])"
  then obtain pre suf post where *: "cs @ [c] = pre @ suf @ post" "length suf = n" "\<forall>d\<in>set suf. failed d"
    unfolding failure_streak_def by blast
  show "failure_streak n cs \<or> (\<exists>pre suf. cs @ [c] = pre @ suf \<and> length suf = n \<and> (\<forall>d\<in>set suf. failed d))"
  proof (cases post rule: rev_cases)
    case Nil
    with * show ?thesis by (intro disjI2 exI [of _ pre] exI [of _ suf]) simp
  next
    case (snoc post' d)
    with * show ?thesis unfolding failure_streak_def
      by (intro disjI1 exI [of _ pre] exI [of _ suf] exI [of _ post']) simp
  qed
next
  assume "failure_streak n cs \<or> (\<exists>pre suf. cs @ [c] = pre @ suf \<and> length suf = n \<and> (\<forall>d\<in>set suf. failed d))"
  then show "failure_streak n (cs @ [c])"
  proof
    assume "\<exists>pre suf. cs @ [c] = pre @ suf \<and> length suf = n \<and> (\<forall>d\<in>set suf. failed d)"
    then obtain pre suf where "cs @ [c] = pre @ suf" "length suf = n" "\<forall>d\<in>set suf. failed d" by blast
    then show ?thesis unfolding failure_streak_def
      by (intro exI [of _ pre] exI [of _ suf] exI [of _ "[]"]) simp
  qed (rule streak_append)
qed

lemma closed_without_streak:
  assumes "1 \<le> n" and "cb_state cb = Closed" and "failure_count cb = 0" and "failure_threshold cb = int n"
    and "\<not> failure_streak n cs"
  shows "cb_state (breaker_run cs cb) = Closed"
  using assms(5)
proof (induction cs rule: rev_induct)
  case Nil
  then show ?case by (simp add: breaker_run_def assms(2))
next
  case (snoc c cs)
  then have closed: "cb_state (breaker_run cs cb) = Closed" by (simp add: streak_snoc)
  have "\<not> failed_while_closed cb n (cs @ [c])"
    using snoc.prems by (auto simp: streak_snoc failed_while_closed_def)
  then have "\<not> (failed c \<and> failed_while_closed cb (n - 1) cs)"
    using failed_while_closed_snoc [of cb "n - 1" cs c] assms(1) by simp
  with opens_iff [OF assms(1-4), of cs c] closed
  have "cb_state (breaker_run (cs @ [c]) cb) \<noteq> Open" by simp
  then show ?case using call_once_closed(1) [OF closed] by (simp add: breaker_run_snoc split: if_splits)
qed

text \<open>C15: when a breaker opens, for every history of calls on a new breaker and any readings of the
  clock. As long as there were no \<open>failure_threshold\<close> failures in a row it is closed; the call that
  completes the first such streak opens it, at the moment of that failure. At any later time, too, a
  breaker that is not open opens exactly on a failure that is a failure in the half-open state or the
  \<open>failure_threshold\<close>-th in a row on the closed breaker.\<close>

theorem breaker_opens_iff_streak:
  assumes "1 \<le> n" and "cb = new_breaker (int n) r s"
  shows "(\<not> failure_streak n cs \<longrightarrow> cb_state (breaker_run cs cb) = Closed) \<and>
    (\<not> failure_streak n cs \<and> failure_streak n (cs @ [(now, later, x)]) \<longrightarrow>
       cb_state (breaker_run (cs @ [(now, later, x)]) cb) = Open \<and>
       last_failure_time (breaker_run (cs @ [(now, later, x)]) cb) = later) \<and>
    (cb_state (breaker_run cs cb) \<noteq> Open \<longrightarrow>
       (cb_state (breaker_run (cs @ [(now, later, x)]) cb) = Open \<longleftrightarrow>
         x \<noteq> None \<and> (cb_state (breaker_run cs cb) = Half_open \<or> failed_while_closed cb (n - 1) cs)))"
proof -
  have new: "cb_state cb = Closed" "failure_count cb = 0" "failure_threshold cb = int n"
    by (simp_all add: assms(2) new_breaker_def)
  note opens = opens_iff [OF assms(1) new] and closed = closed_without_streak [OF assms(1) new]
  let ?c = "(now, later, x)"
  have first: "cb_state (breaker_run (cs @ [?c]) cb) = Open \<and> last_failure_time (breaker_run (cs @ [?c]) cb) = later"
    if no: "\<not> failure_streak n cs" and yes: "failure_streak n (cs @ [?c])"
  proof -
    from no yes obtain pre suf where *: "cs @ [?c] = pre @ suf" "length suf = n" "\<forall>d\<in>set suf. failed d"
      by (auto simp: streak_snoc)
    then obtain suf' where suf: "suf = suf' @ [?c]" "cs = pre @ suf'"
      using assms(1) by (cases suf rule: rev_cases) auto
    have "\<not> failure_streak n pre" using no suf(2) streak_append by blast
    then have "failed_while_closed cb (n - 1) cs"
      using * suf closed unfolding failed_while_closed_def by (intro exI [of _ pre] exI [of _ suf']) auto
    moreover have "failed ?c" using *(3) suf by simp
    ultimately have "cb_state (breaker_run (cs @ [?c]) cb) = Open"
      using opens [of cs ?c] closed [OF no] by simp
    then show ?thesis
      using call_once_closed(3) [OF closed [OF no], of now later x] by (simp add: breaker_run_snoc)
  qed
  show ?thesis using first closed opens [of cs ?c] by (auto simp: failed_def)
qed

definition flaky :: "timed_call list" where
  "flaky = [(0, 1, Some (Exn Runtime_error ''x'')), (2, 3, None), (4, 5, Some (Exn Runtime_error ''x''))]"

theorem breaker_opens_iff_streak_witness:
  "cb_state (breaker_run (flaky @ [(6, 7, Some (Exn Runtime_error ''x''))]) (new_breaker 2 30000 2)) = Open"
proof -
  have "failed_while_closed (new_breaker 2 30000 2) 1 flaky"
    unfolding failed_while_closed_def
    by (intro exI [of _ "take 2 flaky"] exI [of _ "drop 2 flaky"])
      (simp add: flaky_def failed_def breaker_run_def call_once_def breaker_call_def is_open_def
        new_breaker_def record_failure_def record_success_def Let_def)
  moreover have "cb_state (breaker_run flaky (new_breaker 2 30000 2)) = Closed"
    by (simp add: flaky_def breaker_run_def call_once_def breaker_call_def is_open_def
        new_breaker_def record_failure_def record_success_def Let_def)
  ultimately show ?thesis
    using breaker_opens_iff_streak [of 2 _ 30000 2 flaky 6 7 "Some (Exn Runtime_error ''x'')", OF _ refl]
    by simp
qed

section \<open>Rejecting and recovering\<close>

definition successes_at :: "(int \<times> int) list \<Rightarrow> circuit_breaker \<Rightarrow> circuit_breaker" where
  "successes_at ts cb =
     fold (\<lambda>(now, later) cb. fst (snd (breaker_call (\<lambda>u. (None, u)) now later (cb, ())))) ts cb"

lemma successes_half_open:
  assumes "cb_state cb = Half_open" and "cb_success_count cb = int m"
    and "m + length ts \<le> n" and "success_threshold cb = int n" and "m < n"
  shows "if m + length ts = n
    then cb_state (successes_at ts cb) = Closed \<and> failure_count (successes_at ts cb) = 0
    else cb_state (successes_at ts cb) = Half_open"
  using assms
proof (induction ts arbitrary: cb m)
  case (Cons t ts)
  obtain now later where t: "t = (now, later)" by (cases t)
  let ?cb = "fst (snd (breaker_call (\<lambda>u. (None, u)) now later (cb, ())))"
  have step: "successes_at (t # ts) cb = successes_at ts ?cb" by (simp add: successes_at_def t)
  show ?case
  proof (cases "Suc m = n")
    case True
    then have "ts = []" using Cons.prems(3) by auto
    with True Cons.prems show ?thesis
      unfolding step by (auto simp: successes_at_def breaker_call_def is_open_def record_success_def
          breaker_log_def Let_def)
  next
    case False
    then have "?cb = cb\<lparr>cb_success_count := int (Suc m)\<rparr>"
      using Cons.prems by (auto simp: breaker_call_def is_open_def record_success_def Let_def)
    then show ?thesis
      using Cons.IH [of "cb\<lparr>cb_success_count := int (Suc m)\<rparr>" "Suc m"] Cons.prems False
      unfolding step by (simp del: of_nat_Suc)
  qed
qed (simp add: successes_at_def)

text \<open>C31: an open breaker rejects every call within its recovery timeout without running the
  function and without changing. After the timeout calls go through: with fewer than
  \<open>success_threshold\<close> successes it is half open, with that many it is closed with a clear
  failure count, and one failure opens it again from that moment.\<close>

theorem breaker_recovery:
  assumes "cb_state cb = Open" and "success_threshold cb = int n" and "1 \<le> n"
  shows "(if elapsed_between (last_failure_time cb) now < recovery_timeout_ms cb
    then breaker_call fn now later (cb, w) =
      (Throw (Exn Runtime_error ''Circuit breaker is open: service unavailable''), cb, w)
    else
      (if Suc (length ts) < n
       then cb_state (successes_at ((now, later) # ts) cb) = Half_open
       else Suc (length ts) = n \<longrightarrow>
         cb_state (successes_at ((now, later) # ts) cb) = Closed \<and>
         failure_count (successes_at ((now, later) # ts) cb) = 0) \<and>
      (fst (fn w) = Some e \<longrightarrow>
        fst (breaker_call fn now later (cb, w)) = Throw e \<and>
        cb_state (fst (snd (breaker_call fn now later (cb, w)))) = Open \<and>
        last_failure_time (fst (snd (breaker_call fn now later (cb, w)))) = later))"
proof (cases "elapsed_between (last_failure_time cb) now < recovery_timeout_ms cb")
  case True
  with assms(1) show ?thesis by (simp add: breaker_call_def is_open_def)
next
  case False
  define half where "half = breaker_log Info ''Circuit breaker transitioning to half-open''
    (cb\<lparr>cb_state := Half_open, cb_success_count := 0\<rparr>)"
  have half: "is_open now cb = (False, half)" "cb_state half = Half_open"
    "cb_success_count half = int 0" "success_threshold half = int n"
    using assms False by (auto simp: is_open_def half_def breaker_log_def)
  have "successes_at ((now, later) # ts) cb = successes_at ((now, later) # ts) half"
    using half by (simp add: successes_at_def breaker_call_def is_open_def)
  moreover have "if Suc (length ts) = n
      then cb_state (successes_at ((now, later) # ts) half) = Closed \<and>
        failure_count (successes_at ((now, later) # ts) half) = 0
      else cb_state (successes_at ((now, later) # ts) half) = Half_open"
    if "Suc (length ts) \<le> n"
    using successes_half_open [OF half(2,3) _ half(4), of "(now, later) # ts"] that assms(3) by simp
  moreover have "fst (breaker_call fn now later (cb, w)) = Throw e \<and>
      cb_state (fst (snd (breaker_call fn now later (cb, w)))) = Open \<and>
      last_failure_time (fst (snd (breaker_call fn now later (cb, w)))) = later"
    if "fst (fn w) = Some e"
    using that half by (cases "fn w") (simp add: breaker_call_def record_failure_def breaker_log_def)
  ultimately show ?thesis using False by (auto split: if_splits)
qed

theorem breaker_recovery_witness:
  "cb_state (successes_at [(30000000000, 0), (30000000001, 0)]
     (breaker_run [(0, 0, Some (Exn Runtime_error ''x''))] (new_breaker 1 30000 2))) = Closed"
proof -
  let ?cb = "breaker_run [(0, 0, Some (Exn Runtime_error ''x''))] (new_breaker 1 30000 2)"
  have "cb_state ?cb = Open \<and> success_threshold ?cb = int 2 \<and> last_failure_time ?cb = 0 \<and>
      recovery_timeout_ms ?cb = 30000"
    by (simp add: breaker_run_def call_once_def breaker_call_def is_open_def new_breaker_def
        record_failure_def breaker_log_def Let_def)
  then show ?thesis
    using breaker_recovery [of ?cb 2 30000000000 "\<lambda>u. (None, u)" 0 "()" "[(30000000001, 0)]"]
    by (auto simp: elapsed_between_def cdiv_def)
qed

end
