(* ===== verification/Thread_Pool.thy ===== *)
theory Thread_Pool
  imports Tribunal_Prelude "HOL-Library.Multiset"
begin

text \<open>
  \<open>util/Concurrent.h\<close> and \<open>util/Concurrent.cpp\<close>: the worker thread pool as a step relation.
  A step is what the code does atomically: what happens between locking and unlocking
  \<open>queue_mutex_\<close> when only data guarded by it is involved, and each access outside the lock on
  its own (the decrement of \<open>active_tasks_\<close>, the two reads of the completion test, the
  notifications). A thread in \<open>wait()\<close> keeps the mutex between evaluating its predicate and
  falling asleep, so these are two steps with the lock held. Tasks are values of any type; an
  exception of a task is swallowed by the worker, so a task only leaves its mark in
  \<open>executed\<close>. The calls of the client are steps of label \<open>Client\<close>; wake-ups without a
  notification, which condition variables allow, have the label \<open>Spurious\<close>.
\<close>

definition get_cpu_count :: "nat \<Rightarrow> nat" where
  "get_cpu_count hardware_concurrency =
     (if hardware_concurrency > 0 then hardware_concurrency else 1)"

definition get_optimal_thread_count :: "nat \<Rightarrow> nat" where
  "get_optimal_thread_count hardware_concurrency =
     (let count = get_cpu_count hardware_concurrency in if count > 1 then count - 1 else 2)"

section \<open>State\<close>

datatype 't pool_worker =
  Ready          \<comment> \<open>at the head of the loop or woken, about to lock\<close>
| Asleep         \<comment> \<open>in \<open>queue_cv_.wait\<close>\<close>
| Running 't
| Ran            \<comment> \<open>task done, \<open>active_tasks_\<close> not yet decremented\<close>
| Left           \<comment> \<open>about to read \<open>tasks_.empty()\<close>\<close>
| Saw_empty      \<comment> \<open>about to read \<open>active_tasks_ == 0\<close>\<close>
| Exited

datatype waiter = Not_waiting | Checking | Decided | Sleeping | Woken | Returned

record 't thread_pool =
  queue :: "'t list"
  active_tasks :: nat
  stop_flag :: bool
  workers :: "'t pool_worker list"
  waiting :: waiter
  notifications :: nat
  stop_broadcast :: bool
  enqueued :: "'t list"
  executed :: "'t list"

definition new_thread_pool :: "nat \<Rightarrow> nat \<Rightarrow> 't thread_pool" where
  "new_thread_pool hardware_concurrency num_threads =
     \<lparr>queue = [], active_tasks = 0, stop_flag = False,
      workers = replicate (if num_threads = 0 then get_optimal_thread_count hardware_concurrency
                           else num_threads) Ready,
      waiting = Not_waiting, notifications = 0, stop_broadcast = False,
      enqueued = [], executed = []\<rparr>"

definition thread_count :: "'t thread_pool \<Rightarrow> nat" where
  "thread_count s = length (workers s)"

definition pending_tasks :: "'t thread_pool \<Rightarrow> nat" where
  "pending_tasks s = length (queue s) + active_tasks s"

definition is_running :: "'t thread_pool \<Rightarrow> bool" where
  "is_running s = (\<not> stop_flag s)"

definition lock_free :: "'t thread_pool \<Rightarrow> bool" where
  "lock_free s \<longleftrightarrow> waiting s \<noteq> Checking \<and> waiting s \<noteq> Decided"

section \<open>Steps\<close>

datatype step_label = Client | Internal | Spurious

definition set_worker :: "nat \<Rightarrow> 't pool_worker \<Rightarrow> 't thread_pool \<Rightarrow> 't thread_pool" where
  "set_worker i w s = s\<lparr>workers := (workers s)[i := w]\<rparr>"

definition worker_at :: "'t thread_pool \<Rightarrow> nat \<Rightarrow> 't pool_worker \<Rightarrow> bool" where
  "worker_at s i w \<longleftrightarrow> i < length (workers s) \<and> workers s ! i = w"

definition wake :: "'t pool_worker \<Rightarrow> 't pool_worker" where
  "wake w = (case w of Asleep \<Rightarrow> Ready | _ \<Rightarrow> w)"

text \<open>
  Three simplifications: the read of \<open>tasks_.empty()\<close> after a task, which the code makes without the
  lock and which is a data race on the queue, is an atomic read; a task always returns or throws; one
  thread at a time is in \<open>wait()\<close>.
\<close>

inductive tp_step :: "step_label \<Rightarrow> 't thread_pool \<Rightarrow> 't thread_pool \<Rightarrow> bool" where
  enqueue: "lock_free s \<Longrightarrow> \<not> stop_flag s \<Longrightarrow>
    tp_step Client s (s\<lparr>queue := queue s @ [t], enqueued := enqueued s @ [t],
                        notifications := notifications s + 1\<rparr>)"
| stop: "lock_free s \<Longrightarrow>
    tp_step Client s (s\<lparr>stop_flag := True, stop_broadcast := True\<rparr>)"
| begin_wait: "lock_free s \<Longrightarrow> waiting s \<in> {Not_waiting, Returned} \<Longrightarrow>
    tp_step Client s (s\<lparr>waiting := Checking\<rparr>)"
| notify_one: "notifications s = Suc n \<Longrightarrow> worker_at s i Asleep \<Longrightarrow>
    tp_step Internal s (set_worker i Ready (s\<lparr>notifications := n\<rparr>))"
| notify_none: "notifications s = Suc n \<Longrightarrow> \<forall>w\<in>set (workers s). w \<noteq> Asleep \<Longrightarrow>
    tp_step Internal s (s\<lparr>notifications := n\<rparr>)"
| notify_all: "stop_broadcast s \<Longrightarrow>
    tp_step Internal s (s\<lparr>stop_broadcast := False, workers := map wake (workers s)\<rparr>)"
| take_task: "worker_at s i Ready \<Longrightarrow> lock_free s \<Longrightarrow> queue s = t # q \<Longrightarrow>
    tp_step Internal s (set_worker i (Running t)
      (s\<lparr>queue := q, active_tasks := active_tasks s + 1\<rparr>))"
| exit_loop: "worker_at s i Ready \<Longrightarrow> lock_free s \<Longrightarrow> queue s = [] \<Longrightarrow> stop_flag s \<Longrightarrow>
    tp_step Internal s (set_worker i Exited s)"
| fall_asleep: "worker_at s i Ready \<Longrightarrow> lock_free s \<Longrightarrow> queue s = [] \<Longrightarrow> \<not> stop_flag s \<Longrightarrow>
    tp_step Internal s (set_worker i Asleep s)"
| run_task: "worker_at s i (Running t) \<Longrightarrow>
    tp_step Internal s (set_worker i Ran (s\<lparr>executed := executed s @ [t]\<rparr>))"
| decrement: "worker_at s i Ran \<Longrightarrow>
    tp_step Internal s (set_worker i Left (s\<lparr>active_tasks := active_tasks s - 1\<rparr>))"
| read_empty: "worker_at s i Left \<Longrightarrow>
    tp_step Internal s (set_worker i (if queue s = [] then Saw_empty else Ready) s)"
| notify_done: "worker_at s i Saw_empty \<Longrightarrow>
    tp_step Internal s (set_worker i Ready
      (if active_tasks s = 0 \<and> waiting s = Sleeping then s\<lparr>waiting := Woken\<rparr> else s))"
| check_done: "waiting s = Checking \<Longrightarrow>
    tp_step Internal s
      (s\<lparr>waiting := (if queue s = [] \<and> active_tasks s = 0 then Returned else Decided)\<rparr>)"
| wait_sleep: "waiting s = Decided \<Longrightarrow> tp_step Internal s (s\<lparr>waiting := Sleeping\<rparr>)"
| relock: "waiting s = Woken \<Longrightarrow> tp_step Internal s (s\<lparr>waiting := Checking\<rparr>)"
| spurious_worker: "worker_at s i Asleep \<Longrightarrow> tp_step Spurious s (set_worker i Ready s)"
| spurious_waiter: "waiting s = Sleeping \<Longrightarrow> tp_step Spurious s (s\<lparr>waiting := Woken\<rparr>)"

inductive tp_reach :: "'t thread_pool \<Rightarrow> 't thread_pool \<Rightarrow> bool" for s0 where
  tp_refl: "tp_reach s0 s0"
| tp_next: "tp_reach s0 s \<Longrightarrow> tp_step l s s' \<Longrightarrow> tp_reach s0 s'"

text \<open>The call as the client sees it: it throws exactly when the pool is stopped.\<close>

definition enqueue_result :: "'t thread_pool \<Rightarrow> unit outcome" where
  "enqueue_result s =
     (if stop_flag s
      then Throw (Exn Runtime_error ''Cannot enqueue task: ThreadPool is stopped'') else Ret ())"

inductive_cases internal_stepE: "tp_step Internal s s'"

section \<open>Counting over the workers\<close>

fun running_task :: "'t pool_worker \<Rightarrow> 't multiset" where
  "running_task (Running t) = {#t#}"
| "running_task _ = {#}"

fun busy :: "'t pool_worker \<Rightarrow> nat" where
  "busy (Running t) = 1"
| "busy Ran = 1"
| "busy _ = 0"

definition worker_sum :: "('t pool_worker \<Rightarrow> 'n::comm_monoid_add) \<Rightarrow> 't pool_worker list \<Rightarrow> 'n" where
  "worker_sum f ws = sum_list (map f ws)"

lemma worker_sum_update:
  "i < length ws \<Longrightarrow> worker_sum f (ws[i := w]) + f (ws ! i) = worker_sum f ws + f w"
proof (induction ws arbitrary: i)
  case (Cons a ws)
  show ?case
  proof (cases i)
    case (Suc j)
    with Cons have "worker_sum f (ws[j := w]) + f (ws ! j) = worker_sum f ws + f w" by simp
    then have "f a + (worker_sum f (ws[j := w]) + f (ws ! j)) = f a + (worker_sum f ws + f w)"
      by simp
    then show ?thesis using Suc by (simp add: worker_sum_def add.assoc)
  qed (simp add: worker_sum_def add_ac)
qed simp

lemma worker_sum_replicate: "f w = 0 \<Longrightarrow> worker_sum f (replicate n w) = 0"
  by (induction n) (simp_all add: worker_sum_def)

lemma worker_sum_wake:
  "(\<And>w. f (wake w) = f w) \<Longrightarrow> worker_sum f (map wake ws) = worker_sum f ws"
  by (simp add: worker_sum_def comp_def)

lemma running_wake [simp]: "running_task (wake w) = running_task w" "busy (wake w) = busy w"
  by (cases w; simp add: wake_def)+

lemma worker_sum_member: "w \<in> set ws \<Longrightarrow> f w \<le> (worker_sum f ws :: nat)"
  by (auto simp: worker_sum_def intro: member_le_sum_list)

section \<open>The invariant\<close>

definition tp_inv :: "'t thread_pool \<Rightarrow> bool" where
  "tp_inv s \<longleftrightarrow>
     mset (enqueued s) = mset (executed s) + mset (queue s) + worker_sum running_task (workers s) \<and>
     active_tasks s = worker_sum busy (workers s) \<and>
     (stop_flag s \<and> \<not> stop_broadcast s \<longrightarrow> (\<forall>w\<in>set (workers s). w \<noteq> Asleep))"

lemma tp_inv_new: "tp_inv (new_thread_pool h n)"
  by (simp add: tp_inv_def new_thread_pool_def worker_sum_replicate)

lemma set_worker_sel [simp]:
  "queue (set_worker i w s) = queue s" "active_tasks (set_worker i w s) = active_tasks s"
  "stop_flag (set_worker i w s) = stop_flag s" "waiting (set_worker i w s) = waiting s"
  "notifications (set_worker i w s) = notifications s"
  "stop_broadcast (set_worker i w s) = stop_broadcast s"
  "enqueued (set_worker i w s) = enqueued s" "executed (set_worker i w s) = executed s"
  "workers (set_worker i w s) = (workers s)[i := w]"
  by (simp_all add: set_worker_def)

lemma no_sleeper_update:
  "\<forall>w\<in>set ws. w \<noteq> Asleep \<Longrightarrow> v \<noteq> Asleep \<Longrightarrow> \<forall>w\<in>set (ws[i := v]). w \<noteq> Asleep"
  using set_update_subset_insert [of ws i v] by auto

text \<open>One worker moves from \<open>w\<close> to \<open>v\<close>; what it carries and counts moves with it.\<close>

lemma tp_inv_move:
  assumes at: "worker_at s i w" and inv: "tp_inv s"
    and ws: "workers s' = (workers s)[i := v]"
    and flags: "stop_flag s' = stop_flag s" "stop_broadcast s' = stop_broadcast s"
    and awake: "v \<noteq> Asleep \<or> \<not> stop_flag s"
    and tasks: "enqueued s' = enqueued s"
      "mset (executed s) + mset (queue s) + running_task w =
       mset (executed s') + mset (queue s') + running_task v"
    and count: "active_tasks s' + busy w = active_tasks s + busy v"
  shows "tp_inv s'"
proof -
  from at have i: "i < length (workers s)" "workers s ! i = w" by (simp_all add: worker_at_def)
  have r: "worker_sum running_task (workers s') + running_task w =
      worker_sum running_task (workers s) + running_task v"
    using worker_sum_update [OF i(1), of running_task v] i ws by simp
  have b: "worker_sum busy (workers s') + busy w = worker_sum busy (workers s) + busy v"
    using worker_sum_update [OF i(1), of busy v] i ws by simp
  have "mset (enqueued s') + running_task w =
      mset (executed s) + mset (queue s) + running_task w + worker_sum running_task (workers s)"
    using inv tasks(1) by (simp add: tp_inv_def add_ac)
  also have "\<dots> = mset (executed s') + mset (queue s') +
      (worker_sum running_task (workers s) + running_task v)"
    unfolding tasks(2) by (simp add: add_ac)
  also have "\<dots> = mset (executed s') + mset (queue s') + worker_sum running_task (workers s') +
      running_task w"
    unfolding r [symmetric] by (simp add: add_ac)
  finally have "mset (enqueued s') =
      mset (executed s') + mset (queue s') + worker_sum running_task (workers s')"
    by (simp only: add_right_cancel)
  moreover have "active_tasks s' = worker_sum busy (workers s')"
    using inv b count by (simp add: tp_inv_def)
  moreover have "\<forall>w\<in>set (workers s'). w \<noteq> Asleep" if "stop_flag s'" "\<not> stop_broadcast s'"
    unfolding ws using that inv flags awake
    by (intro no_sleeper_update) (auto simp: tp_inv_def)
  ultimately show ?thesis unfolding tp_inv_def by blast
qed

lemma tp_inv_step: "tp_step l s s' \<Longrightarrow> tp_inv s \<Longrightarrow> tp_inv s'"
proof (induction rule: tp_step.induct)
  case (take_task s i t q)
  then show ?case by - (rule tp_inv_move [where v = "Running t", OF take_task(1)], simp_all)
next
  case (run_task s i t)
  then show ?case by - (rule tp_inv_move [where v = "Ran", OF run_task(1)], simp_all)
next
  case (decrement s i)
  then have "Ran \<in> set (workers s)"
    using nth_mem [of i "workers s"] by (auto simp: worker_at_def)
  then have "1 \<le> active_tasks s"
    using worker_sum_member [of Ran "workers s" busy] decrement(2) by (simp add: tp_inv_def)
  with decrement show ?case by - (rule tp_inv_move [where v = "Left", OF decrement(1)], simp_all)
next
  case (read_empty s i)
  then show ?case by - (rule tp_inv_move
      [where v = "if queue s = [] then Saw_empty else Ready", OF read_empty(1)], simp_all)
next
  case (notify_done s i)
  then show ?case by - (rule tp_inv_move [where v = Ready, OF notify_done(1)], simp_all)
next
  case (exit_loop s i)
  then show ?case by - (rule tp_inv_move [where v = "Exited", OF exit_loop(1)], simp_all)
next
  case (fall_asleep s i)
  then show ?case by - (rule tp_inv_move [where v = "Asleep", OF fall_asleep(1)], simp_all)
next
  case (notify_one s n i)
  then show ?case by - (rule tp_inv_move [where v = "Ready", OF notify_one(2)], simp_all)
next
  case (spurious_worker s i)
  then show ?case by - (rule tp_inv_move [where v = "Ready", OF spurious_worker(1)], simp_all)
next
  case (notify_all s)
  then show ?case
    by (auto simp: tp_inv_def worker_sum_wake wake_def split: pool_worker.splits)
qed (simp_all add: tp_inv_def)

lemma tp_reach_inv: "tp_reach s0 s \<Longrightarrow> tp_inv s0 \<Longrightarrow> tp_inv s"
  by (induction rule: tp_reach.induct) (auto intro: tp_inv_step)

end
