(* ===== verification/Thread_Pool_Properties.thy ===== *)
theory Thread_Pool_Properties
  imports Thread_Pool
begin

text \<open>
  What the thread pool guarantees in every interleaving: each enqueued task is at one place and
  runs once, \<open>stop\<close> drains the queue and ends, and \<open>wait\<close> only returns when all work is done;
  and what it does not: a thread in \<open>wait\<close> can sleep forever.
\<close>

lemma running_sum_zero:
  "\<forall>w\<in>set ws. running_task w = {#} \<Longrightarrow> worker_sum running_task ws = {#}"
  by (induction ws) (auto simp: worker_sum_def)

text \<open>C27: in every reachable state each enqueued task is in exactly one of three places: still
  queued, held by one worker, or executed (so none is lost and none runs twice); the counter
  of active tasks is the number of workers between taking a task and having decremented; and
  when a thread leaves \<open>wait()\<close>, every task enqueued so far has been executed.\<close>

theorem pool_runs_tasks_once:
  assumes "tp_reach (new_thread_pool h n) s"
  shows "mset (enqueued s) = mset (executed s) + mset (queue s) + worker_sum running_task (workers s) \<and>
    active_tasks s = worker_sum busy (workers s) \<and>
    (\<forall>l s'. tp_step l s s' \<longrightarrow> waiting s \<noteq> Returned \<longrightarrow> waiting s' = Returned \<longrightarrow>
       mset (executed s') = mset (enqueued s'))"
proof -
  have inv: "tp_inv s" by (rule tp_reach_inv [OF assms tp_inv_new])
  have "mset (executed s') = mset (enqueued s')"
    if step: "tp_step l s s'" and w: "waiting s \<noteq> Returned" "waiting s' = Returned" for l s'
  proof -
    from step w have s': "s' = s\<lparr>waiting := Returned\<rparr>" and e: "queue s = []" "active_tasks s = 0"
      by (auto elim: tp_step.cases split: if_splits)
    have "running_task w = {#}" if "w \<in> set (workers s)" for w
      using worker_sum_member [OF that, of busy] inv e(2) by (cases w) (auto simp: tp_inv_def)
    then have "worker_sum running_task (workers s) = {#}" by (intro running_sum_zero) blast
    with inv e(1) s' show ?thesis by (simp add: tp_inv_def)
  qed
  with inv show ?thesis unfolding tp_inv_def by blast
qed

text \<open>A pool of one worker with one queued task, and the same pool stopped.\<close>

definition one_task :: "nat thread_pool" where
  "one_task = (new_thread_pool 4 1)\<lparr>queue := [7], enqueued := [7], notifications := 1\<rparr>"

lemma one_task_reach: "tp_reach (new_thread_pool 4 1) one_task"
  "tp_reach (new_thread_pool 4 1) (one_task\<lparr>stop_flag := True, stop_broadcast := True\<rparr>)"
proof -
  have "tp_step Client (new_thread_pool 4 1) one_task"
    using enqueue [of "new_thread_pool 4 1" "7 :: nat"]
    by (simp add: new_thread_pool_def lock_free_def one_task_def)
  then show 1: "tp_reach (new_thread_pool 4 1) one_task" by (rule tp_next [OF tp_refl])
  have "lock_free one_task" by (simp add: one_task_def new_thread_pool_def lock_free_def)
  then show "tp_reach (new_thread_pool 4 1) (one_task\<lparr>stop_flag := True, stop_broadcast := True\<rparr>)"
    by (rule tp_next [OF 1 stop])
qed

theorem pool_runs_tasks_once_witness:
  "active_tasks one_task = worker_sum busy (workers one_task)"
  using pool_runs_tasks_once [OF one_task_reach(1)] by blast

section \<open>Shutting down\<close>

fun worker_weight :: "'t pool_worker \<Rightarrow> nat" where
  "worker_weight Exited = 0"
| "worker_weight Ready = 1"
| "worker_weight Asleep = 2"
| "worker_weight Saw_empty = 5"
| "worker_weight Left = 6"
| "worker_weight Ran = 7"
| "worker_weight (Running t) = 8"

fun waiter_weight :: "waiter \<Rightarrow> nat" where
  "waiter_weight Decided = 1"
| "waiter_weight Checking = 2"
| "waiter_weight Woken = 3"
| "waiter_weight _ = 0"

definition tp_work :: "'t thread_pool \<Rightarrow> nat" where
  "tp_work s = worker_sum worker_weight (workers s) + 8 * length (queue s) +
     waiter_weight (waiting s) + notifications s + (if stop_broadcast s then 1 else 0)"

lemma weight_move:
  "worker_at s i w \<Longrightarrow>
   worker_sum worker_weight ((workers s)[i := v]) + worker_weight w =
   worker_sum worker_weight (workers s) + worker_weight v"
  using worker_sum_update [of i "workers s" worker_weight v] by (auto simp: worker_at_def)

lemma weight_wake: "worker_sum worker_weight (map wake ws) \<le> worker_sum worker_weight ws"
proof -
  have "worker_weight (wake w) \<le> worker_weight w" for w :: "'a pool_worker"
    by (cases w) (simp_all add: wake_def)
  then show ?thesis by (induction ws) (auto simp: worker_sum_def intro: add_mono)
qed

lemma tp_work_step: "tp_step l s s' \<Longrightarrow> l = Internal \<Longrightarrow> stop_flag s \<Longrightarrow> tp_work s' < tp_work s"
proof (induction rule: tp_step.induct)
  case (notify_all s)
  then show ?case using weight_wake [of "workers s"] by (simp add: tp_work_def)
next
  case (notify_one s n i)
  then show ?case using weight_move [OF notify_one(2), of Ready] by (simp add: tp_work_def)
next
  case (take_task s i t q)
  then show ?case using weight_move [OF take_task(1), of "Running t"] by (simp add: tp_work_def)
next
  case (run_task s i t)
  then show ?case using weight_move [OF run_task(1), of Ran] by (simp add: tp_work_def)
next
  case (decrement s i)
  then show ?case using weight_move [OF decrement(1), of Left] by (simp add: tp_work_def)
next
  case (read_empty s i)
  then show ?case
    using weight_move [OF read_empty(1), of Ready] weight_move [OF read_empty(1), of Saw_empty]
    by (simp add: tp_work_def)
next
  case (notify_done s i)
  then show ?case using weight_move [OF notify_done(1), of Ready] by (simp add: tp_work_def)
next
  case (exit_loop s i)
  then show ?case using weight_move [OF exit_loop(1), of Exited] by (simp add: tp_work_def)
qed (simp_all add: tp_work_def)

definition exit_inv :: "'t thread_pool \<Rightarrow> bool" where
  "exit_inv s \<longleftrightarrow> workers s \<noteq> [] \<and> (Exited \<in> set (workers s) \<longrightarrow> stop_flag s \<and> queue s = [])"

lemma exited_update: "Exited \<in> set (ws[i := v]) \<Longrightarrow> v \<noteq> Exited \<Longrightarrow> Exited \<in> set ws"
  using set_update_subset_insert [of ws i v] by auto

lemma exited_wake: "Exited \<in> wake ` A \<longleftrightarrow> Exited \<in> A"
proof -
  have "Exited = wake w \<longleftrightarrow> w = Exited" for w :: "'a pool_worker"
    by (cases w) (simp_all add: wake_def)
  then show ?thesis by (auto simp: image_iff)
qed

lemma exit_inv_step: "tp_step l s s' \<Longrightarrow> exit_inv s \<Longrightarrow> exit_inv s'"
  by (induction rule: tp_step.induct)
    (auto simp: exit_inv_def exited_wake dest: exited_update split: if_splits)

lemma exit_inv_new: "exit_inv (new_thread_pool h n)"
  by (auto simp: exit_inv_def new_thread_pool_def get_optimal_thread_count_def get_cpu_count_def Let_def)

lemma exit_inv_reach: "tp_reach s0 s \<Longrightarrow> exit_inv s0 \<Longrightarrow> exit_inv s"
  by (induction rule: tp_reach.induct) (auto intro: exit_inv_step)

lemma stopped_progress:
  assumes "tp_inv s" and "stop_flag s" and stuck: "\<nexists>s'. tp_step Internal s s'"
  shows "\<forall>w\<in>set (workers s). w = Exited"
proof
  fix w assume "w \<in> set (workers s)"
  then obtain i where at: "worker_at s i w"
    by (auto simp: worker_at_def in_set_conv_nth)
  have lock: "lock_free s"
    using stuck check_done [of s] wait_sleep [of s] by (auto simp: lock_free_def)
  have "\<not> stop_broadcast s" using stuck notify_all [of s] by auto
  then have "w \<noteq> Asleep"
    using assms(1,2) \<open>w \<in> set (workers s)\<close> by (auto simp: tp_inv_def)
  then show "w = Exited"
  proof (cases w)
    case Ready
    then show ?thesis
      using at lock assms(2) stuck take_task [of s i] exit_loop [of s i] by (cases "queue s") auto
  next
    case (Running t)
    then show ?thesis using at stuck run_task [of s i t] by auto
  next
    case Ran
    then show ?thesis using at stuck decrement [of s i] by auto
  next
    case Left
    then show ?thesis using at stuck read_empty [of s i] by auto
  next
    case Saw_empty
    then show ?thesis using at stuck notify_done [of s i] by auto
  qed auto
qed

text \<open>C28: after \<open>stop\<close> every schedule of the pool's own steps is finite (each step decreases
  the remaining work), and where no step is left all workers have ended, the queue is empty
  and every task that was ever enqueued has been executed. So \<open>stop\<close>, and with it the
  destructor, returns and drops nothing.\<close>

theorem pool_stop_drains:
  assumes "tp_reach (new_thread_pool h n) s" and "stop_flag s"
  shows "(\<forall>s'. tp_step Internal s s' \<longrightarrow> stop_flag s' \<and> tp_work s' < tp_work s) \<and>
    ((\<exists>s'. tp_step Internal s s') \<or>
     (\<forall>w\<in>set (workers s). w = Exited) \<and> queue s = [] \<and> mset (executed s) = mset (enqueued s))"
proof -
  have inv: "tp_inv s" and ex: "exit_inv s"
    using tp_reach_inv [OF assms(1) tp_inv_new] exit_inv_reach [OF assms(1) exit_inv_new] .
  have keep: "stop_flag s'" if "tp_step Internal s s'" for s'
    using that assms(2) by (auto elim: internal_stepE)
  have drained: "(\<forall>w\<in>set (workers s). w = Exited) \<and> queue s = [] \<and> mset (executed s) = mset (enqueued s)"
    if "\<nexists>s'. tp_step Internal s s'"
  proof -
    have all: "\<forall>w\<in>set (workers s). w = Exited" by (rule stopped_progress [OF inv assms(2) that])
    then have q: "queue s = []" using ex by (cases "workers s") (auto simp: exit_inv_def)
    have "worker_sum running_task (workers s) = {#}" using all by (intro running_sum_zero) auto
    with inv q all show ?thesis by (simp add: tp_inv_def)
  qed
  show ?thesis using keep drained tp_work_step [of Internal s] assms(2) by blast
qed

theorem pool_stop_drains_witness:
  "\<exists>s'. tp_step Internal (one_task\<lparr>stop_flag := True, stop_broadcast := True\<rparr>) s' \<and>
     tp_work s' < tp_work (one_task\<lparr>stop_flag := True, stop_broadcast := True\<rparr>)"
proof -
  have "queue (one_task\<lparr>stop_flag := True, stop_broadcast := True\<rparr>) \<noteq> []"
    by (simp add: one_task_def)
  then show ?thesis
    using pool_stop_drains [OF one_task_reach(2)] by auto
qed

section \<open>A lost wake-up\<close>

definition snap ::
  "unit list \<Rightarrow> nat \<Rightarrow> unit pool_worker \<Rightarrow> waiter \<Rightarrow> nat \<Rightarrow> unit list \<Rightarrow> unit list \<Rightarrow> unit thread_pool" where
  "snap q a w wt n en ex = \<lparr>queue = q, active_tasks = a, stop_flag = False, workers = [w],
     waiting = wt, notifications = n, stop_broadcast = False, enqueued = en, executed = ex\<rparr>"

lemmas snap_simps = snap_def worker_at_def set_worker_def lock_free_def

lemma snap_steps:
  "tp_step Client (snap [] 0 Ready Not_waiting 0 [] []) (snap [()] 0 Ready Not_waiting 1 [()] [])"
  "tp_step Internal (snap [()] 0 Ready Not_waiting 1 [()] []) (snap [] 1 (Running ()) Not_waiting 1 [()] [])"
  "tp_step Client (snap [] 1 (Running ()) Not_waiting 1 [()] []) (snap [] 1 (Running ()) Checking 1 [()] [])"
  "tp_step Internal (snap [] 1 (Running ()) Checking 1 [()] []) (snap [] 1 (Running ()) Decided 1 [()] [])"
  "tp_step Internal (snap [] 1 (Running ()) Decided 1 [()] []) (snap [] 1 Ran Decided 1 [()] [()])"
  "tp_step Internal (snap [] 1 Ran Decided 1 [()] [()]) (snap [] 0 Left Decided 1 [()] [()])"
  "tp_step Internal (snap [] 0 Left Decided 1 [()] [()]) (snap [] 0 Saw_empty Decided 1 [()] [()])"
  "tp_step Internal (snap [] 0 Saw_empty Decided 1 [()] [()]) (snap [] 0 Ready Decided 1 [()] [()])"
  "tp_step Internal (snap [] 0 Ready Decided 1 [()] [()]) (snap [] 0 Ready Decided 0 [()] [()])"
  "tp_step Internal (snap [] 0 Ready Decided 0 [()] [()]) (snap [] 0 Ready Sleeping 0 [()] [()])"
  "tp_step Internal (snap [] 0 Ready Sleeping 0 [()] [()]) (snap [] 0 Asleep Sleeping 0 [()] [()])"
proof -
  let ?S = "\<lambda>q a w wt n en ex. snap q a w wt n en ex"
  show "tp_step Client (?S [] 0 Ready Not_waiting 0 [] []) (?S [()] 0 Ready Not_waiting 1 [()] [])"
    using enqueue [of "?S [] 0 Ready Not_waiting 0 [] []" "()"] by (simp add: snap_simps)
  show "tp_step Internal (?S [()] 0 Ready Not_waiting 1 [()] []) (?S [] 1 (Running ()) Not_waiting 1 [()] [])"
    using take_task [of "?S [()] 0 Ready Not_waiting 1 [()] []" 0 "()" "[]"] by (simp add: snap_simps)
  show "tp_step Client (?S [] 1 (Running ()) Not_waiting 1 [()] []) (?S [] 1 (Running ()) Checking 1 [()] [])"
    using begin_wait [of "?S [] 1 (Running ()) Not_waiting 1 [()] []"] by (simp add: snap_simps)
  show "tp_step Internal (?S [] 1 (Running ()) Checking 1 [()] []) (?S [] 1 (Running ()) Decided 1 [()] [])"
    using check_done [of "?S [] 1 (Running ()) Checking 1 [()] []"] by (simp add: snap_simps)
  show "tp_step Internal (?S [] 1 (Running ()) Decided 1 [()] []) (?S [] 1 Ran Decided 1 [()] [()])"
    using run_task [of "?S [] 1 (Running ()) Decided 1 [()] []" 0 "()"] by (simp add: snap_simps)
  show "tp_step Internal (?S [] 1 Ran Decided 1 [()] [()]) (?S [] 0 Left Decided 1 [()] [()])"
    using decrement [of "?S [] 1 Ran Decided 1 [()] [()]" 0] by (simp add: snap_simps)
  show "tp_step Internal (?S [] 0 Left Decided 1 [()] [()]) (?S [] 0 Saw_empty Decided 1 [()] [()])"
    using read_empty [of "?S [] 0 Left Decided 1 [()] [()]" 0] by (simp add: snap_simps)
  show "tp_step Internal (?S [] 0 Saw_empty Decided 1 [()] [()]) (?S [] 0 Ready Decided 1 [()] [()])"
    using notify_done [of "?S [] 0 Saw_empty Decided 1 [()] [()]" 0] by (simp add: snap_simps)
  show "tp_step Internal (?S [] 0 Ready Decided 1 [()] [()]) (?S [] 0 Ready Decided 0 [()] [()])"
    using notify_none [of "?S [] 0 Ready Decided 1 [()] [()]" 0] by (simp add: snap_simps)
  show "tp_step Internal (?S [] 0 Ready Decided 0 [()] [()]) (?S [] 0 Ready Sleeping 0 [()] [()])"
    using wait_sleep [of "?S [] 0 Ready Decided 0 [()] [()]"] by (simp add: snap_simps)
  show "tp_step Internal (?S [] 0 Ready Sleeping 0 [()] [()]) (?S [] 0 Asleep Sleeping 0 [()] [()])"
    using fall_asleep [of "?S [] 0 Ready Sleeping 0 [()] [()]" 0] by (simp add: snap_simps)
qed

lemma snap_stuck: "\<nexists>s'. tp_step Internal (snap [] 0 Asleep Sleeping 0 en ex) s'"
  by (auto elim!: internal_stepE simp: snap_simps)

text \<open>\<open>wait()\<close> can miss its wake-up: \<open>active_tasks_\<close> is decremented and the waiters are
  notified without the mutex, so both can happen between a waiter's test and its falling
  asleep. Then all tasks are done, the waiter sleeps, and the pool has no step left that
  could wake it.\<close>

theorem pool_wait_lost_wakeup:
  "\<exists>s :: unit thread_pool. tp_reach (new_thread_pool 4 1) s \<and> waiting s = Sleeping \<and>
     queue s = [] \<and> active_tasks s = 0 \<and> enqueued s \<noteq> [] \<and> executed s = enqueued s \<and>
     (\<nexists>s'. tp_step Internal s s')"
proof -
  note reach = tp_next [OF tp_next [OF tp_next [OF tp_next [OF tp_refl snap_steps(1)]
    snap_steps(2)] snap_steps(3)] snap_steps(4)]
  note reach' = tp_next [OF tp_next [OF tp_next [OF tp_next [OF reach snap_steps(5)]
    snap_steps(6)] snap_steps(7)] snap_steps(8)]
  note sleep = tp_next [OF tp_next [OF tp_next [OF reach' snap_steps(9)] snap_steps(10)]
    snap_steps(11)]
  have "new_thread_pool 4 1 = snap [] 0 Ready Not_waiting 0 [] []"
    by (simp add: new_thread_pool_def snap_def)
  with sleep have "tp_reach (new_thread_pool 4 1) (snap [] 0 Asleep Sleeping 0 [()] [()])"
    by simp
  then show ?thesis
    using snap_stuck [of "[()]" "[()]"] by (intro exI conjI) (auto simp: snap_def)
qed

end
