(* ===== verification/Hashing.thy ===== *)
theory Hashing
  imports Cpp_Numbers "HOL-Library.Word"
begin

text \<open>
  \<open>util/Hash.h\<close> and \<open>util/Hash.cpp\<close>: SHA-256 through OpenSSL's EVP interface, FNV-1a and the hex
  encoding. Bytes are 8-bit words and the FNV hash is a 32-bit word, so its arithmetic wraps as
  in the source. OpenSSL is a parameter: a record of the four calls the code makes, each of
  which may fail.
\<close>

unbundle bit_operations_syntax

type_synonym byte = "8 word"

section \<open>Hexadecimal output\<close>

definition hex_digit :: "nat \<Rightarrow> char" where
  "hex_digit d = (if d < 10 then char_of (48 + d) else char_of (87 + d))"

fun show_hex :: "nat \<Rightarrow> string" where
  "show_hex n = (if n < 16 then [hex_digit n] else show_hex (n div 16) @ [hex_digit (n mod 16)])"

declare show_hex.simps [simp del]

text \<open>\<open>std::hex << std::setw(w) << std::setfill('0') << n\<close>.\<close>

definition hex_padded :: "nat \<Rightarrow> nat \<Rightarrow> string" where
  "hex_padded w n = replicate (w - length (show_hex n)) (CHR ''0'') @ show_hex n"

definition hex_encode :: "byte list \<Rightarrow> string" where
  "hex_encode bytes = concat (map (\<lambda>b. hex_padded 2 (unat b)) bytes)"

text \<open>The loop over pairs of characters; any exception of \<open>stoi\<close> gives the empty vector.\<close>

fun decode_pairs :: "byte list \<Rightarrow> string \<Rightarrow> byte list" where
  "decode_pairs acc (a # b # cs) =
     (case stoi_base 16 [a, b] of
        Ret v \<Rightarrow> decode_pairs (acc @ [word_of_int v]) cs
      | _ \<Rightarrow> [])"
| "decode_pairs acc _ = acc"

definition hex_decode :: "string \<Rightarrow> byte list" where
  "hex_decode hex = (if length hex mod 2 \<noteq> 0 then [] else decode_pairs [] hex)"

section \<open>FNV-1a\<close>

definition fnv_prime :: "32 word" where "fnv_prime = 16777619"

definition fnv_basis :: "32 word" where "fnv_basis = 2166136261"

definition fnv_step :: "32 word \<Rightarrow> byte \<Rightarrow> 32 word" where
  "fnv_step h b = (h XOR ucast b) * fnv_prime"

definition fnv1a_uint32 :: "byte list \<Rightarrow> 32 word" where
  "fnv1a_uint32 bytes = foldl fnv_step fnv_basis bytes"

definition fnv1a :: "byte list \<Rightarrow> string" where
  "fnv1a bytes = hex_padded 8 (unat (fnv1a_uint32 bytes))"

section \<open>SHA-256\<close>

record 'c evp =
  evp_new :: "'c option"
  evp_init :: "'c \<Rightarrow> 'c option"
  evp_update :: "'c \<Rightarrow> byte list \<Rightarrow> 'c option"
  evp_final :: "'c \<Rightarrow> byte list option"

definition evp_throw :: "string \<Rightarrow> 'a outcome" where
  "evp_throw m = Throw (Exn Runtime_error m)"

definition evp_start :: "'c evp \<Rightarrow> 'c outcome" where
  "evp_start e =
     (case evp_new e of
        None \<Rightarrow> evp_throw ''Failed to create EVP_MD_CTX''
      | Some c \<Rightarrow>
          (case evp_init e c of
             None \<Rightarrow> evp_throw ''EVP_DigestInit_ex failed''
           | Some c' \<Rightarrow> Ret c'))"

definition evp_add :: "'c evp \<Rightarrow> byte list \<Rightarrow> 'c \<Rightarrow> 'c outcome" where
  "evp_add e bytes c =
     (case evp_update e c bytes of
        None \<Rightarrow> evp_throw ''EVP_DigestUpdate failed''
      | Some c' \<Rightarrow> Ret c')"

definition evp_finish :: "'c evp \<Rightarrow> 'c \<Rightarrow> string outcome" where
  "evp_finish e c =
     (case evp_final e c of
        None \<Rightarrow> evp_throw ''EVP_DigestFinal_ex failed''
      | Some hash \<Rightarrow> Ret (hex_encode hash))"

definition sha256 :: "'c evp \<Rightarrow> byte list \<Rightarrow> string outcome" where
  "sha256 e bytes = obind (obind (evp_start e) (evp_add e bytes)) (evp_finish e)"

text \<open>\<open>file.read(buffer, 4096)\<close> until nothing is read: the chunks of the loop.\<close>

function read_chunks :: "byte list \<Rightarrow> byte list list" where
  "read_chunks bytes =
     (if bytes = [] then [] else take 4096 bytes # read_chunks (drop 4096 bytes))"
  by pat_completeness auto
termination
  by (relation "measure length") auto

declare read_chunks.simps [simp del]

fun add_chunks :: "'c evp \<Rightarrow> byte list list \<Rightarrow> 'c \<Rightarrow> 'c outcome" where
  "add_chunks e [] c = Ret c"
| "add_chunks e (b # bs) c = obind (evp_add e b c) (add_chunks e bs)"

text \<open>An opened file: its bytes, and how many of them the stream delivers; fewer than all when a read
  fails (a directory delivers none). \<open>read\<close> does not throw, so the loop ends as at the end of the file.\<close>

record opened_file =
  on_disk :: "byte list"
  delivered :: nat

definition read_bytes :: "opened_file \<Rightarrow> byte list" where
  "read_bytes f = take (delivered f) (on_disk f)"

definition sha256_file :: "'c evp \<Rightarrow> (string \<Rightarrow> opened_file option) \<Rightarrow> string \<Rightarrow> string outcome" where
  "sha256_file e files path =
     (case files path of
        None \<Rightarrow> evp_throw (''Cannot open file: '' @ path)
      | Some f \<Rightarrow>
          obind (obind (evp_start e) (add_chunks e (read_chunks (read_bytes f)))) (evp_finish e))"

section \<open>Lemmas\<close>

lemma hex_digit_value:
  assumes "d < 16"
  shows "digit_value 16 (hex_digit d) = Some d"
    and "\<not> isspace (hex_digit d)" and "hex_digit d \<noteq> CHR ''-''" and "hex_digit d \<noteq> CHR ''+''"
proof -
  have code: "code_of (hex_digit d) = (if d < 10 then 48 + d else 87 + d)"
    using assms by (simp add: hex_digit_def)
  show "digit_value 16 (hex_digit d) = Some d"
    using assms by (simp add: digit_value_def code)
  have *: "c \<noteq> hex_digit d" if "code_of c < (48::nat)" for c
    using code that by (auto split: if_splits)
  show "\<not> isspace (hex_digit d)" and "hex_digit d \<noteq> CHR ''-''" and "hex_digit d \<noteq> CHR ''+''"
    using * [of "CHR 0x20"] * [of "CHR 0x09"] * [of "CHR 0x0A"] * [of "CHR 0x0B"]
      * [of "CHR 0x0C"] * [of "CHR 0x0D"] * [of "CHR ''-''"] * [of "CHR ''+''"]
    by (auto simp: isspace_def)
qed

lemma byte_less: "unat (b :: byte) < 256"
  using unsigned_less [of b] by simp

lemma char_of_48: "char_of (48 :: nat) = CHR ''0''"
  by code_simp

lemma hex_padded_byte:
  "n < 256 \<Longrightarrow> hex_padded 2 n = [hex_digit (n div 16), hex_digit (n mod 16)]"
  by (cases "n < 16")
    (simp_all add: hex_padded_def show_hex.simps [of n] show_hex.simps [of "n div 16"] hex_digit_def
      char_of_48 div_less_dividend less_mult_imp_div_less)

lemma stoi_hex_pair:
  assumes "a < 16" and "b < 16"
  shows "stoi_base 16 [hex_digit a, hex_digit b] = Ret (int (16 * a + b))"
  using assms hex_digit_value [of a] hex_digit_value [of b]
  by (simp add: stoi_base_def strtol_def digits_to_nat_def is_int_def INT_MIN_def INT_MAX_def Let_def)

lemma decode_encode: "decode_pairs acc (hex_encode bs) = acc @ bs"
proof (induction bs arbitrary: acc)
  case Nil
  then show ?case by (simp add: hex_encode_def)
next
  case (Cons b bs)
  have n: "unat b < 256" by (rule byte_less)
  have "decode_pairs acc (hex_encode (b # bs)) =
      decode_pairs acc (hex_digit (unat b div 16) # hex_digit (unat b mod 16) # hex_encode bs)"
    using n by (simp add: hex_encode_def hex_padded_byte)
  also have "\<dots> = decode_pairs (acc @ [b]) (hex_encode bs)"
    using n by (simp add: stoi_hex_pair less_mult_imp_div_less)
  finally show ?case using Cons by simp
qed

lemma length_hex_encode: "length (hex_encode bs) = 2 * length bs"
proof (induction bs)
  case (Cons b bs)
  have "unat b < 256" by (rule byte_less)
  with Cons show ?case by (simp add: hex_encode_def hex_padded_byte)
qed (simp add: hex_encode_def)

lemma fnv_prime_inverse: "fnv_prime * 899433627 = 1"
  by (simp add: fnv_prime_def)

lemma fnv_step_inj_hash: "fnv_step h b = fnv_step h' b \<longleftrightarrow> h = h'"
proof
  assume "fnv_step h b = fnv_step h' b"
  then have "(h XOR ucast b) * (fnv_prime * 899433627) = (h' XOR ucast b) * (fnv_prime * 899433627)"
    by (simp add: fnv_step_def flip: mult.assoc)
  then have "h XOR ucast b = h' XOR ucast b" by (simp add: fnv_prime_inverse)
  then have "(h XOR ucast b) XOR ucast b = (h' XOR ucast b) XOR ucast b" by simp
  then show "h = h'" by (simp only: xor.assoc xor_self_eq xor.right_neutral)
qed simp

lemma fnv_step_inj_byte: "fnv_step h b = fnv_step h b' \<longleftrightarrow> b = b'"
proof
  assume "fnv_step h b = fnv_step h b'"
  then have "(h XOR ucast b) * (fnv_prime * 899433627) = (h XOR ucast b') * (fnv_prime * 899433627)"
    by (simp add: fnv_step_def flip: mult.assoc)
  then have "h XOR ucast b = h XOR ucast b'" by (simp add: fnv_prime_inverse)
  then have "h XOR (h XOR ucast b) = h XOR (h XOR ucast b')" by simp
  then have "(ucast b :: 32 word) = ucast b'"
    by (simp only: xor.assoc [symmetric] xor_self_eq xor.left_neutral)
  then have "unat b mod 2 ^ 32 = unat b' mod 2 ^ 32"
    by (simp add: unsigned_ucast_eq word_unat_eq_iff take_bit_eq_mod)
  then show "b = b'" using byte_less [of b] byte_less [of b'] by (simp add: word_unat_eq_iff)
qed simp

lemma foldl_fnv_inj: "foldl fnv_step h bs = foldl fnv_step h' bs \<longleftrightarrow> h = h'"
  by (induction bs arbitrary: h h') (simp_all add: fnv_step_inj_hash)

text \<open>What EVP documents, for a digest \<open>H\<close>: an initialised context has absorbed nothing, an update that
  succeeds absorbs its bytes after the earlier ones, and the final call, when it succeeds, gives the
  digest of what was absorbed. Of calls that fail nothing is said.\<close>

definition evp_digests :: "'c evp \<Rightarrow> ('c \<Rightarrow> byte list) \<Rightarrow> (byte list \<Rightarrow> byte list) \<Rightarrow> bool" where
  "evp_digests e absorbed H \<longleftrightarrow>
     (\<forall>c c'. evp_init e c = Some c' \<longrightarrow> absorbed c' = []) \<and>
     (\<forall>c b c'. evp_update e c b = Some c' \<longrightarrow> absorbed c' = absorbed c @ b) \<and>
     (\<forall>c h. evp_final e c = Some h \<longrightarrow> h = H (absorbed c))"

definition evp_never_fails :: "'c evp \<Rightarrow> bool" where
  "evp_never_fails e \<longleftrightarrow> evp_new e \<noteq> None \<and> (\<forall>c. evp_init e c \<noteq> None) \<and>
     (\<forall>c b. evp_update e c b \<noteq> None) \<and> (\<forall>c. evp_final e c \<noteq> None)"

definition evp_errors :: "string list" where
  "evp_errors = [''Failed to create EVP_MD_CTX'', ''EVP_DigestInit_ex failed'',
     ''EVP_DigestUpdate failed'', ''EVP_DigestFinal_ex failed'']"

lemma evp_start_result:
  assumes "evp_digests e absorbed H"
  shows "(\<exists>c. evp_start e = Ret c \<and> absorbed c = []) \<or>
    (\<exists>m\<in>set evp_errors. evp_start e = evp_throw m) \<and> \<not> evp_never_fails e"
  using assms by (auto simp: evp_start_def evp_errors_def evp_digests_def evp_never_fails_def split: option.split)

lemma add_chunks_result:
  assumes "evp_digests e absorbed H"
  shows "(\<exists>c'. add_chunks e bs c = Ret c' \<and> absorbed c' = absorbed c @ concat bs) \<or>
    (\<exists>m\<in>set evp_errors. add_chunks e bs c = evp_throw m) \<and> \<not> evp_never_fails e"
proof (induction bs arbitrary: c)
  case (Cons b bs)
  show ?case
  proof (cases "evp_update e c b")
    case None
    then show ?thesis by (simp add: evp_add_def evp_throw_def evp_errors_def evp_never_fails_def) blast
  next
    case (Some c')
    then have "absorbed c' = absorbed c @ b" using assms by (simp add: evp_digests_def)
    then show ?thesis using Cons.IH [of c'] Some by (simp add: evp_add_def)
  qed
qed simp

lemma evp_finish_result:
  assumes "evp_digests e absorbed H"
  shows "evp_finish e c = Ret (hex_encode (H (absorbed c))) \<or>
    (\<exists>m\<in>set evp_errors. evp_finish e c = evp_throw m) \<and> \<not> evp_never_fails e"
  using assms by (auto simp: evp_finish_def evp_errors_def evp_digests_def evp_never_fails_def split: option.split)

text \<open>The digest of a sequence of chunks.\<close>

lemma digest_chunks:
  assumes "evp_digests e absorbed H"
  shows "obind (obind (evp_start e) (add_chunks e bs)) (evp_finish e) = Ret (hex_encode (H (concat bs))) \<or>
    (\<exists>m\<in>set evp_errors. obind (obind (evp_start e) (add_chunks e bs)) (evp_finish e) = evp_throw m) \<and>
      \<not> evp_never_fails e"
  using evp_start_result [OF assms]
proof
  assume "\<exists>c. evp_start e = Ret c \<and> absorbed c = []"
  then obtain c where c: "evp_start e = Ret c" "absorbed c = []" by blast
  from add_chunks_result [OF assms, of bs c] show ?thesis
  proof
    assume "\<exists>c'. add_chunks e bs c = Ret c' \<and> absorbed c' = absorbed c @ concat bs"
    then obtain c' where "add_chunks e bs c = Ret c'" "absorbed c' = concat bs" using c(2) by auto
    then show ?thesis using c evp_finish_result [OF assms, of c'] by simp
  next
    assume "(\<exists>m\<in>set evp_errors. add_chunks e bs c = evp_throw m) \<and> \<not> evp_never_fails e"
    then show ?thesis using c by (auto simp: evp_throw_def)
  qed
qed (auto simp: evp_throw_def)

lemma concat_read_chunks: "concat (read_chunks bs) = bs"
  by (induction bs rule: read_chunks.induct) (subst read_chunks.simps, simp)

section \<open>Properties\<close>

text \<open>decoding undoes encoding for every byte sequence, and an encoding has two characters
  per byte.\<close>

theorem hex_roundtrip:
  "hex_decode (hex_encode bs) = bs \<and> length (hex_encode bs) = 2 * length bs"
  using decode_encode [of "[]" bs] by (simp add: hex_decode_def length_hex_encode)

text \<open>two inputs of the same length that differ in exactly one byte never have the same
  FNV-1a hash.\<close>

theorem fnv1a_detects_single_byte:
  "(fnv1a_uint32 (pre @ b # post) = fnv1a_uint32 (pre @ b' # post)) = (b = b')"
  by (simp add: fnv1a_uint32_def foldl_fnv_inj fnv_step_inj_byte)

text \<open>C36: hashing a file in chunks and hashing the bytes the file delivered at once end in the same
  text, the digest of these bytes, or each in an exception of the library; when no call of the library
  fails both end in that digest. A read that fails is not noticed: the hash is then that of the bytes
  before it.\<close>

theorem sha256_file_is_sha256:
  assumes "evp_digests e absorbed H" and "files path = Some f"
  shows "(sha256_file e files path = Ret (hex_encode (H (read_bytes f))) \<or>
      (\<exists>m\<in>set evp_errors. sha256_file e files path = evp_throw m)) \<and>
    (sha256 e (read_bytes f) = Ret (hex_encode (H (read_bytes f))) \<or>
      (\<exists>m\<in>set evp_errors. sha256 e (read_bytes f) = evp_throw m)) \<and>
    (evp_never_fails e \<longrightarrow> sha256_file e files path = Ret (hex_encode (H (read_bytes f))) \<and>
      sha256 e (read_bytes f) = Ret (hex_encode (H (read_bytes f))))"
proof -
  have "evp_add e (read_bytes f) = add_chunks e [read_bytes f]"
    by (rule ext) (simp add: evp_add_def evp_throw_def split: option.split)
  then have "sha256 e (read_bytes f) = obind (obind (evp_start e) (add_chunks e [read_bytes f])) (evp_finish e)"
    by (simp add: sha256_def)
  then show ?thesis
    using digest_chunks [OF assms(1), of "[read_bytes f]"] assms(2)
      digest_chunks [OF assms(1), of "read_chunks (read_bytes f)"]
    by (auto simp: sha256_file_def concat_read_chunks)
qed

text \<open>A digest that keeps all bytes and returns the last four; a file whose last bytes cannot be read.\<close>

definition last_bytes :: "byte list \<Rightarrow> byte list" where
  "last_bytes b = rev (take 4 (rev b))"

definition last_four :: "byte list evp" where
  "last_four = \<lparr>evp_new = Some [], evp_init = (\<lambda>c. Some []), evp_update = (\<lambda>c b. Some (c @ b)),
     evp_final = (\<lambda>c. Some (last_bytes c))\<rparr>"

theorem sha256_file_is_sha256_witness:
  "sha256_file last_four (\<lambda>_. Some \<lparr>on_disk = replicate 5000 7 @ [8], delivered = 5000\<rparr>) ''f'' =
     Ret (hex_encode (last_bytes (replicate 5000 7)))"
proof -
  have "evp_digests last_four id last_bytes" "evp_never_fails last_four"
    by (simp_all add: evp_digests_def evp_never_fails_def last_four_def)
  moreover have "read_bytes \<lparr>on_disk = replicate 5000 7 @ [8], delivered = 5000\<rparr> = replicate 5000 7"
    by (simp add: read_bytes_def)
  ultimately show ?thesis
    using sha256_file_is_sha256 [of last_four id last_bytes
        "\<lambda>_. Some \<lparr>on_disk = replicate 5000 7 @ [8], delivered = 5000\<rparr>" "''f''"]
    by auto
qed

end
