(* ===== verification/Metrics.thy ===== *)
theory Metrics
  imports Cpp_Numbers Ordered_Map
begin

text \<open>
  \<open>util/Metrics.h\<close> and \<open>util/Metrics.cpp\<close>: what is recorded per debate and the reports made from
  it. Every method locks \<open>mutex_\<close>, which is not recursive, so each operation takes a Boolean
  that says whether the calling thread holds it already; then the call is \<open>Blocked\<close>.
  A \<open>double\<close> is a rational number here: sums and quotients are exact, and two-digit output
  rounds the exact value half to even.
\<close>

record debate_metrics =
  query_hash :: string
  dm_rounds_completed :: int
  total_tokens_used :: int
  duration_ms :: rat
  first_response_ms :: rat
  success :: bool
  dm_error :: string
  llm_provider :: string

definition debate_metrics_default :: debate_metrics where
  "debate_metrics_default = \<lparr>query_hash = [], dm_rounds_completed = 0, total_tokens_used = 0,
     duration_ms = 0, first_response_ms = 0, success = True, dm_error = [], llm_provider = []\<rparr>"

record provider_metrics =
  provider :: string
  queries_total :: int
  queries_success :: int
  queries_failed :: int
  tokens_total :: int
  latency_ms_avg :: rat
  latency_ms_max :: rat

record time_series_point =
  timestamp_ms :: int
  point_value :: rat

record percentile_stats =
  p50 :: rat
  p95 :: rat
  p99 :: rat

record metrics =
  debates :: "debate_metrics list"
  provider_latencies :: "(string, rat list) omap"
  timeseries_data :: "(string, time_series_point list) omap"
  token_usage :: "int list"

definition new_metrics :: metrics where
  "new_metrics = \<lparr>debates = [], provider_latencies = [], timeseries_data = [], token_usage = []\<rparr>"

text \<open>\<open>std::lock_guard<std::mutex> lock(mutex_)\<close> around a body that runs with the mutex held.\<close>

definition with_lock :: "bool \<Rightarrow> (bool \<Rightarrow> 'a outcome) \<Rightarrow> 'a outcome" where
  "with_lock held body = (if held then Blocked else body True)"

definition record_debate :: "bool \<Rightarrow> debate_metrics \<Rightarrow> metrics \<Rightarrow> metrics outcome" where
  "record_debate held d m = with_lock held (\<lambda>_.
     (let m1 = m\<lparr>debates := debates m @ [d]\<rparr>
      in Ret (if llm_provider d \<noteq> []
              then m1\<lparr>provider_latencies :=
                     om_put (llm_provider d)
                       ((case map_of (provider_latencies m) (llm_provider d) of
                           None \<Rightarrow> [] | Some ls \<Rightarrow> ls) @ [duration_ms d])
                       (provider_latencies m)\<rparr>
              else m1)))"

definition new_provider_metrics :: "string \<Rightarrow> provider_metrics" where
  "new_provider_metrics p = \<lparr>provider = p, queries_total = 0, queries_success = 0,
     queries_failed = 0, tokens_total = 0, latency_ms_avg = 0, latency_ms_max = 0\<rparr>"

definition count_debate :: "string \<Rightarrow> provider_metrics \<Rightarrow> debate_metrics \<Rightarrow> provider_metrics" where
  "count_debate p st d =
     (if llm_provider d = p
      then st\<lparr>queries_total := queries_total st + 1,
              queries_success := queries_success st + (if success d then 1 else 0),
              queries_failed := queries_failed st + (if success d then 0 else 1),
              tokens_total := tokens_total st + total_tokens_used d,
              latency_ms_max := max (latency_ms_max st) (duration_ms d)\<rparr>
      else st)"

definition get_provider_stats :: "bool \<Rightarrow> string \<Rightarrow> metrics \<Rightarrow> provider_metrics outcome" where
  "get_provider_stats held p m = with_lock held (\<lambda>_.
     (let st = foldl (count_debate p) (new_provider_metrics p) (debates m)
      in Ret (if queries_total st > 0
              then st\<lparr>latency_ms_avg :=
                     foldl (\<lambda>t d. if llm_provider d = p then t + duration_ms d else t) 0 (debates m)
                       / of_int (queries_total st)\<rparr>
              else st)))"

fun collect_stats ::
  "bool \<Rightarrow> metrics \<Rightarrow> debate_metrics list \<Rightarrow> (string, provider_metrics) omap \<Rightarrow>
   (string, provider_metrics) omap outcome" where
  "collect_stats held m [] acc = Ret acc"
| "collect_stats held m (d # ds) acc =
     (if map_of acc (llm_provider d) = None
      then obind (get_provider_stats held (llm_provider d) m)
             (\<lambda>st. collect_stats held m ds (om_put (llm_provider d) st acc))
      else collect_stats held m ds acc)"

definition get_all_stats :: "bool \<Rightarrow> metrics \<Rightarrow> provider_metrics list outcome" where
  "get_all_stats held m = with_lock held (\<lambda>held'.
     omap (map snd) (collect_stats held' m (debates m) []))"

section \<open>Reports\<close>

text \<open>\<open>std::fixed << std::setprecision(2)\<close>.\<close>

definition fixed2 :: "rat \<Rightarrow> string" where
  "fixed2 x =
     (let n = nat (round_half_even (\<bar>x\<bar> * 100))
      in (if x < 0 then ''-'' else []) @ show_nat (n div 100) @ ''.'' @
         [digit_char (n mod 100 div 10), digit_char (n mod 10)])"

definition line :: "string \<Rightarrow> string" where
  "line s = s @ [newline]"

definition count_success :: "metrics \<Rightarrow> int" where
  "count_success m = foldl (\<lambda>n d. if success d then n + 1 else n) 0 (debates m)"

definition sum_tokens :: "metrics \<Rightarrow> int" where
  "sum_tokens m = foldl (\<lambda>n d. n + total_tokens_used d) 0 (debates m)"

definition provider_line :: "string \<Rightarrow> provider_metrics \<Rightarrow> string \<Rightarrow> string" where
  "provider_line name st v =
     line (name @ ''{provider='' @ [quote] @ provider st @ [quote] @ ''} '' @ v)"

definition prometheus_provider :: "provider_metrics \<Rightarrow> string" where
  "prometheus_provider st =
     line (''# Provider: '' @ provider st) @
     provider_line ''tribunal_provider_queries'' st (show_int (queries_total st)) @
     provider_line ''tribunal_provider_success'' st (show_int (queries_success st)) @
     provider_line ''tribunal_provider_failed'' st (show_int (queries_failed st)) @
     provider_line ''tribunal_provider_tokens'' st (show_int (tokens_total st)) @
     provider_line ''tribunal_provider_latency_avg'' st (fixed2 (latency_ms_avg st)) @
     provider_line ''tribunal_provider_latency_max'' st (fixed2 (latency_ms_max st)) @ [newline]"

definition get_prometheus_text :: "bool \<Rightarrow> metrics \<Rightarrow> string outcome" where
  "get_prometheus_text held m = with_lock held (\<lambda>held'.
     obind (get_all_stats held' m) (\<lambda>all.
       (let n = int (length (debates m)); ok = count_success m
        in Ret (
          line ''# HELP tribunal_debates_total Total number of debates'' @
          line ''# TYPE tribunal_debates_total counter'' @
          line (''tribunal_debates_total '' @ show_int n) @ [newline] @
          line ''# HELP tribunal_debates_success Total successful debates'' @
          line ''# TYPE tribunal_debates_success counter'' @
          line (''tribunal_debates_success '' @ show_int ok) @ [newline] @
          line ''# HELP tribunal_debates_failed Total failed debates'' @
          line ''# TYPE tribunal_debates_failed counter'' @
          line (''tribunal_debates_failed '' @ show_int (n - ok)) @ [newline] @
          concat (map prometheus_provider all) @
          line ''# HELP tribunal_tokens_total Total tokens used across all providers'' @
          line ''# TYPE tribunal_tokens_total counter'' @
          line (''tribunal_tokens_total '' @ show_int (sum_tokens m))))))"

definition json_field :: "string \<Rightarrow> string \<Rightarrow> string \<Rightarrow> string" where
  "json_field indent name v = indent @ [quote] @ name @ [quote] @ '': '' @ v"

definition json_provider :: "provider_metrics \<Rightarrow> string" where
  "json_provider st =
     (let f = json_field ''      ''
      in line ''    {'' @
         line (f ''provider'' ([quote] @ provider st @ [quote]) @ '','') @
         line (f ''queries_total'' (show_int (queries_total st)) @ '','') @
         line (f ''queries_success'' (show_int (queries_success st)) @ '','') @
         line (f ''queries_failed'' (show_int (queries_failed st)) @ '','') @
         line (f ''tokens_total'' (show_int (tokens_total st)) @ '','') @
         line (f ''latency_avg_ms'' (fixed2 (latency_ms_avg st)) @ '','') @
         line (f ''latency_max_ms'' (fixed2 (latency_ms_max st))) @ ''    }'')"

fun json_providers :: "provider_metrics list \<Rightarrow> string" where
  "json_providers [] = []"
| "json_providers [st] = json_provider st @ [newline]"
| "json_providers (st # sts) = json_provider st @ '','' @ [newline] @ json_providers sts"

definition get_json_summary :: "bool \<Rightarrow> metrics \<Rightarrow> string outcome" where
  "get_json_summary held m = with_lock held (\<lambda>held'.
     obind (get_all_stats held' m) (\<lambda>all.
       (let n = length (debates m); ok = count_success m; f = json_field ''  '';
            duration = foldl (\<lambda>t d. t + duration_ms d) 0 (debates m)
        in Ret (
          line ''{'' @
          line (f ''debates_total'' (show_nat n) @ '','') @
          line (f ''debates_successful'' (show_int ok) @ '','') @
          line (f ''debates_failed'' (show_int (int n - ok)) @ '','') @
          line (f ''success_rate''
                  (fixed2 (if n > 0 then 100 * of_int ok / of_nat n else 0)) @ '','') @
          line (f ''tokens_total'' (show_int (sum_tokens m)) @ '','') @
          line (f ''duration_total_ms'' (fixed2 duration) @ '','') @
          line (f ''duration_avg_ms'' (fixed2 (if n > 0 then duration / of_nat n else 0)) @ '','') @
          line (f ''providers'' ''['') @ json_providers all @
          line ''  ]'' @ line ''}''))))"

section \<open>Percentiles, time series, histogram\<close>

text \<open>The start of the window; the product is computed in \<open>int\<close>. \<open>now\<close> is the clock in
  milliseconds since the epoch.\<close>

definition cutoff_ms :: "int \<Rightarrow> int \<Rightarrow> int outcome" where
  "cutoff_ms now hours =
     (if hours > 0
      then obind (checked_int (hours * 3600)) (\<lambda>s. omap (\<lambda>ms. now - ms) (checked_int (s * 1000)))
      else Ret 0)"

definition provider_durations :: "string \<Rightarrow> metrics \<Rightarrow> rat list" where
  "provider_durations p m = [duration_ms d. d \<leftarrow> debates m, llm_provider d = p]"

definition get_percentiles ::
  "bool \<Rightarrow> int \<Rightarrow> string \<Rightarrow> int \<Rightarrow> metrics \<Rightarrow> percentile_stats outcome" where
  "get_percentiles held now p hours m = with_lock held (\<lambda>_.
     obind (cutoff_ms now hours) (\<lambda>_.
       (let latencies = provider_durations p m
        in if latencies = [] then Ret \<lparr>p50 = 0, p95 = 0, p99 = 0\<rparr>
           else (let sorted_ls = sort latencies; n = length latencies
                 in Ret \<lparr>p50 = sorted_ls ! (n div 2), p95 = sorted_ls ! (95 * n div 100),
                         p99 = sorted_ls ! (99 * n div 100)\<rparr>))))"

definition trunc_rat :: "rat \<Rightarrow> int" where
  "trunc_rat x = (if x < 0 then \<lceil>x\<rceil> else \<lfloor>x\<rfloor>)"

text \<open>\<open>duration_ms / bucket_size\<close> divides two floating-point numbers.\<close>

definition bucket_key :: "rat \<Rightarrow> int" where
  "bucket_key d = trunc_rat (d / 60000 * 60000)"

definition add_to_bucket :: "(int, rat list) omap \<Rightarrow> rat \<Rightarrow> (int, rat list) omap" where
  "add_to_bucket b d =
     om_put (bucket_key d) ((case map_of b (bucket_key d) of None \<Rightarrow> [] | Some vs \<Rightarrow> vs) @ [d]) b"

definition get_timeseries ::
  "bool \<Rightarrow> int \<Rightarrow> string \<Rightarrow> int \<Rightarrow> metrics \<Rightarrow> time_series_point list outcome" where
  "get_timeseries held now p hours m = with_lock held (\<lambda>_.
     omap (\<lambda>cutoff.
       (let kept = filter (\<lambda>d. hours = 0 \<or> d \<ge> of_int cutoff) (provider_durations p m)
        in map (\<lambda>(k, vs). \<lparr>timestamp_ms = k, point_value = sum_list vs / of_nat (length vs)\<rparr>)
             (foldl add_to_bucket [] kept)))
       (cutoff_ms now hours))"

fun fill_histogram :: "debate_metrics list \<Rightarrow> int list \<Rightarrow> int list outcome" where
  "fill_histogram [] h = Ret h"
| "fill_histogram (d # ds) h =
     (let bin = cdiv (total_tokens_used d) 500
      in if bin < 100
         then if bin < 0 then Undef ''write before the start of the histogram''
              else fill_histogram ds (h[nat bin := h ! nat bin + 1])
         else fill_histogram ds h)"

definition get_token_distribution :: "bool \<Rightarrow> int \<Rightarrow> int \<Rightarrow> metrics \<Rightarrow> int list outcome" where
  "get_token_distribution held now hours m = with_lock held (\<lambda>_.
     obind (cutoff_ms now hours) (\<lambda>_. fill_histogram (debates m) (replicate 100 0)))"

definition metrics_reset :: "bool \<Rightarrow> metrics \<Rightarrow> metrics outcome" where
  "metrics_reset held m = with_lock held (\<lambda>_. Ret new_metrics)"

section \<open>Lemmas\<close>

lemma with_lock_held [simp]: "with_lock True body = Blocked"
  by (simp add: with_lock_def)

lemma collect_stats_blocks: "ds \<noteq> [] \<Longrightarrow> collect_stats True m ds [] = Blocked"
  by (cases ds) (simp_all add: get_provider_stats_def)

lemma get_all_stats_blocks:
  "get_all_stats False m = (if debates m = [] then Ret [] else Blocked)"
  by (simp add: get_all_stats_def with_lock_def collect_stats_blocks)

lemma fill_histogram_length: "fill_histogram ds h = Ret h' \<Longrightarrow> length h' = length h"
  by (induction ds arbitrary: h) (auto simp: Let_def split: if_splits)

text \<open>The debates whose token count falls into a bin of the histogram.\<close>

definition in_bin :: "nat \<Rightarrow> debate_metrics \<Rightarrow> bool" where
  "in_bin b d \<longleftrightarrow> 500 * int b \<le> total_tokens_used d \<and> total_tokens_used d < 500 * int b + 500"

lemma in_bin_iff: "0 \<le> total_tokens_used d \<Longrightarrow> in_bin b d \<longleftrightarrow> total_tokens_used d div 500 = int b"
  unfolding in_bin_def by linarith

lemma fill_histogram_counts:
  assumes "\<forall>d\<in>set ds. 0 \<le> total_tokens_used d" and "length h = 100"
  shows "\<exists>h'. fill_histogram ds h = Ret h' \<and> length h' = 100 \<and>
    (\<forall>b<100. h' ! b = h ! b + int (length (filter (in_bin b) ds)))"
  using assms
proof (induction ds arbitrary: h)
  case (Cons d ds)
  let ?bin = "total_tokens_used d div 500"
  have nn: "0 \<le> ?bin" and bin: "cdiv (total_tokens_used d) 500 = ?bin"
    using Cons.prems by (simp_all add: cdiv_nonneg pos_imp_zdiv_nonneg_iff)
  define h1 where "h1 = (if ?bin < 100 then h[nat ?bin := h ! nat ?bin + 1] else h)"
  have unf: "fill_histogram (d # ds) h = fill_histogram ds h1"
    using nn bin by (simp add: h1_def Let_def)
  have "h1 ! b = h ! b + (if in_bin b d then 1 else 0)" if "b < 100" for b
    using that nn Cons.prems in_bin_iff [of d b]
    by (cases "nat ?bin = b") (auto simp: h1_def nth_list_update)
  moreover have "length h1 = 100" using Cons.prems(2) by (simp add: h1_def)
  moreover from this obtain h' where "fill_histogram ds h1 = Ret h'" "length h' = 100"
    "\<forall>b<100. h' ! b = h1 ! b + int (length (filter (in_bin b) ds))"
    using Cons.IH [of h1] Cons.prems(1) by auto
  ultimately show ?case unfolding unf by (intro exI [of _ h']) auto
qed simp

end
