(* ===== verification/Metrics_Properties.thy ===== *)
theory Metrics_Properties
  imports Metrics
begin

text \<open>
  What the recorded metrics say: the exact statistics per provider, percentiles that are
  recorded values of the right rank, the token histogram; and which reports never return.
\<close>

section \<open>Reports that lock twice\<close>

text \<open>a thread that asks for the statistics of all providers waits for the mutex it holds
  itself as soon as one debate has been recorded; with none the result is empty. The Prometheus
  text and the JSON summary, which lock before asking for those statistics, never return.\<close>

theorem metrics_reports_deadlock:
  "get_all_stats False m = (if debates m = [] then Ret [] else Blocked) \<and>
   get_prometheus_text False m = Blocked \<and> get_json_summary False m = Blocked"
  by (simp add: get_all_stats_blocks)
    (simp add: get_prometheus_text_def get_json_summary_def get_all_stats_def with_lock_def)

section \<open>Statistics of one provider\<close>

definition debates_of :: "string \<Rightarrow> metrics \<Rightarrow> debate_metrics list" where
  "debates_of p m = filter (\<lambda>d. llm_provider d = p) (debates m)"

lemma foldl_filter: "foldl (\<lambda>a x. if P x then f a x else a) a xs = foldl f a (filter P xs)"
  by (induction xs arbitrary: a) auto

lemma foldl_plus: "foldl (\<lambda>t d. t + f d) a xs = a + (\<Sum>d\<leftarrow>xs. f d :: rat)"
  by (induction xs arbitrary: a) (auto simp: algebra_simps)

lemma count_debates:
  "foldl (count_debate p) st ds =
   (let D = filter (\<lambda>d. llm_provider d = p) ds
    in st\<lparr>queries_total := queries_total st + int (length D),
          queries_success := queries_success st + int (length (filter success D)),
          queries_failed := queries_failed st + int (length (filter (\<lambda>d. \<not> success d) D)),
          tokens_total := tokens_total st + (\<Sum>d\<leftarrow>D. total_tokens_used d),
          latency_ms_max := foldl max (latency_ms_max st) (map duration_ms D)\<rparr>)"
  by (induction ds arbitrary: st) (simp_all add: count_debate_def Let_def algebra_simps)

lemma foldl_max: "foldl max a (xs :: rat list) = Max (set (a # xs))"
  by (simp add: foldl_conv_fold max.commute Max.set_eq_fold del: list.set)

text \<open>the statistics of a provider are exactly those of its debates: the counts, of which
  the failures and successes add up, the tokens, the average and the largest duration.\<close>

theorem provider_stats_exact:
  "\<exists>st. get_provider_stats False p m = Ret st \<and> provider st = p \<and>
    queries_total st = int (length (debates_of p m)) \<and>
    queries_success st = int (length (filter success (debates_of p m))) \<and>
    queries_failed st = queries_total st - queries_success st \<and>
    tokens_total st = (\<Sum>d\<leftarrow>debates_of p m. total_tokens_used d) \<and>
    latency_ms_max st = Max (insert 0 (duration_ms ` set (debates_of p m))) \<and>
    latency_ms_avg st * of_int (queries_total st) = (\<Sum>d\<leftarrow>debates_of p m. duration_ms d)"
proof -
  have split: "int (length (filter (\<lambda>d. \<not> success d) D)) =
      int (length D) - int (length (filter success D))" for D
    using sum_length_filter_compl [of success D] by linarith
  have sum: "foldl (\<lambda>t d. if llm_provider d = p then t + duration_ms d else t) 0 (debates m) =
      (\<Sum>d\<leftarrow>debates_of p m. duration_ms d)"
    unfolding foldl_filter foldl_plus debates_of_def by simp
  show ?thesis
    unfolding get_provider_stats_def with_lock_def count_debates sum Let_def if_False
      debates_of_def [symmetric] new_provider_metrics_def
    using split [of "debates_of p m"]
    by (cases "debates_of p m = []") (auto simp: foldl_max)
qed

section \<open>Percentiles\<close>

lemma provider_durations_debates: "provider_durations p m = map duration_ms (debates_of p m)"
proof -
  have "[duration_ms d. d \<leftarrow> ds, llm_provider d = p] =
      map duration_ms (filter (\<lambda>d. llm_provider d = p) ds)" for ds
    by (induction ds) auto
  then show ?thesis by (simp only: provider_durations_def debates_of_def)
qed

lemma rank_count:
  assumes "sorted xs" and "k < length xs"
  shows "k < length (filter (\<lambda>x. x \<le> xs ! k) xs)"
proof -
  have "\<forall>x\<in>set (take (Suc k) xs). x \<le> xs ! k"
    using assms by (auto simp: in_set_conv_nth sorted_nth_mono)
  then have "filter (\<lambda>x. x \<le> xs ! k) (take (Suc k) xs) = take (Suc k) xs"
    by (simp add: filter_id_conv)
  then have "length (take (Suc k) xs) \<le> length (filter (\<lambda>x. x \<le> xs ! k) xs)"
    by (metis append_take_drop_id filter_append le_add1 length_append)
  with assms(2) show ?thesis by simp
qed

text \<open>At least \<open>q\<close> percent of the values are at most \<open>v\<close>.\<close>

definition covers :: "nat \<Rightarrow> rat list \<Rightarrow> rat \<Rightarrow> bool" where
  "covers q xs v \<longleftrightarrow> v \<in> set xs \<and> q * length xs < 100 * length (filter (\<lambda>x. x \<le> v) xs)"

lemma covers_rank:
  assumes "xs \<noteq> []" and "q < 100"
  shows "covers q xs (sort xs ! (q * length xs div 100))"
proof -
  let ?k = "q * length xs div 100"
  have k: "?k < length (sort xs)" using assms by (simp add: div_less_iff_less_mult mult.commute)
  have "length (filter (\<lambda>x. x \<le> sort xs ! ?k) (sort xs)) = length (filter (\<lambda>x. x \<le> sort xs ! ?k) xs)"
    by (simp add: filter_sort)
  then have "?k < length (filter (\<lambda>x. x \<le> sort xs ! ?k) xs)"
    using rank_count [OF sorted_sort k] by simp
  then have "q * length xs < 100 * length (filter (\<lambda>x. x \<le> sort xs ! ?k) xs)" by linarith
  then show ?thesis using nth_mem [OF k] by (simp add: covers_def)
qed

text \<open>for a provider with recorded debates the percentiles are recorded durations in
  increasing order, and at least 50, 95 and 99 percent of the durations are at most the
  respective value; without debates all three are 0.\<close>

theorem percentiles_rank:
  "\<exists>st. get_percentiles False now p 0 m = Ret st \<and>
    (if provider_durations p m = [] then p50 st = 0 \<and> p95 st = 0 \<and> p99 st = 0
     else p50 st \<le> p95 st \<and> p95 st \<le> p99 st \<and> covers 50 (provider_durations p m) (p50 st) \<and>
       covers 95 (provider_durations p m) (p95 st) \<and> covers 99 (provider_durations p m) (p99 st))"
proof (cases "provider_durations p m = []")
  case True
  then show ?thesis by (simp add: get_percentiles_def with_lock_def cutoff_ms_def Let_def)
next
  case False
  let ?xs = "provider_durations p m"
  let ?n = "length ?xs"
  have n: "0 < ?n" using False by simp
  have half: "?n div 2 = 50 * ?n div 100" by simp
  have a: "?n div 2 \<le> 95 * ?n div 100" unfolding half by (rule div_le_mono) simp
  have b: "95 * ?n div 100 \<le> 99 * ?n div 100" by (rule div_le_mono) simp
  have c: "99 * ?n div 100 < length (sort ?xs)" using n by (simp add: div_less_iff_less_mult)
  have mono: "sort ?xs ! (?n div 2) \<le> sort ?xs ! (95 * ?n div 100)"
    "sort ?xs ! (95 * ?n div 100) \<le> sort ?xs ! (99 * ?n div 100)"
    by (rule sorted_nth_mono [OF sorted_sort a le_less_trans [OF b c]],
        rule sorted_nth_mono [OF sorted_sort b c])
  show ?thesis
    using False mono covers_rank [OF False, of 50] covers_rank [OF False, of 95]
      covers_rank [OF False, of 99]
    by (simp add: get_percentiles_def with_lock_def cutoff_ms_def Let_def half [symmetric])
qed

section \<open>Token histogram\<close>

text \<open>If no token count is negative, the histogram has 100 bins and each counts exactly the
  debates with that many times 500 tokens; those with 50000 tokens or more are not counted.\<close>

theorem histogram_exact:
  assumes "\<forall>d\<in>set (debates m). 0 \<le> total_tokens_used d"
  shows "\<exists>h. get_token_distribution False now 0 m = Ret h \<and> length h = 100 \<and>
    (\<forall>b<100. h ! b = int (length (filter (in_bin b) (debates m))))"
  using fill_histogram_counts [OF assms, of "replicate 100 0"]
  by (simp add: get_token_distribution_def with_lock_def cutoff_ms_def)

end
