(* ===== verification/Ollama.thy ===== *)
theory Ollama
  imports LLM_Client Cpp_Numbers
begin

text \<open>
  \<open>llm/OllamaClient.cpp\<close>. The network behind libcurl is a parameter, a record of two functions
  of the state of the world: whether \<open>curl_easy_init\<close> gives a handle, and what
  \<open>curl_easy_perform\<close> gives for a request, with the new world. A client keeps one curl handle; of the options that survive on it only \<open>CURLOPT_POSTFIELDS\<close> matters,
  because it is set only for non-empty bodies, points into the caller's string and is never
  cleared. \<open>post_stale\<close> says that it points into a string that is gone.
\<close>

section \<open>The network\<close>

record http_request =
  hr_method :: string
  hr_url :: string
  hr_headers :: "string list"
  hr_body :: string
  hr_timeout :: int

datatype http_result = Curl_error string | Http_reply int string

record 'w network =
  curl_init_ok :: "'w \<Rightarrow> bool"
  perform :: "http_request \<Rightarrow> 'w \<Rightarrow> http_result \<times> 'w"

section \<open>The client\<close>

record ollama_client =
  oc_base_url :: string
  oc_timeout :: int
  post_stale :: bool
  oc_last_error :: string

definition new_ollama :: "'w network \<Rightarrow> string \<Rightarrow> int \<Rightarrow> 'w \<Rightarrow> ollama_client outcome" where
  "new_ollama net base_url timeout w =
     (if curl_init_ok net w
      then Ret \<lparr>oc_base_url = base_url, oc_timeout = timeout, post_stale = False, oc_last_error = []\<rparr>
      else Throw (Exn Runtime_error ''Failed to initialize libcurl''))"

definition ollama_request_json :: "prompt_request \<Rightarrow> string" where \<open>
  ollama_request_json req =
     ''{"model":"'' @ req_model req @ ''","stream":false,"messages":['' @
     ''{"role":"system","content":"'' @ req_system_prompt req @ ''"},'' @
     ''{"role":"user","content":"'' @ req_user_message req @ ''"}]'' @
     '',"options":{"temperature":'' @ show_float (req_temperature req) @
     '',"num_predict":'' @ show_int (req_max_tokens req) @ ''}}''\<close>

definition content_pattern :: string where \<open>
  content_pattern = ''"content":"''\<close>

definition ollama_parse :: "string \<Rightarrow> string" where
  "ollama_parse json =
     (case extract_quoted content_pattern json of None \<Rightarrow> [] | Some t \<Rightarrow> t)"

definition ollama_http :: "ollama_client \<Rightarrow> string \<Rightarrow> string \<Rightarrow> http_request" where
  "ollama_http c endpoint payload =
     \<lparr>hr_method = (if payload = [] then ''GET'' else ''POST''), hr_url = oc_base_url c @ endpoint,
      hr_headers = [''Content-Type: application/json''], hr_body = payload,
      hr_timeout = oc_timeout c\<rparr>"

text \<open>The HTTP status of a reply is not looked at.\<close>

definition ollama_make_request ::
  "'w network \<Rightarrow> string \<Rightarrow> string \<Rightarrow> ollama_client \<times> 'w \<Rightarrow> string outcome \<times> ollama_client \<times> 'w" where
  "ollama_make_request net endpoint payload s =
     (let (c, w) = s
      in if payload = [] \<and> post_stale c then (Undef ''request body in freed memory'', c, w)
         else (let c1 = c\<lparr>post_stale := post_stale c \<or> payload \<noteq> []\<rparr>
               in case perform net (ollama_http c endpoint payload) w of
                    (Http_reply code body, w') \<Rightarrow> (Ret body, c1, w')
                  | (Curl_error e, w') \<Rightarrow>
                      (Throw (Exn Runtime_error (''curl error: '' @ e)),
                       c1\<lparr>oc_last_error := ''curl error: '' @ e\<rparr>, w')))"

text \<open>\<open>try { ... } catch (const std::exception& e)\<close> around a call: the value on an exception.\<close>

fun catch_exn :: "(exn \<Rightarrow> 'a) \<Rightarrow> 'a outcome \<Rightarrow> 'a outcome" where
  "catch_exn h (Throw e) = Ret (h e)"
| "catch_exn h r = r"

definition ollama_query ::
  "'w network \<Rightarrow> prompt_request \<Rightarrow> ollama_client \<times> 'w \<Rightarrow>
   prompt_response outcome \<times> ollama_client \<times> 'w" where
  "ollama_query net req s =
     (let (r, s') = ollama_make_request net ''/api/chat'' (ollama_request_json req) s
      in (catch_exn (\<lambda>e. error_response (what e)) (omap (\<lambda>b. text_response (ollama_parse b)) r), s'))"

text \<open>The callback is passed on and never called; the second component lists its calls.\<close>

definition ollama_query_streaming ::
  "'w network \<Rightarrow> prompt_request \<Rightarrow> ollama_client \<times> 'w \<Rightarrow>
   (prompt_response outcome \<times> (string \<times> bool) list) \<times> ollama_client \<times> 'w" where
  "ollama_query_streaming net req s =
     (let (r, s') = ollama_make_request net ''/api/chat'' (ollama_request_json req) s
      in ((catch_exn (\<lambda>e. error_response (what e)) (omap (\<lambda>b. text_response (ollama_parse b)) r), []),
          s'))"

definition name_pattern :: string where \<open>
  name_pattern = ''"name":"''\<close>

function collect_names :: "string \<Rightarrow> nat \<Rightarrow> string list" where
  "collect_names response pos =
     (case str_find response name_pattern pos of
        None \<Rightarrow> []
      | Some p \<Rightarrow>
          (let start = p + length name_pattern
           in case str_find response [quote] start of
                None \<Rightarrow> collect_names response start
              | Some e \<Rightarrow> substr response start (e - start) # collect_names response (e + 1)))"
  by pat_completeness auto
termination
proof (relation "measure (\<lambda>(response, pos). Suc (length response) - pos)", goal_cases)
  case (2 response pos p start)
  then show ?case using str_find_Some(1,2) [of response name_pattern pos p]
    by (simp add: name_pattern_def)
next
  case (3 response pos p start e)
  then show ?case using str_find_Some(1,2) [of response name_pattern pos p]
      str_find_Some(1,2) [of response "[quote]" start e]
    by (simp add: name_pattern_def)
qed simp

declare collect_names.simps [simp del]

definition ollama_available_models ::
  "'w network \<Rightarrow> ollama_client \<times> 'w \<Rightarrow> string list outcome \<times> ollama_client \<times> 'w" where
  "ollama_available_models net s =
     (case ollama_make_request net ''/api/tags'' [] s of
        (Throw e, c, w) \<Rightarrow> (Ret [], c\<lparr>oc_last_error := what e\<rparr>, w)
      | (r, s') \<Rightarrow> (omap (\<lambda>body. collect_names body 0) r, s'))"

definition ollama_get_model_info ::
  "'w network \<Rightarrow> string \<Rightarrow> ollama_client \<times> 'w \<Rightarrow> string option outcome \<times> ollama_client \<times> 'w" where \<open>
  ollama_get_model_info net m s =
     (case ollama_make_request net ''/api/show'' (''{"model":"'' @ m @ ''"}'') s of
        (Throw e, c, w) \<Rightarrow> (Ret None, c\<lparr>oc_last_error := what e\<rparr>, w)
      | (r, s') \<Rightarrow> (omap (\<lambda>body. if body \<noteq> [] then Some body else None) r, s'))\<close>

definition ollama_is_available ::
  "'w network \<Rightarrow> ollama_client \<times> 'w \<Rightarrow> bool outcome \<times> ollama_client \<times> 'w" where
  "ollama_is_available net s =
     (let (r, s') = ollama_make_request net ''/api/tags'' [] s
      in (catch_exn (\<lambda>_. False) (omap (\<lambda>body. body \<noteq> []) r), s'))"

section \<open>The contract\<close>

lemma request_json_nonempty [simp]: "ollama_request_json req \<noteq> []"
  by (simp add: ollama_request_json_def)

text \<open>What a query gives, as a function of what the network gives.\<close>

definition ollama_reply :: "http_result \<Rightarrow> prompt_response" where
  "ollama_reply r =
     (case r of
        Http_reply code body \<Rightarrow> text_response (ollama_parse body)
      | Curl_error e \<Rightarrow> error_response (''curl error: '' @ e))"

lemma ollama_query_eq:
  "ollama_query net req (c, w) =
   (Ret (ollama_reply (fst (perform net (ollama_http c ''/api/chat'' (ollama_request_json req)) w))),
    c\<lparr>post_stale := True,
      oc_last_error :=
        (case fst (perform net (ollama_http c ''/api/chat'' (ollama_request_json req)) w) of
           Http_reply code body \<Rightarrow> oc_last_error c
         | Curl_error e \<Rightarrow> ''curl error: '' @ e)\<rparr>,
    snd (perform net (ollama_http c ''/api/chat'' (ollama_request_json req)) w))"
proof (cases "perform net (ollama_http c ''/api/chat'' (ollama_request_json req)) w")
  case (Pair r w')
  then show ?thesis
    by (cases r) (simp_all add: ollama_query_def ollama_make_request_def ollama_reply_def Let_def)
qed

lemma ollama_reply_error: "resp_error (ollama_reply r) \<noteq> [] \<Longrightarrow> resp_text (ollama_reply r) = []"
  by (simp add: ollama_reply_def response_defs split: http_result.splits)

interpretation ollama: llm_provider "ollama_query net" "\<lambda>_. True" for net :: "'w network"
proof
  fix req :: prompt_request and s :: "ollama_client \<times> 'w"
  show "\<exists>r. fst (ollama_query net req s) = Ret r"
    by (cases s) (simp add: ollama_query_eq)
  show "fst (ollama_query net req s) = Ret r \<Longrightarrow> resp_error r \<noteq> [] \<Longrightarrow> resp_text r = []" for r
    using ollama_reply_error by (cases s) (auto simp: ollama_query_eq)
qed simp

end
