(* ===== verification/Cloud_Clients.thy ===== *)
theory Cloud_Clients
  imports Ollama
begin

text \<open>
  \<open>llm/ClaudeClient.cpp\<close> and \<open>llm/GoogleAntigravityClient.cpp\<close>: the clients of the two hosted
  providers. Each request has a curl handle of its own. The environment is read through
  \<open>env\<close>, a function from variable names.
\<close>

section \<open>Claude\<close>

record claude_client =
  cc_api_key :: string
  cc_model :: string
  cc_timeout :: int
  cc_last_error :: string

definition new_claude ::
  "(string \<Rightarrow> string option) \<Rightarrow> string \<Rightarrow> string \<Rightarrow> int \<Rightarrow> claude_client" where
  "new_claude env key m timeout =
     \<lparr>cc_api_key = (if key = []
        then (case env ''CLAUDE_API_KEY'' of Some k \<Rightarrow> k | None \<Rightarrow> []) else key),
      cc_model = m, cc_timeout = timeout, cc_last_error = []\<rparr>"

definition claude_request_json :: "prompt_request \<Rightarrow> string" where \<open>
  claude_request_json req =
     ''{'' @ ''"model":"'' @ req_model req @ ''",'' @
     ''"max_tokens":'' @ show_int (req_max_tokens req) @ '','' @
     ''"system":"'' @ req_system_prompt req @ ''",'' @
     ''"messages":[{'' @ ''"role":"user",'' @
     ''"content":"'' @ req_user_message req @ ''"'' @ ''}]'' @ ''}''\<close>

definition text_pattern :: string where \<open>text_pattern = ''"text":"''\<close>

definition usage_pattern :: string where \<open>usage_pattern = ''"usage":''\<close>

definition input_pattern :: string where \<open>input_pattern = ''"input_tokens":''\<close>

definition output_pattern :: string where \<open>output_pattern = ''"output_tokens":''\<close>

text \<open>
  The sum of the two counts; the exceptions of \<open>stoi\<close> are swallowed, an overflow of the sum
  is not an exception.
\<close>

definition claude_tokens :: "string \<Rightarrow> int outcome" where
  "claude_tokens response =
     (case str_find response usage_pattern 0 of
        None \<Rightarrow> Ret 0
      | Some u \<Rightarrow>
          (case str_find response input_pattern u of
             None \<Rightarrow> Ret 0
           | Some i \<Rightarrow>
               (case str_find response output_pattern u of
                  None \<Rightarrow> Ret 0
                | Some out \<Rightarrow>
                    catch_exn (\<lambda>_. 0)
                      (obind (stoi (drop (i + 15) response)) (\<lambda>a.
                       obind (stoi (drop (out + 16) response)) (\<lambda>b. checked_int (a + b)))))))"

definition claude_parse :: "string \<Rightarrow> prompt_response outcome" where
  "claude_parse response =
     omap (\<lambda>n. prompt_response_default
             \<lparr>resp_text := (case extract_quoted text_pattern response of None \<Rightarrow> [] | Some t \<Rightarrow> t),
              resp_tokens_used := n\<rparr>)
       (claude_tokens response)"

definition claude_http :: "claude_client \<Rightarrow> string \<Rightarrow> string \<Rightarrow> string \<Rightarrow> http_request" where
  "claude_http c endpoint verb payload =
     \<lparr>hr_method = verb, hr_url = ''https://api.anthropic.com/v1'' @ endpoint,
      hr_headers = [''Content-Type: application/json'', ''x-api-key: '' @ cc_api_key c,
        ''anthropic-version: 2023-06-01''],
      hr_body = (if verb = ''POST'' then payload else []), hr_timeout = cc_timeout c\<rparr>"

text \<open>The part of a request that the two providers share, from the handle to the status code.\<close>

definition cloud_request ::
  "'w network \<Rightarrow> string \<Rightarrow> http_request \<Rightarrow> 'w \<Rightarrow> string outcome \<times> 'w" where
  "cloud_request net api hr w =
     (if \<not> curl_init_ok net w then (Throw (Exn Runtime_error ''Failed to initialize CURL''), w)
      else (case perform net hr w of
              (Curl_error e, w') \<Rightarrow> (Throw (Exn Runtime_error (''CURL error: '' @ e)), w')
            | (Http_reply code body, w') \<Rightarrow>
                (if code \<noteq> 200
                 then Throw (Exn Runtime_error (api @ '' returned HTTP '' @ show_int code @ '': '' @ body))
                 else Ret body, w')))"

definition claude_make_request ::
  "'w network \<Rightarrow> string \<Rightarrow> string \<Rightarrow> string \<Rightarrow> claude_client \<Rightarrow> 'w \<Rightarrow> string outcome \<times> 'w" where
  "claude_make_request net endpoint verb payload c w =
     (if cc_api_key c = [] then (Throw (Exn Runtime_error ''Claude API key not configured''), w)
      else cloud_request net ''Claude API'' (claude_http c endpoint verb payload) w)"

definition claude_query ::
  "'w network \<Rightarrow> prompt_request \<Rightarrow> claude_client \<times> 'w \<Rightarrow>
   prompt_response outcome \<times> claude_client \<times> 'w" where
  "claude_query net req s =
     (let (c, w) = s;
          (r, w') = claude_make_request net ''/messages'' ''POST'' (claude_request_json req) c w
      in case obind r claude_parse of
           Throw e \<Rightarrow> (Ret (error_response (what e)), c\<lparr>cc_last_error := what e\<rparr>, w')
         | resp \<Rightarrow> (resp, c, w'))"

text \<open>One callback with the whole text when the query reported no error.\<close>

definition stream_once :: "prompt_response outcome \<Rightarrow> (string \<times> bool) list" where
  "stream_once r =
     (case r of Ret resp \<Rightarrow> if resp_error resp = [] then [(resp_text resp, True)] else [] | _ \<Rightarrow> [])"

definition claude_query_streaming ::
  "'w network \<Rightarrow> prompt_request \<Rightarrow> claude_client \<times> 'w \<Rightarrow>
   (prompt_response outcome \<times> (string \<times> bool) list) \<times> claude_client \<times> 'w" where
  "claude_query_streaming net req s =
     (let (r, s') = claude_query net req s in ((r, stream_once r), s'))"

definition claude_available_models :: "string list" where
  "claude_available_models = [''claude-3-opus-20240229'', ''claude-3-sonnet-20240229'',
     ''claude-3-haiku-20240307'', ''claude-3-5-sonnet-20241022'']"

definition claude_get_model_info :: "string \<Rightarrow> string option" where
  "claude_get_model_info m =
     (if m \<in> set claude_available_models then Some (''Claude model: '' @ m) else None)"

definition claude_is_available :: "claude_client \<Rightarrow> bool \<times> claude_client" where
  "claude_is_available c =
     (if cc_api_key c = []
      then (False, c\<lparr>cc_last_error :=
              ''No API key configured (set CLAUDE_API_KEY or claude_api_key in config)''\<rparr>)
      else (True, c))"

section \<open>Google Antigravity\<close>

record google_client =
  gc_api_key :: string
  gc_model :: string
  gc_endpoint :: string
  gc_timeout :: int
  gc_last_error :: string

definition or_env :: "(string \<Rightarrow> string option) \<Rightarrow> string \<Rightarrow> string \<Rightarrow> string \<Rightarrow> string" where
  "or_env env given name otherwise =
     (if given = [] then (case env name of Some v \<Rightarrow> v | None \<Rightarrow> otherwise) else given)"

definition new_google ::
  "(string \<Rightarrow> string option) \<Rightarrow> string \<Rightarrow> string \<Rightarrow> string \<Rightarrow> int \<Rightarrow> google_client" where
  "new_google env key m endpoint timeout =
     \<lparr>gc_api_key = or_env env key ''GOOGLE_AGY_API_KEY'' [],
      gc_model = or_env env m ''GOOGLE_AGY_MODEL'' [],
      gc_endpoint = or_env env endpoint ''GOOGLE_AGY_ENDPOINT'' ''https://agy.googleapis.com/v1beta1'',
      gc_timeout = timeout, gc_last_error = []\<rparr>"

definition google_request_json :: "prompt_request \<Rightarrow> string" where \<open>
  google_request_json req =
     ''{'' @ ''"model":"'' @ req_model req @ ''",'' @
     ''"max_tokens":'' @ show_int (req_max_tokens req) @ '','' @
     ''"messages":[{'' @ ''"role":"user",'' @
     ''"content":"'' @ req_user_message req @ ''"'' @ ''}]'' @ ''}''\<close>

definition google_parse :: "string \<Rightarrow> prompt_response" where
  "google_parse response =
     prompt_response_default
       \<lparr>resp_text := (case extract_quoted content_pattern response of None \<Rightarrow> [] | Some t \<Rightarrow> t)\<rparr>"

definition google_http :: "google_client \<Rightarrow> string \<Rightarrow> string \<Rightarrow> string \<Rightarrow> http_request" where
  "google_http c path verb payload =
     \<lparr>hr_method = verb, hr_url = gc_endpoint c @ path @ ''?key='' @ gc_api_key c,
      hr_headers = [''Content-Type: application/json''],
      hr_body = (if verb = ''POST'' then payload else []), hr_timeout = gc_timeout c\<rparr>"

definition google_make_request ::
  "'w network \<Rightarrow> string \<Rightarrow> string \<Rightarrow> string \<Rightarrow> google_client \<Rightarrow> 'w \<Rightarrow> string outcome \<times> 'w" where
  "google_make_request net path verb payload c w =
     (if gc_api_key c = []
      then (Throw (Exn Runtime_error ''Google Antigravity API key not configured''), w)
      else cloud_request net ''Google Antigravity API'' (google_http c path verb payload) w)"

definition google_query ::
  "'w network \<Rightarrow> prompt_request \<Rightarrow> google_client \<times> 'w \<Rightarrow>
   prompt_response outcome \<times> google_client \<times> 'w" where
  "google_query net req s =
     (let (c, w) = s;
          (r, w') = google_make_request net ''/chat/completions'' ''POST'' (google_request_json req) c w
      in case omap google_parse r of
           Throw e \<Rightarrow> (Ret (error_response (what e)), c\<lparr>gc_last_error := what e\<rparr>, w')
         | resp \<Rightarrow> (resp, c, w'))"

definition google_query_streaming ::
  "'w network \<Rightarrow> prompt_request \<Rightarrow> google_client \<times> 'w \<Rightarrow>
   (prompt_response outcome \<times> (string \<times> bool) list) \<times> google_client \<times> 'w" where
  "google_query_streaming net req s =
     (let (r, s') = google_query net req s in ((r, stream_once r), s'))"

definition google_available_models :: "google_client \<Rightarrow> string list" where
  "google_available_models c =
     (if gc_model c \<noteq> [] then [gc_model c]
      else [''claude-3-5-sonnet-20241022'', ''claude-3-opus-20240229'', ''gpt-4-turbo'',
            ''llama-3-70b''])"

definition google_get_model_info :: "google_client \<Rightarrow> string \<Rightarrow> string option" where
  "google_get_model_info c m =
     (if m \<in> set (google_available_models c) then Some (''Google Antigravity model: '' @ m) else None)"

definition google_is_available :: "google_client \<Rightarrow> bool \<times> google_client" where
  "google_is_available c =
     (if gc_api_key c = []
      then (False, c\<lparr>gc_last_error :=
              ''No API key configured (set GOOGLE_AGY_API_KEY or google_agy_api_key in config)''\<rparr>)
      else if gc_model c = []
      then (False, c\<lparr>gc_last_error :=
              ''No model configured (set GOOGLE_AGY_MODEL or google_agy_model in config)''\<rparr>)
      else (True, c))"

section \<open>The contract\<close>

text \<open>The token counts of every reply fit into \<open>int\<close> together.\<close>

definition net_sane :: "'w network \<Rightarrow> bool" where
  "net_sane net \<longleftrightarrow>
     (\<forall>hr w code body. fst (perform net hr w) = Http_reply code body \<longrightarrow>
        (\<exists>n. claude_tokens body = Ret n))"

lemma cloud_request_cases:
  "(\<exists>e. fst (cloud_request net api hr w) = Throw e \<and> what e \<noteq> []) \<or>
   (\<exists>body code. fst (cloud_request net api hr w) = Ret body \<and>
      fst (perform net hr w) = Http_reply code body)"
  by (auto simp: cloud_request_def split: prod.splits http_result.splits)

lemma claude_query_cases:
  assumes "net_sane net"
  shows "(\<exists>e. fst (claude_query net req (c, w)) = Ret (error_response e) \<and> e \<noteq> []) \<or>
    (\<exists>r. fst (claude_query net req (c, w)) = Ret r \<and> resp_error r = [])"
proof -
  obtain r w' where m: "claude_make_request net ''/messages'' ''POST'' (claude_request_json req) c w = (r, w')"
    by (cases "claude_make_request net ''/messages'' ''POST'' (claude_request_json req) c w")
  have "(\<exists>e. r = Throw e \<and> what e \<noteq> []) \<or> (\<exists>body n. r = Ret body \<and> claude_tokens body = Ret n)"
    using m assms cloud_request_cases [of net "''Claude API''"
        "claude_http c ''/messages'' ''POST'' (claude_request_json req)" w]
    unfolding claude_make_request_def net_sane_def by (fastforce split: if_splits)
  then show ?thesis
    by (auto simp: claude_query_def m claude_parse_def response_defs)
qed

lemma google_query_cases:
  "(\<exists>e. fst (google_query net req (c, w)) = Ret (error_response e) \<and> e \<noteq> []) \<or>
   (\<exists>r. fst (google_query net req (c, w)) = Ret r \<and> resp_error r = [])"
proof -
  obtain r w' where m: "google_make_request net ''/chat/completions'' ''POST''
      (google_request_json req) c w = (r, w')"
    by (cases "google_make_request net ''/chat/completions'' ''POST'' (google_request_json req) c w")
  have "(\<exists>e. r = Throw e \<and> what e \<noteq> []) \<or> (\<exists>body. r = Ret body)"
    using m cloud_request_cases [of net "''Google Antigravity API''"
        "google_http c ''/chat/completions'' ''POST'' (google_request_json req)" w]
    unfolding google_make_request_def by (fastforce split: if_splits)
  then show ?thesis
    by (auto simp: google_query_def m google_parse_def response_defs)
qed

interpretation claude: llm_provider "claude_query net" "\<lambda>_. net_sane net" for net :: "'w network"
proof
  fix req :: prompt_request and s :: "claude_client \<times> 'w"
  assume sane: "net_sane net"
  show "\<exists>r. fst (claude_query net req s) = Ret r"
    using claude_query_cases [OF sane, of req "fst s" "snd s"] by auto
  show "fst (claude_query net req s) = Ret r \<Longrightarrow> resp_error r \<noteq> [] \<Longrightarrow> resp_text r = []" for r
    using claude_query_cases [OF sane, of req "fst s" "snd s"] by (auto simp: error_response_def)
qed simp

interpretation google: llm_provider "google_query net" "\<lambda>_. True" for net :: "'w network"
proof
  fix req :: prompt_request and s :: "google_client \<times> 'w"
  show "\<exists>r. fst (google_query net req s) = Ret r"
    using google_query_cases [of net req "fst s" "snd s"] by auto
  show "fst (google_query net req s) = Ret r \<Longrightarrow> resp_error r \<noteq> [] \<Longrightarrow> resp_text r = []" for r
    using google_query_cases [of net req "fst s" "snd s"] by (auto simp: error_response_def)
qed simp

end
