(* ===== verification/Client_Factory.thy ===== *)
theory Client_Factory
  imports Cloud_Clients "HOL-Library.Word"
begin

text \<open>
  \<open>llm/MultiEndpointOllamaClient\<close> (round robin over Ollama clients) and \<open>llm/LLMClient.cpp\<close> (the
  factory). The query counter is an \<open>atomic<int>\<close>, whose increment wraps, so it is a 32-bit word
  read as a signed number; \<open>%\<close> truncates, so a negative counter gives a negative index.
\<close>

section \<open>Several Ollama endpoints\<close>

record multi_client =
  mc_clients :: "ollama_client list"
  endpoint_count :: int
  query_count :: "32 word"
  mc_last_error :: string

fun make_clients :: "'w network \<Rightarrow> int \<Rightarrow> 'w \<Rightarrow> string list \<Rightarrow> ollama_client list outcome" where
  "make_clients net timeout w [] = Ret []"
| "make_clients net timeout w (e # es) =
     obind (new_ollama net e timeout w) (\<lambda>c. omap (\<lambda>cs. c # cs) (make_clients net timeout w es))"

definition default_ollama_url :: string where
  "default_ollama_url = ''http://localhost:11434''"

definition new_multi :: "'w network \<Rightarrow> string list \<Rightarrow> int \<Rightarrow> 'w \<Rightarrow> multi_client outcome" where
  "new_multi net endpoints timeout w =
     (let es = (if endpoints = [] then [default_ollama_url] else endpoints)
      in omap (\<lambda>cs. \<lparr>mc_clients = cs, endpoint_count = int (length es), query_count = 0,
                     mc_last_error = []\<rparr>)
           (make_clients net timeout w es))"

definition select_endpoint :: "multi_client \<Rightarrow> int \<times> multi_client" where
  "select_endpoint mc =
     (cmod (sint (query_count mc)) (endpoint_count mc), mc\<lparr>query_count := query_count mc + 1\<rparr>)"

definition get_client :: "int \<Rightarrow> multi_client \<Rightarrow> ollama_client option" where
  "get_client i mc =
     (if i < 0 \<or> i \<ge> int (length (mc_clients mc)) then None else Some (mc_clients mc ! nat i))"

definition no_endpoints :: "multi_client \<Rightarrow> bool" where
  "no_endpoints mc \<longleftrightarrow> endpoint_count mc \<le> 0 \<or> mc_clients mc = []"

definition set_client :: "int \<Rightarrow> ollama_client \<Rightarrow> multi_client \<Rightarrow> multi_client" where
  "set_client i c mc = mc\<lparr>mc_clients := (mc_clients mc)[nat i := c]\<rparr>"

text \<open>Both query methods: choose an endpoint, then forward; \<open>keep\<close> makes the result of an error.\<close>

definition multi_forward ::
  "(ollama_client \<times> 'w \<Rightarrow> 'r outcome \<times> ollama_client \<times> 'w) \<Rightarrow> (string \<Rightarrow> 'r) \<Rightarrow>
   multi_client \<times> 'w \<Rightarrow> 'r outcome \<times> multi_client \<times> 'w" where
  "multi_forward fwd failed s =
     (let (mc, w) = s
      in if no_endpoints mc then (Ret (failed ''No Ollama endpoints configured''), mc, w)
         else (let (i, mc1) = select_endpoint mc
               in case get_client i mc1 of
                    None \<Rightarrow> (Ret (failed ''Invalid endpoint selection''), mc1, w)
                  | Some c \<Rightarrow>
                      (case fwd (c, w) of
                         (Throw e, c', w') \<Rightarrow>
                           (Ret (failed (what e)), (set_client i c' mc1)\<lparr>mc_last_error := what e\<rparr>, w')
                       | (r, c', w') \<Rightarrow> (r, set_client i c' mc1, w'))))"

definition multi_query ::
  "'w network \<Rightarrow> prompt_request \<Rightarrow> multi_client \<times> 'w \<Rightarrow>
   prompt_response outcome \<times> multi_client \<times> 'w" where
  "multi_query net req = multi_forward (ollama_query net req) error_response"

definition lift_streaming ::
  "((prompt_response outcome \<times> (string \<times> bool) list) \<times> 's) \<Rightarrow>
   (prompt_response \<times> (string \<times> bool) list) outcome \<times> 's" where
  "lift_streaming r = (case r of ((resp, calls), s) \<Rightarrow> (omap (\<lambda>x. (x, calls)) resp, s))"

definition multi_query_streaming ::
  "'w network \<Rightarrow> prompt_request \<Rightarrow> multi_client \<times> 'w \<Rightarrow>
   (prompt_response \<times> (string \<times> bool) list) outcome \<times> multi_client \<times> 'w" where
  "multi_query_streaming net req =
     multi_forward (\<lambda>s. lift_streaming (ollama_query_streaming net req s)) (\<lambda>e. (error_response e, []))"

text \<open>The informational calls go to the first endpoint.\<close>

definition ask_primary ::
  "(ollama_client \<times> 'w \<Rightarrow> 'r outcome \<times> ollama_client \<times> 'w) \<Rightarrow> 'r \<Rightarrow> bool \<Rightarrow>
   multi_client \<times> 'w \<Rightarrow> 'r outcome \<times> multi_client \<times> 'w" where
  "ask_primary fwd none keep_error s =
     (let (mc, w) = s
      in if no_endpoints mc then (Ret none, mc, w)
         else (case get_client 0 mc of
                 None \<Rightarrow> (Ret none, mc, w)
               | Some c \<Rightarrow>
                   (case fwd (c, w) of
                      (Throw e, c', w') \<Rightarrow>
                        (Ret none,
                         (if keep_error then (set_client 0 c' mc)\<lparr>mc_last_error := what e\<rparr>
                          else set_client 0 c' mc), w')
                    | (r, c', w') \<Rightarrow> (r, set_client 0 c' mc, w'))))"

definition multi_available_models ::
  "'w network \<Rightarrow> multi_client \<times> 'w \<Rightarrow> string list outcome \<times> multi_client \<times> 'w" where
  "multi_available_models net = ask_primary (ollama_available_models net) [] True"

definition multi_get_model_info ::
  "'w network \<Rightarrow> string \<Rightarrow> multi_client \<times> 'w \<Rightarrow> string option outcome \<times> multi_client \<times> 'w" where
  "multi_get_model_info net m = ask_primary (ollama_get_model_info net m) None True"

definition multi_is_available ::
  "'w network \<Rightarrow> multi_client \<times> 'w \<Rightarrow> bool outcome \<times> multi_client \<times> 'w" where
  "multi_is_available net = ask_primary (ollama_is_available net) False False"

definition get_endpoint_urls :: "multi_client \<Rightarrow> string list" where
  "get_endpoint_urls mc = map (\<lambda>_. ''(endpoint)'') (mc_clients mc)"

definition multi_name :: "multi_client \<Rightarrow> string" where
  "multi_name mc =
     (if endpoint_count mc > 1
      then ''Ollama (Multi-Endpoint, parallel='' @ show_int (endpoint_count mc) @ '')''
      else ''Ollama (Single-Endpoint, sequential)'')"

section \<open>The factory\<close>

datatype client =
  Ollama_client ollama_client
| Claude_client claude_client
| Google_client google_client

fun get_provider_type :: "client \<Rightarrow> string" where
  "get_provider_type (Ollama_client c) = ''ollama''"
| "get_provider_type (Claude_client c) = ''claude''"
| "get_provider_type (Google_client c) = ''google-agy''"

fun get_name :: "client \<Rightarrow> string" where
  "get_name (Ollama_client c) = ''Ollama''"
| "get_name (Claude_client c) = ''Claude API''"
| "get_name (Google_client c) = ''Google Antigravity''"

text \<open>\<open>supports_batch\<close> is not overridden by any client.\<close>

fun supports_streaming :: "client \<Rightarrow> bool" where
  "supports_streaming (Ollama_client c) = True"
| "supports_streaming (Claude_client c) = True"
| "supports_streaming (Google_client c) = True"

definition supports_batch :: "client \<Rightarrow> bool" where
  "supports_batch c = False"

definition multi_supports_streaming :: "multi_client \<Rightarrow> bool" where
  "multi_supports_streaming mc = True"

definition multi_provider_type :: "multi_client \<Rightarrow> string" where
  "multi_provider_type mc = ''ollama''"

definition get_endpoint_count :: "multi_client \<Rightarrow> int" where
  "get_endpoint_count mc = endpoint_count mc"

definition get_parallelism :: "multi_client \<Rightarrow> int" where
  "get_parallelism mc = endpoint_count mc"

definition default_claude :: string where
  "default_claude = ''claude-3-5-sonnet-20241022''"

definition unknown_provider :: "string \<Rightarrow> 'a outcome" where
  "unknown_provider t =
     Throw (Exn Invalid_argument
       (''Unknown LLM provider: '' @ t @ '' (supported: ollama, claude, google-agy)''))"

definition create ::
  "'w network \<Rightarrow> (string \<Rightarrow> string option) \<Rightarrow> string \<Rightarrow> string \<Rightarrow> 'w \<Rightarrow> client outcome" where
  "create net env provider_type config w =
     (let t = lowercase provider_type
      in if t = ''ollama''
         then omap Ollama_client
                (new_ollama net (if config = [] then default_ollama_url else config) 120 w)
         else if t = ''claude'' then Ret (Claude_client (new_claude env config default_claude 120))
         else if t = ''google-agy'' \<or> t = ''google_agy''
         then Ret (Google_client (new_google env config [] [] 120))
         else if t = ''openai''
         then Throw (Exn Invalid_argument ''OpenAI client not yet implemented'')
         else if t = ''vllm'' then Throw (Exn Invalid_argument ''vLLM client not yet implemented'')
         else unknown_provider provider_type)"

definition create_from_config ::
  "'w network \<Rightarrow> (string \<Rightarrow> string option) \<Rightarrow> string \<Rightarrow> string \<Rightarrow> string \<Rightarrow> string \<Rightarrow> string \<Rightarrow>
   string \<Rightarrow> string \<Rightarrow> int \<Rightarrow> 'w \<Rightarrow> client outcome" where
  "create_from_config net env type claude_key claude_md google_key google_md google_ep ollama_url
       timeout w =
     (let t = lowercase type
      in if t = ''ollama''
         then omap Ollama_client
                (new_ollama net (if ollama_url = [] then default_ollama_url else ollama_url) timeout w)
         else if t = ''claude''
         then Ret (Claude_client (new_claude env claude_key
                     (if claude_md = [] then default_claude else claude_md) timeout))
         else if t = ''google-agy'' \<or> t = ''google_agy''
         then Ret (Google_client (new_google env google_key google_md google_ep timeout))
         else unknown_provider type)"

text \<open>The virtual call \<open>query\<close> on any client the factory makes.\<close>

fun client_query ::
  "'w network \<Rightarrow> prompt_request \<Rightarrow> client \<times> 'w \<Rightarrow> prompt_response outcome \<times> client \<times> 'w" where
  "client_query net req (Ollama_client c, w) =
     (let (r, c', w') = ollama_query net req (c, w) in (r, Ollama_client c', w'))"
| "client_query net req (Claude_client c, w) =
     (let (r, c', w') = claude_query net req (c, w) in (r, Claude_client c', w'))"
| "client_query net req (Google_client c, w) =
     (let (r, c', w') = google_query net req (c, w) in (r, Google_client c', w'))"

section \<open>The contract\<close>

lemma multi_query_cases:
  "(\<exists>e. fst (multi_query net req s) = Ret (error_response e)) \<or>
   (\<exists>c. fst (multi_query net req s) = fst (ollama_query net req (c, snd s)))"
proof (cases "no_endpoints (fst s)")
  case True
  then show ?thesis by (auto simp: multi_query_def multi_forward_def Let_def split: prod.splits)
next
  case False
  obtain i mc1 where sel: "select_endpoint (fst s) = (i, mc1)" by (cases "select_endpoint (fst s)")
  show ?thesis
  proof (cases "get_client i mc1")
    case None
    with False sel show ?thesis
      by (auto simp: multi_query_def multi_forward_def Let_def split: prod.splits)
  next
    case (Some c)
    with False sel show ?thesis
      by (cases s) (simp add: multi_query_def multi_forward_def ollama_query_eq, blast)
  qed
qed

interpretation multi: llm_provider "multi_query net" "\<lambda>_. True" for net :: "'w network"
proof
  fix req :: prompt_request and s :: "multi_client \<times> 'w"
  show "\<exists>r. fst (multi_query net req s) = Ret r"
    using multi_query_cases [of net req s] by (auto simp: ollama_query_eq)
  show "fst (multi_query net req s) = Ret r \<Longrightarrow> resp_error r \<noteq> [] \<Longrightarrow> resp_text r = []" for r
    using multi_query_cases [of net req s] ollama_reply_error
    by (auto simp: ollama_query_eq error_response_def)
qed simp

interpretation any_client: llm_provider "client_query net" "\<lambda>_. net_sane net" for net :: "'w network"
proof
  fix req :: prompt_request and s :: "client \<times> 'w"
  assume sane: "net_sane net"
  obtain c w where s: "s = (c, w)" by (cases s)
  have k: "fst (client_query net req (Ollama_client a, w)) = fst (ollama_query net req (a, w))"
    "fst (client_query net req (Claude_client b, w)) = fst (claude_query net req (b, w))"
    "fst (client_query net req (Google_client d, w)) = fst (google_query net req (d, w))" for a b d
    by (simp_all add: Let_def split: prod.splits)
  have q: "(\<exists>c'. fst (client_query net req s) = fst (ollama_query net req (c', w))) \<or>
      (\<exists>c'. fst (client_query net req s) = fst (claude_query net req (c', w))) \<or>
      (\<exists>c'. fst (client_query net req s) = fst (google_query net req (c', w)))"
    unfolding s using k by (cases c) blast+
  show "\<exists>r. fst (client_query net req s) = Ret r"
    using q ollama.query_returns claude.query_returns [OF sane] google.query_returns by metis
  show "fst (client_query net req s) = Ret r \<Longrightarrow> resp_error r \<noteq> [] \<Longrightarrow> resp_text r = []" for r
    using q ollama.error_without_text claude.error_without_text [OF sane]
      google.error_without_text by metis
qed simp

end
