(* ===== verification/Client_Properties.thy ===== *)
theory Client_Properties
  imports Client_Factory
begin

text \<open>
  What the clients guarantee to the debate: every query of every provider returns a response;
  how the round robin over several endpoints behaves, also after the counter has wrapped; and
  what happens when an Ollama client is asked for its models after a query.
\<close>

text \<open>Successive queries on one client, as the debate makes them.\<close>

definition multi_after ::
  "'w network \<Rightarrow> prompt_request list \<Rightarrow> multi_client \<times> 'w \<Rightarrow> multi_client \<times> 'w" where
  "multi_after net qs s = fold (\<lambda>q s. snd (multi_query net q s)) qs s"













text \<open>A network that echoes the body of each request, and counts them.\<close>

definition echo_net :: "nat network" where
  "echo_net = \<lparr>curl_init_ok = (\<lambda>_. True),
     perform = (\<lambda>hr n. if n = 3 then (Curl_error ''timeout'', n + 1) else (Http_reply 200 [], n + 1))\<rparr>"

definition demo_request :: prompt_request where
  "demo_request = \<lparr>req_model = ''m'', req_system_prompt = ''s'', req_user_message = ''u'',
     req_temperature = 7 / 10, req_max_tokens = 4096, req_stop_sequences = []\<rparr>"



section \<open>Round robin\<close>

lemma sint32:
  "sint (v :: 32 word) = (if uint v < 2147483648 then uint v else uint v - 4294967296)"
proof (cases "uint v < 2147483648")
  case True
  then have "signed_take_bit 31 (uint v) = uint v"
    using order_trans [OF _ uint_ge_0 [of v]] by (intro signed_take_bit_int_eq_self) simp_all
  with True show ?thesis by (simp add: sint_uint)
next
  case False
  have "signed_take_bit 31 (uint v) = signed_take_bit 31 (uint v - 4294967296)"
    unfolding signed_take_bit_eq_iff_take_bit_eq by (simp add: take_bit_eq_mod)
  also have "\<dots> = uint v - 4294967296"
    using False uint_bounded [of v] by (intro signed_take_bit_int_eq_self) auto
  finally show ?thesis using False by (simp add: sint_uint)
qed

definition multi_ok :: "string list \<Rightarrow> multi_client \<Rightarrow> bool" where
  "multi_ok eps mc \<longleftrightarrow> eps \<noteq> [] \<and> endpoint_count mc = int (length eps) \<and>
     map oc_base_url (mc_clients mc) = eps"

lemma multi_ok_length: "multi_ok eps mc \<Longrightarrow> length (mc_clients mc) = length eps"
  by (metis length_map multi_ok_def)

lemma make_clients_urls:
  "make_clients net timeout w es = Ret cs \<Longrightarrow> map oc_base_url cs = es"
  by (induction es arbitrary: cs) (auto simp: new_ollama_def obind_Ret_iff omap_Ret_iff split: if_splits)

lemma new_multi_ok:
  "new_multi net eps timeout w = Ret mc \<Longrightarrow> eps \<noteq> [] \<Longrightarrow> multi_ok eps mc \<and> query_count mc = 0"
  by (auto simp: new_multi_def multi_ok_def omap_Ret_iff make_clients_urls)

lemma multi_query_step:
  assumes "multi_ok eps mc"
  shows "multi_ok eps (fst (snd (multi_query net q (mc, w)))) \<and>
    query_count (fst (snd (multi_query net q (mc, w)))) = query_count mc + 1"
proof -
  have ne: "\<not> no_endpoints mc" using assms by (auto simp: no_endpoints_def multi_ok_def)
  have upd: "multi_ok eps (mc\<lparr>query_count := n\<rparr>)" for n using assms by (simp add: multi_ok_def)
  have set: "multi_ok eps (set_client i (c\<lparr>post_stale := b, oc_last_error := e\<rparr>) (mc\<lparr>query_count := n\<rparr>))"
    if "get_client i (mc\<lparr>query_count := n\<rparr>) = Some c" for i c b e n
    using assms that multi_ok_length [OF assms]
    by (auto simp: multi_ok_def set_client_def get_client_def map_update list_update_same_conv
        split: if_splits)
  show ?thesis
  proof (cases "get_client (fst (select_endpoint mc)) (snd (select_endpoint mc))")
    case None
    with ne upd show ?thesis
      by (simp add: multi_query_def multi_forward_def select_endpoint_def)
  next
    case (Some c)
    with ne show ?thesis
      using set [of "fst (select_endpoint mc)" "query_count mc + 1" c]
      by (simp add: multi_query_def multi_forward_def select_endpoint_def ollama_query_eq,
          simp add: set_client_def)
  qed
qed

lemma multi_after_state:
  assumes "multi_ok eps mc"
  shows "multi_ok eps (fst (multi_after net qs (mc, w))) \<and>
    query_count (fst (multi_after net qs (mc, w))) = query_count mc + word_of_nat (length qs)"
  using assms
proof (induction qs arbitrary: mc w)
  case Nil
  then show ?case by (simp add: multi_after_def)
next
  case (Cons q qs)
  obtain r mc1 w1 where q: "multi_query net q (mc, w) = (r, mc1, w1)"
    by (cases "multi_query net q (mc, w)")
  then have "multi_ok eps mc1" "query_count mc1 = query_count mc + 1"
    using multi_query_step [OF Cons.prems, of net q w] by simp_all
  moreover have "multi_after net (q # qs) (mc, w) = multi_after net qs (mc1, w1)"
    by (simp add: multi_after_def q)
  ultimately show ?case using Cons.IH [of mc1 w1] by (simp add: algebra_simps)
qed

text \<open>C30: the queries of a client with \<open>n\<close> endpoints go to them in turn: after \<open>k\<close> queries the
  next one goes to endpoint \<open>k mod n\<close>, as long as the 32-bit counter is not negative. Once
  \<open>2^31\<close> queries have been made, the index is negative (until the counter has wrapped around to
  0): only the queries where it happens to be 0 still reach the first endpoint, all others end
  in the error \<open>Invalid endpoint selection\<close>.\<close>

theorem multi_round_robin:
  assumes "new_multi net eps timeout w0 = Ret mc" and "eps \<noteq> []"
    and "k = length qs mod 2 ^ 32" and "multi_after net qs (mc, w) = (mc', w')"
  shows "(if k < 2 ^ 31 \<or> (2 ^ 32 - k) mod length eps = 0
    then \<exists>c. oc_base_url c = eps ! (if k < 2 ^ 31 then k mod length eps else 0) \<and>
      fst (multi_query net req (mc', w')) =
        Ret (ollama_reply (fst (perform net (ollama_http c ''/api/chat'' (ollama_request_json req)) w')))
    else fst (multi_query net req (mc', w')) = Ret (error_response ''Invalid endpoint selection''))"
proof -
  let ?n = "length eps"
  have n: "0 < ?n" using assms(2) by simp
  have ok: "multi_ok eps mc'" and cnt: "query_count mc' = word_of_nat (length qs)"
    using multi_after_state [of eps mc net qs w] new_multi_ok [OF assms(1,2)] assms(4) by auto
  have ne: "\<not> no_endpoints mc'" using ok by (auto simp: no_endpoints_def multi_ok_def)
  have u: "uint (query_count mc') = int k"
    by (simp add: cnt assms(3) unsigned_of_nat take_bit_eq_mod zmod_int)
  have k: "k < 4294967296" using assms(3) by simp
  have reach: "\<exists>c. oc_base_url c = eps ! i \<and> fst (multi_query net req (mc', w')) =
        Ret (ollama_reply (fst (perform net (ollama_http c ''/api/chat'' (ollama_request_json req)) w')))"
    if "fst (select_endpoint mc') = int i" "i < ?n" for i
  proof -
    have "get_client (int i) (snd (select_endpoint mc')) = Some (mc_clients mc' ! i)"
      using that(2) multi_ok_length [OF ok] by (simp add: get_client_def select_endpoint_def)
    moreover have "oc_base_url (mc_clients mc' ! i) = eps ! i"
      using ok that(2) multi_ok_length [OF ok] unfolding multi_ok_def by (metis nth_map)
    ultimately show ?thesis
      using that(1) ne
      by (intro exI [of _ "mc_clients mc' ! i"], cases "select_endpoint mc'")
        (simp add: multi_query_def multi_forward_def ollama_query_eq)
  qed
  show ?thesis
  proof (cases "k < 2 ^ 31")
    case True
    then have "fst (select_endpoint mc') = int (k mod ?n)"
      using ok n by (simp add: select_endpoint_def sint32 u cmod_nonneg multi_ok_def zmod_int)
    then show ?thesis using reach [of "k mod ?n"] n True by simp
  next
    case False
    then have idx: "fst (select_endpoint mc') = - int ((2 ^ 32 - k) mod ?n)"
      using ok n k
      by (simp add: select_endpoint_def sint32 u cmod_neg multi_ok_def zmod_int of_nat_diff)
    show ?thesis
    proof (cases "(2 ^ 32 - k) mod ?n = 0")
      case True
      then show ?thesis using reach [of 0] idx n False by simp
    next
      case neg: False
      then have "get_client (fst (select_endpoint mc')) (snd (select_endpoint mc')) = None"
        unfolding idx by (simp add: get_client_def)
      then show ?thesis
        using ne False neg
        by (cases "select_endpoint mc'") (simp add: multi_query_def multi_forward_def)
    qed
  qed
qed

definition two_endpoints :: multi_client where
  "two_endpoints =
     \<lparr>mc_clients = map (\<lambda>u. \<lparr>oc_base_url = u, oc_timeout = 120, post_stale = False,
        oc_last_error = []\<rparr>) [''http://a:1'', ''http://b:2''],
      endpoint_count = 2, query_count = 0, mc_last_error = []\<rparr>"

theorem multi_round_robin_witness:
  "\<exists>c w'. oc_base_url c = ''http://b:2'' \<and>
     fst (multi_query echo_net demo_request (multi_after echo_net [demo_request] (two_endpoints, 0))) =
       Ret (ollama_reply (fst (perform echo_net
         (ollama_http c ''/api/chat'' (ollama_request_json demo_request)) w')))"
proof -
  have new: "new_multi echo_net [''http://a:1'', ''http://b:2''] 120 (0 :: nat) = Ret two_endpoints"
    by (simp add: new_multi_def new_ollama_def echo_net_def two_endpoints_def)
  obtain mc' w' where "multi_after echo_net [demo_request] (two_endpoints, 0) = (mc', w')"
    by (cases "multi_after echo_net [demo_request] (two_endpoints, 0)")
  then show ?thesis
    using multi_round_robin [OF new _ refl, of "[demo_request]" 0 mc' w' demo_request] by auto
qed

section \<open>Requests without a body after requests with one\<close>

text \<open>after any query on an Ollama client, asking it for its models or whether it is
  available sends a request whose body is read from freed memory; on a new client both are
  defined.\<close>

theorem ollama_get_after_query_undefined:
  "fst (ollama_available_models net (snd (ollama_query net req (c, w)))) =
     Undef ''request body in freed memory'' \<and>
   fst (ollama_is_available net (snd (ollama_query net req (c, w)))) =
     Undef ''request body in freed memory'' \<and>
   (post_stale c \<or> (\<exists>ms b. fst (ollama_available_models net (c, w)) = Ret ms \<and>
      fst (ollama_is_available net (c, w)) = Ret b))"
proof -
  have "\<exists>ms b. fst (ollama_available_models net (c, w)) = Ret ms \<and>
      fst (ollama_is_available net (c, w)) = Ret b" if "\<not> post_stale c"
  proof (cases "perform net (ollama_http c ''/api/tags'' []) w")
    case (Pair r w')
    with that show ?thesis
      by (cases r) (auto simp: ollama_available_models_def ollama_is_available_def
          ollama_make_request_def Let_def intro: exI [of _ False])
  qed
  then show ?thesis
    by (simp add: ollama_query_eq ollama_available_models_def ollama_is_available_def
        ollama_make_request_def)
qed

end
