(* ===== verification/Database.thy ===== *)
theory Database
  imports Cpp_Numbers
begin

text \<open>
  \<open>storage/Database.cpp\<close>: the SQLite wrapper and its transaction guard. SQLite is a parameter: a
  record of the calls the code makes on a connection whose state is opaque. A call on a null
  connection returns \<open>SQLITE_MISUSE\<close>, for which \<open>sqlite3_errmsg(nullptr)\<close> gives a fixed text,
  the field \<open>null_message\<close>. \<open>mutex_\<close> is held for one call at a time and no method calls another
  one with it held, so calls are atomic. The guard is written over any provider of the three
  transaction calls; \<open>txn_provider\<close> is its contract, and the database keeps it.
\<close>

section \<open>SQLite\<close>

datatype query_result =
  Prepare_error string
| Rows "string option list list" "string option"  \<comment> \<open>the rows, then the error that ended them\<close>

record 'd sqlite =
  sq_open :: "string \<Rightarrow> string + 'd"
  sq_exec :: "string \<Rightarrow> 'd \<Rightarrow> string option \<times> 'd"
  sq_query :: "string \<Rightarrow> 'd \<Rightarrow> query_result \<times> 'd"
  sq_changes :: "'d \<Rightarrow> int"
  sq_last_rowid :: "'d \<Rightarrow> int"
  null_message :: string

section \<open>Database\<close>

record 'd database =
  db_conn :: "'d option"
  db_last_error :: string
  in_transaction :: bool

definition runtime_error :: "string \<Rightarrow> 'a outcome" where
  "runtime_error m = Throw (Exn Runtime_error m)"

definition open_database :: "'d sqlite \<Rightarrow> string \<Rightarrow> 'd database outcome" where
  "open_database sq path =
     (case sq_open sq path of
        Inl err \<Rightarrow> runtime_error (''Failed to open database: '' @ err)
      | Inr d \<Rightarrow> Ret \<lparr>db_conn = Some d, db_last_error = [], in_transaction = False\<rparr>)"

definition moved_out :: "'d database \<Rightarrow> 'd database" where
  "moved_out db = db\<lparr>db_conn := None, db_last_error := [], in_transaction := False\<rparr>"

text \<open>The move constructor: the new object and what is left of the old one.\<close>

definition move_database :: "'d database \<Rightarrow> 'd database \<times> 'd database" where
  "move_database other = (other, moved_out other)"

text \<open>Beside the new object, the state in which the connection is handed to \<open>sqlite3_close\<close>.\<close>

definition close :: "'d sqlite \<Rightarrow> 'd database \<Rightarrow> 'd option \<times> 'd database" where
  "close sq db =
     (case db_conn db of
        None \<Rightarrow> (None, db)
      | Some d \<Rightarrow>
          (Some (if in_transaction db then snd (sq_exec sq ''ROLLBACK'' d) else d),
           db\<lparr>db_conn := None, in_transaction := False\<rparr>))"

text \<open>Move assignment: the closed connection, the object assigned to, the object moved from.\<close>

definition move_assign ::
  "'d sqlite \<Rightarrow> 'd database \<Rightarrow> 'd database \<Rightarrow> 'd option \<times> 'd database \<times> 'd database" where
  "move_assign sq this_db other = (fst (close sq this_db), other, moved_out other)"

definition not_open :: "'d database \<Rightarrow> 'a outcome \<times> 'd database" where
  "not_open db =
     (runtime_error ''Database not open'', db\<lparr>db_last_error := ''Database not open''\<rparr>)"

text \<open>\<open>check_error\<close>, given the code and what \<open>sqlite3_errmsg\<close> says; nothing calls it.\<close>

definition check_error :: "int \<Rightarrow> string \<Rightarrow> 'd database \<Rightarrow> bool \<times> 'd database" where
  "check_error rc err db =
     (if rc \<noteq> 0 then (True, if db_conn db = None then db else db\<lparr>db_last_error := err\<rparr>)
      else (False, db))"

definition last_error_of :: "'d database \<Rightarrow> string" where
  "last_error_of db = db_last_error db"

text \<open>The destructor closes.\<close>

definition destroy_database :: "'d sqlite \<Rightarrow> 'd database \<Rightarrow> 'd option \<times> 'd database" where
  "destroy_database sq db = close sq db"

definition execute :: "'d sqlite \<Rightarrow> string \<Rightarrow> 'd database \<Rightarrow> int outcome \<times> 'd database" where
  "execute sq sql db =
     (case db_conn db of
        None \<Rightarrow> not_open db
      | Some d \<Rightarrow>
          (case sq_exec sq sql d of
             (Some err, d') \<Rightarrow>
               (runtime_error (''Database error: '' @ err),
                db\<lparr>db_conn := Some d', db_last_error := err\<rparr>)
           | (None, d') \<Rightarrow> (Ret (sq_changes sq d'), db\<lparr>db_conn := Some d'\<rparr>)))"

text \<open>A \<open>NULL\<close> column reads as the empty string.\<close>

definition cells :: "string option list \<Rightarrow> string list" where
  "cells row = map (\<lambda>v. case v of None \<Rightarrow> [] | Some s \<Rightarrow> s) row"

text \<open>\<open>columns\<close> is an in-out parameter, set only when there is a row.\<close>

definition query_one ::
  "'d sqlite \<Rightarrow> string \<Rightarrow> string list \<Rightarrow> 'd database \<Rightarrow> (bool outcome \<times> string list) \<times> 'd database" where
  "query_one sq sql columns db =
     (case db_conn db of
        None \<Rightarrow> ((fst (not_open db), columns), snd (not_open db))
      | Some d \<Rightarrow>
          (case sq_query sq sql d of
             (Prepare_error err, d') \<Rightarrow>
               ((runtime_error (''Prepare failed: '' @ err), columns),
                db\<lparr>db_conn := Some d', db_last_error := err\<rparr>)
           | (Rows (r # rs) e, d') \<Rightarrow> ((Ret True, cells r), db\<lparr>db_conn := Some d'\<rparr>)
           | (Rows [] None, d') \<Rightarrow> ((Ret False, columns), db\<lparr>db_conn := Some d'\<rparr>)
           | (Rows [] (Some err), d') \<Rightarrow>
               ((runtime_error (''Query failed: '' @ err), columns),
                db\<lparr>db_conn := Some d', db_last_error := err\<rparr>)))"

definition query_all_rows ::
  "'d sqlite \<Rightarrow> string \<Rightarrow> string list list \<Rightarrow> 'd database \<Rightarrow>
   (int outcome \<times> string list list) \<times> 'd database" where
  "query_all_rows sq sql results db =
     (case db_conn db of
        None \<Rightarrow> ((fst (not_open db), results), snd (not_open db))
      | Some d \<Rightarrow>
          (case sq_query sq sql d of
             (Prepare_error err, d') \<Rightarrow>
               ((runtime_error (''Prepare failed: '' @ err), results),
                db\<lparr>db_conn := Some d', db_last_error := err\<rparr>)
           | (Rows rows None, d') \<Rightarrow>
               ((Ret (int (length rows)), map cells rows), db\<lparr>db_conn := Some d'\<rparr>)
           | (Rows rows (Some err), d') \<Rightarrow>
               ((runtime_error (''Query failed: '' @ err), map cells rows),
                db\<lparr>db_conn := Some d', db_last_error := err\<rparr>)))"

text \<open>\<open>sqlite3_exec\<close> on \<open>db_\<close>, which the transaction calls do not test for null.\<close>

definition exec_raw :: "'d sqlite \<Rightarrow> string \<Rightarrow> 'd database \<Rightarrow> string option \<times> 'd database" where
  "exec_raw sq sql db =
     (case db_conn db of
        None \<Rightarrow> (Some (null_message sq), db\<lparr>db_last_error := null_message sq\<rparr>)
      | Some d \<Rightarrow>
          (case sq_exec sq sql d of
             (Some err, d') \<Rightarrow> (Some err, db\<lparr>db_conn := Some d', db_last_error := err\<rparr>)
           | (None, d') \<Rightarrow> (None, db\<lparr>db_conn := Some d'\<rparr>)))"

definition begin_transaction :: "'d sqlite \<Rightarrow> 'd database \<Rightarrow> unit outcome \<times> 'd database" where
  "begin_transaction sq db =
     (if in_transaction db then (runtime_error ''Transaction already active'', db)
      else (case exec_raw sq ''BEGIN TRANSACTION'' db of
              (Some err, db') \<Rightarrow> (runtime_error (''Failed to begin transaction: '' @ err), db')
            | (None, db') \<Rightarrow> (Ret (), db'\<lparr>in_transaction := True\<rparr>)))"

definition commit_transaction :: "'d sqlite \<Rightarrow> 'd database \<Rightarrow> unit outcome \<times> 'd database" where
  "commit_transaction sq db =
     (if \<not> in_transaction db then (runtime_error ''No active transaction'', db)
      else (case exec_raw sq ''COMMIT'' db of
              (Some err, db') \<Rightarrow> (runtime_error (''Failed to commit transaction: '' @ err), db')
            | (None, db') \<Rightarrow> (Ret (), db'\<lparr>in_transaction := False\<rparr>)))"

definition rollback_transaction :: "'d sqlite \<Rightarrow> 'd database \<Rightarrow> unit outcome \<times> 'd database" where
  "rollback_transaction sq db =
     (if \<not> in_transaction db then (runtime_error ''No active transaction'', db)
      else (Ret (), (snd (exec_raw sq ''ROLLBACK'' db))\<lparr>in_transaction := False\<rparr>))"

definition db_is_open :: "'d database \<Rightarrow> bool" where
  "db_is_open db = (db_conn db \<noteq> None)"

definition last_rowid :: "'d sqlite \<Rightarrow> 'd database \<Rightarrow> int" where
  "last_rowid sq db = (case db_conn db of None \<Rightarrow> - 1 | Some d \<Rightarrow> sq_last_rowid sq d)"

definition db_changes :: "'d sqlite \<Rightarrow> 'd database \<Rightarrow> int" where
  "db_changes sq db = (case db_conn db of None \<Rightarrow> 0 | Some d \<Rightarrow> sq_changes sq d)"

section \<open>The transaction guard\<close>

text \<open>
  \<open>Transaction\<close>: its flag and the database it refers to. The methods, over the three calls of the
  database they use.
\<close>

type_synonym 's txn_call = "'s \<Rightarrow> unit outcome \<times> 's"

definition guard_finish :: "'s txn_call \<Rightarrow> bool \<times> 's \<Rightarrow> unit outcome \<times> bool \<times> 's" where
  "guard_finish call g =
     (let (committed, s) = g
      in if committed then (Ret (), g)
         else (case call s of (Ret u, s') \<Rightarrow> (Ret (), True, s') | (r, s') \<Rightarrow> (r, False, s')))"

definition guard_destroy :: "'s txn_call \<Rightarrow> bool \<times> 's \<Rightarrow> 's" where
  "guard_destroy rollback g = (if fst g then snd g else snd (rollback (snd g)))"

datatype 's guard_action = Guard_commit | Guard_rollback | Use "'s \<Rightarrow> unit outcome \<times> 's"

text \<open>The statements in the scope of a guard; the first exception leaves the scope.\<close>

fun guard_body ::
  "'s txn_call \<Rightarrow> 's txn_call \<Rightarrow> 's guard_action list \<Rightarrow> bool \<times> 's \<Rightarrow> unit outcome \<times> bool \<times> 's" where
  "guard_body commit rollback [] g = (Ret (), g)"
| "guard_body commit rollback (a # as) g =
     (case (case a of
              Guard_commit \<Rightarrow> guard_finish commit g
            | Guard_rollback \<Rightarrow> guard_finish rollback g
            | Use f \<Rightarrow> (let (r, s) = f (snd g) in (r, fst g, s))) of
        (Ret u, g') \<Rightarrow> guard_body commit rollback as g'
      | (r, g') \<Rightarrow> (r, g'))"

text \<open>\<open>{ Transaction t(db); ... }\<close>: an exception of the constructor leaves no guard behind.\<close>

definition guard_scope ::
  "'s txn_call \<Rightarrow> 's txn_call \<Rightarrow> 's txn_call \<Rightarrow> 's guard_action list \<Rightarrow> 's \<Rightarrow> unit outcome \<times> 's" where
  "guard_scope start commit rollback as s =
     (case start s of
        (Ret u, s1) \<Rightarrow>
          (let (r, g) = guard_body commit rollback as (False, s1) in (r, guard_destroy rollback g))
      | (r, s1) \<Rightarrow> (r, s1))"

locale txn_provider =
  fixes start commit rollback :: "'s txn_call" and active :: "'s \<Rightarrow> bool"
  assumes start_fails: "fst (start s) \<noteq> Ret () \<Longrightarrow> active (snd (start s)) = active s"
    and commit_ok: "fst (commit s) = Ret () \<Longrightarrow> \<not> active (snd (commit s))"
    and rollback_ends: "\<not> active (snd (rollback s))"
begin

lemma finish_closes:
  "(\<And>s. fst (call s) = Ret () \<Longrightarrow> \<not> active (snd (call s))) \<Longrightarrow>
   (fst g \<Longrightarrow> \<not> active (snd g)) \<Longrightarrow>
   fst (snd (guard_finish call g)) \<Longrightarrow> \<not> active (snd (snd (guard_finish call g)))"
  by (cases g; cases "call (snd g)"; cases "fst (call (snd g))")
    (auto simp: guard_finish_def split: if_splits, metis fst_conv snd_conv)

lemma body_closes:
  assumes "\<And>f s. Use f \<in> set as \<Longrightarrow> active (snd (f s)) = active s"
    and "fst g \<Longrightarrow> \<not> active (snd g)"
  shows "fst (snd (guard_body commit rollback as g)) \<Longrightarrow>
    \<not> active (snd (snd (guard_body commit rollback as g)))"
  using assms
proof (induction as arbitrary: g)
  case (Cons a as)
  define st where "st = (case a of
              Guard_commit \<Rightarrow> guard_finish commit g
            | Guard_rollback \<Rightarrow> guard_finish rollback g
            | Use f \<Rightarrow> (let (r, s) = f (snd g) in (r, fst g, s)))"
  have closed: "fst (snd st) \<Longrightarrow> \<not> active (snd (snd st))"
  proof (cases a)
    case Guard_commit
    then show "fst (snd st) \<Longrightarrow> \<not> active (snd (snd st))"
      using finish_closes [of commit g] commit_ok Cons.prems(3) by (simp add: st_def)
  next
    case Guard_rollback
    then show "fst (snd st) \<Longrightarrow> \<not> active (snd (snd st))"
      using finish_closes [of rollback g] rollback_ends Cons.prems(3) by (simp add: st_def)
  next
    case (Use f)
    then show "fst (snd st) \<Longrightarrow> \<not> active (snd (snd st))"
      using Cons.prems(2) [of f "snd g"] Cons.prems(3) by (simp add: st_def split: prod.splits)
  qed
  have unf: "guard_body commit rollback (a # as) g =
      (case st of (Ret u, g') \<Rightarrow> guard_body commit rollback as g' | (r, g') \<Rightarrow> (r, g'))"
    by (simp add: st_def)
  obtain r g' where st: "st = (r, g')" by (cases st)
  show ?case
  proof (cases r)
    case (Ret u)
    then have "guard_body commit rollback (a # as) g = guard_body commit rollback as g'"
      unfolding unf st by simp
    then show ?thesis
      using Cons.IH [of g'] Cons.prems(1,2) closed st by simp
  qed (use unf st closed Cons.prems(1) in auto)
qed simp

lemma scope_closes:
  assumes "\<not> active s" and "\<And>f s. Use f \<in> set as \<Longrightarrow> active (snd (f s)) = active s"
  shows "\<not> active (snd (guard_scope start commit rollback as s))"
proof -
  obtain r s1 where st: "start s = (r, s1)" by (cases "start s")
  show ?thesis
  proof (cases r)
    case (Ret u)
    obtain r' g where b: "guard_body commit rollback as (False, s1) = (r', g)"
      by (cases "guard_body commit rollback as (False, s1)")
    then have "fst g \<Longrightarrow> \<not> active (snd g)"
      using body_closes [of as "(False, s1)"] assms(2) by simp
    then show ?thesis
      using st Ret b rollback_ends by (cases "fst g") (simp_all add: guard_scope_def guard_destroy_def)
  qed (use start_fails [of s] st assms(1) in \<open>auto simp: guard_scope_def\<close>)
qed

end

lemma exec_raw_flag [simp]: "in_transaction (snd (exec_raw sq sql db)) = in_transaction db"
  by (auto simp: exec_raw_def split: option.splits prod.splits)

lemma execute_flag [simp]: "in_transaction (snd (execute sq sql db)) = in_transaction db"
  by (auto simp: execute_def not_open_def split: option.splits prod.splits)

interpretation db_txn: txn_provider
  "begin_transaction sq" "commit_transaction sq" "rollback_transaction sq" in_transaction
  for sq :: "'d sqlite"
proof
  fix db :: "'d database"
  have keep: "exec_raw sq sql db = (e, db') \<Longrightarrow> in_transaction db' = in_transaction db" for sql e db'
    using exec_raw_flag [of sq sql db] by simp
  show "fst (begin_transaction sq db) \<noteq> Ret () \<Longrightarrow>
      in_transaction (snd (begin_transaction sq db)) = in_transaction db"
    using keep by (auto simp: begin_transaction_def runtime_error_def split: if_splits option.splits prod.splits)
  show "fst (commit_transaction sq db) = Ret () \<Longrightarrow> \<not> in_transaction (snd (commit_transaction sq db))"
    by (auto simp: commit_transaction_def runtime_error_def split: if_splits option.splits prod.splits)
  show "\<not> in_transaction (snd (rollback_transaction sq db))"
    by (simp add: rollback_transaction_def)
qed

text \<open>An \<open>execute\<close> inside the scope of a guard.\<close>

definition use_execute :: "'d sqlite \<Rightarrow> string \<Rightarrow> 'd database guard_action" where
  "use_execute sq sql =
     Use (\<lambda>db. (omap (\<lambda>_. ()) (fst (execute sq sql db)), snd (execute sq sql db)))"

definition txn_statements :: "'d sqlite \<Rightarrow> 'd database guard_action set" where
  "txn_statements sq = {Guard_commit, Guard_rollback} \<union> range (use_execute sq)"

text \<open>However the scope of a \<open>Transaction\<close> ends (normally, by an exception of a statement,
  by a commit that fails, or because the transaction could not begin), \<open>in_transaction_\<close> is false
  afterwards if it was before.\<close>

lemma scope_not_active:
  assumes "\<not> in_transaction db" and "set as \<subseteq> txn_statements sq"
  shows "\<not> in_transaction (snd (guard_scope (begin_transaction sq) (commit_transaction sq)
    (rollback_transaction sq) as db))"
proof (rule db_txn.scope_closes [OF assms(1)])
  fix f s assume "Use f \<in> set as"
  then obtain sql where "Use f = use_execute sq sql"
    using assms(2) by (auto simp: txn_statements_def)
  then show "in_transaction (snd (f s)) = in_transaction s" by (simp add: use_execute_def)
qed

end
