(* ===== verification/Database_Properties.thy ===== *)
theory Database_Properties
  imports Database
begin

text \<open>
  What the \<open>Transaction\<close> guard gives to the code that uses it: statements followed by \<open>commit\<close>
  take effect all together or not at all. SQLite is a parameter; what its documentation says of
  transactions is the predicate \<open>sqlite_contract\<close>.
\<close>

text \<open>
  \<open>content\<close> is what a connection sees, \<open>saved\<close> what it returns to on a rollback (\<open>None\<close> outside a
  transaction). What the documentation of SQLite promises: \<open>BEGIN\<close> outside a transaction opens one or
  fails without effect; a \<open>COMMIT\<close> that fails has left the transaction open (a busy database) or has
  rolled it back by itself (a full disk, an I/O error), and so has a statement that fails; a \<open>ROLLBACK\<close>
  that succeeds restores, one that comes after an automatic rollback may report an error but does no
  harm, and one that fails inside a transaction leaves it open.
\<close>

definition sqlite_contract ::
  "'d sqlite \<Rightarrow> ('d \<Rightarrow> 'c) \<Rightarrow> ('d \<Rightarrow> 'c option) \<Rightarrow> string set \<Rightarrow> bool" where
  "sqlite_contract sq content saved stmts \<longleftrightarrow>
     (\<forall>d e d'. saved d = None \<longrightarrow> sq_exec sq ''BEGIN TRANSACTION'' d = (e, d') \<longrightarrow>
        content d' = content d \<and> saved d' = (if e = None then Some (content d) else None)) \<and>
     (\<forall>d c e d'. saved d = Some c \<longrightarrow> sq_exec sq ''COMMIT'' d = (e, d') \<longrightarrow>
        (if e = None then content d' = content d \<and> saved d' = None
         else saved d' = Some c \<or> saved d' = None \<and> content d' = c)) \<and>
     (\<forall>d e d'. saved d = None \<longrightarrow> sq_exec sq ''ROLLBACK'' d = (e, d') \<longrightarrow>
        saved d' = None \<and> content d' = content d) \<and>
     (\<forall>d c e d'. saved d = Some c \<longrightarrow> sq_exec sq ''ROLLBACK'' d = (e, d') \<longrightarrow>
        (if e = None then saved d' = None \<and> content d' = c else saved d' = Some c)) \<and>
     (\<forall>sql\<in>stmts. \<forall>d c e d'. saved d = Some c \<longrightarrow> sq_exec sq sql d = (e, d') \<longrightarrow>
        saved d' = Some c \<or> e \<noteq> None \<and> saved d' = None \<and> content d' = c)"

definition run_statements :: "'d sqlite \<Rightarrow> string list \<Rightarrow> 'd \<Rightarrow> 'd" where
  "run_statements sq sqls d = fold (\<lambda>sql d. snd (sq_exec sq sql d)) sqls d"

lemma contract_begin:
  "sqlite_contract sq content saved stmts \<Longrightarrow> saved d = None \<Longrightarrow>
   sq_exec sq ''BEGIN TRANSACTION'' d = (e, d') \<Longrightarrow>
   content d' = content d \<and> saved d' = (if e = None then Some (content d) else None)"
  unfolding sqlite_contract_def by (drule conjunct1) simp

lemma contract_commit:
  "sqlite_contract sq content saved stmts \<Longrightarrow> saved d = Some c \<Longrightarrow>
   sq_exec sq ''COMMIT'' d = (e, d') \<Longrightarrow>
   if e = None then content d' = content d \<and> saved d' = None
   else saved d' = Some c \<or> saved d' = None \<and> content d' = c"
  unfolding sqlite_contract_def by (elim conjE) metis

lemma contract_rollback_idle:
  "sqlite_contract sq content saved stmts \<Longrightarrow> saved d = None \<Longrightarrow> sq_exec sq ''ROLLBACK'' d = (e, d') \<Longrightarrow>
   saved d' = None \<and> content d' = content d"
  unfolding sqlite_contract_def by (elim conjE) metis

lemma contract_rollback:
  "sqlite_contract sq content saved stmts \<Longrightarrow> saved d = Some c \<Longrightarrow> sq_exec sq ''ROLLBACK'' d = (e, d') \<Longrightarrow>
   if e = None then saved d' = None \<and> content d' = c else saved d' = Some c"
  unfolding sqlite_contract_def by (elim conjE) metis

lemma contract_statement:
  "sqlite_contract sq content saved stmts \<Longrightarrow> sql \<in> stmts \<Longrightarrow> saved d = Some c \<Longrightarrow>
   sq_exec sq sql d = (e, d') \<Longrightarrow>
   saved d' = Some c \<or> e \<noteq> None \<and> saved d' = None \<and> content d' = c"
  unfolding sqlite_contract_def by (elim conjE) metis

lemma execute_step:
  "db_conn db = Some d \<Longrightarrow> sq_exec sq sql d = (None, d') \<Longrightarrow>
   guard_body commit rollback (use_execute sq sql # as) (b, db) =
     guard_body commit rollback as (b, db\<lparr>db_conn := Some d'\<rparr>)"
  by (simp add: use_execute_def execute_def)

text \<open>The scope from the first statement on, inside an open transaction.\<close>

lemma body_atomic:
  assumes "sqlite_contract sq content saved stmts" and "set sqls \<subseteq> stmts"
    and "db_conn db = Some d" and "saved d = Some c" and "in_transaction db"
    and "guard_body (commit_transaction sq) (rollback_transaction sq)
      (map (use_execute sq) sqls @ [Guard_commit]) (False, db) = (r, g)"
  shows "\<exists>d'. db_conn (snd g) = Some d' \<and>
    (r = Ret () \<and> fst g \<and> saved d' = None \<and> content d' = content (run_statements sq sqls d) \<or>
     r \<noteq> Ret () \<and> \<not> fst g \<and> in_transaction (snd g) \<and>
       (saved d' = Some c \<or> saved d' = None \<and> content d' = c))"
  using assms
proof (induction sqls arbitrary: db d)
  case Nil
  obtain e d' where x: "sq_exec sq ''COMMIT'' d = (e, d')" by (cases "sq_exec sq ''COMMIT'' d")
  show ?case
    using Nil.prems x contract_commit [OF Nil.prems(1,4) x]
    by (cases e) (auto simp: guard_finish_def commit_transaction_def exec_raw_def runtime_error_def
        run_statements_def)
next
  case (Cons sql sqls)
  obtain e d' where x: "sq_exec sq sql d = (e, d')" by (cases "sq_exec sq sql d")
  have sql: "sql \<in> stmts" using Cons.prems(2) by simp
  note st = contract_statement [OF Cons.prems(1) sql Cons.prems(4) x]
  show ?case
  proof (cases e)
    case (Some err)
    then show ?thesis
      using Cons.prems x st by (auto simp: use_execute_def execute_def runtime_error_def)
  next
    case None
    let ?db = "db\<lparr>db_conn := Some d'\<rparr>"
    have "guard_body (commit_transaction sq) (rollback_transaction sq)
        (map (use_execute sq) sqls @ [Guard_commit]) (False, ?db) = (r, g)"
      using Cons.prems(6) execute_step [OF Cons.prems(3) x [unfolded None]] by simp
    moreover have "saved d' = Some c" using st None by simp
    ultimately show ?thesis
      using Cons.IH [of ?db d'] Cons.prems(1,2,5) x by (simp add: run_statements_def)
  qed
qed

text \<open>C16: statements in the scope of a \<open>Transaction\<close>, followed by \<open>commit\<close>, are atomic: either the
  scope ends normally, SQLite is no longer in a transaction and the database holds the effect of all of
  them, or it is left by an exception and the database is what it was; unless the last call on the
  connection was a \<open>ROLLBACK\<close> that SQLite refused. The code does not look at that error: then SQLite
  is still in the transaction, the old contents are what it would return to, and \<open>Database\<close> takes
  the transaction for ended.\<close>

theorem transaction_atomic:
  assumes "sqlite_contract sq content saved stmts" and "set sqls \<subseteq> stmts"
    and "db_conn db = Some d" and "saved d = None" and "\<not> in_transaction db"
    and "guard_scope (begin_transaction sq) (commit_transaction sq) (rollback_transaction sq)
      (map (use_execute sq) sqls @ [Guard_commit]) db = (r, db')"
  shows "\<not> in_transaction db' \<and> (\<exists>d'. db_conn db' = Some d' \<and>
    (if r = Ret ()
     then saved d' = None \<and> content d' = content (run_statements sq (''BEGIN TRANSACTION'' # sqls) d)
     else saved d' = None \<and> content d' = content d \<or>
       saved d' = Some (content d) \<and> (\<exists>err d2. sq_exec sq ''ROLLBACK'' d2 = (Some err, d'))))"
proof -
  obtain e d1 where x: "sq_exec sq ''BEGIN TRANSACTION'' d = (e, d1)"
    by (cases "sq_exec sq ''BEGIN TRANSACTION'' d")
  note st = contract_begin [OF assms(1,4) x]
  have "set (map (use_execute sq) sqls @ [Guard_commit]) \<subseteq> txn_statements sq"
    by (auto simp: txn_statements_def)
  then have flag: "\<not> in_transaction db'"
    using scope_not_active [OF assms(5)] assms(6) by fastforce
  show ?thesis
  proof (cases e)
    case (Some err)
    then show ?thesis
      using assms(3,5,6) x st
      by (auto simp: guard_scope_def begin_transaction_def exec_raw_def runtime_error_def)
  next
    case None
    let ?db = "db\<lparr>db_conn := Some d1, in_transaction := True\<rparr>"
    obtain r1 g where b: "guard_body (commit_transaction sq) (rollback_transaction sq)
        (map (use_execute sq) sqls @ [Guard_commit]) (False, ?db) = (r1, g)"
      by (cases "guard_body (commit_transaction sq) (rollback_transaction sq)
        (map (use_execute sq) sqls @ [Guard_commit]) (False, ?db)")
    have fin: "r = r1" "db' = guard_destroy (rollback_transaction sq) g"
      using assms(3,5,6) x None b
      by (auto simp: guard_scope_def begin_transaction_def exec_raw_def)
    have run: "run_statements sq (''BEGIN TRANSACTION'' # sqls) d = run_statements sq sqls d1"
      by (simp add: run_statements_def x)
    obtain d2 where d2: "db_conn (snd g) = Some d2"
      "r1 = Ret () \<and> fst g \<and> saved d2 = None \<and> content d2 = content (run_statements sq sqls d1) \<or>
       r1 \<noteq> Ret () \<and> \<not> fst g \<and> in_transaction (snd g) \<and>
         (saved d2 = Some (content d) \<or> saved d2 = None \<and> content d2 = content d)"
      using body_atomic [OF assms(1,2) _ _ _ b, of d1 "content d"] st None by auto
    show ?thesis
    proof (cases "fst g")
      case True
      then show ?thesis using d2 fin run flag by (auto simp: guard_destroy_def)
    next
      case False
      obtain e' d3 where y: "sq_exec sq ''ROLLBACK'' d2 = (e', d3)" by (cases "sq_exec sq ''ROLLBACK'' d2")
      have "db_conn db' = Some d3"
        using False d2 fin y
        by (cases e') (auto simp: guard_destroy_def rollback_transaction_def exec_raw_def)
      moreover have "saved d3 = None \<and> content d3 = content d \<or> saved d3 = Some (content d) \<and> e' \<noteq> None"
        using False d2(2) contract_rollback [OF assms(1) _ y] contract_rollback_idle [OF assms(1) _ y]
        by (cases e') auto
      ultimately show ?thesis using False d2(2) fin(1) flag y by auto
    qed
  qed
qed

text \<open>A database that is a list of rows; a statement appends itself, \<open>FAIL\<close> is an error.\<close>

definition row_sqlite :: "(string list \<times> string list option) sqlite" where
  "row_sqlite = \<lparr>sq_open = (\<lambda>_. Inr ([], None)),
     sq_exec = (\<lambda>sql (rows, saved).
       if sql = ''BEGIN TRANSACTION''
       then (if saved = None then (None, rows, Some rows) else (Some ''nested'', rows, saved))
       else if sql = ''COMMIT'' then (None, rows, None)
       else if sql = ''ROLLBACK''
       then (None, (case saved of Some c \<Rightarrow> c | None \<Rightarrow> rows), None)
       else if sql = ''FAIL'' then (Some ''failed'', rows, saved)
       else (None, rows @ [sql], saved)),
     sq_query = (\<lambda>_ d. (Rows [] None, d)), sq_changes = (\<lambda>_. 0), sq_last_rowid = (\<lambda>_. 0),
     null_message = ''out of memory''\<rparr>"

lemma row_sqlite_contract: "sqlite_contract row_sqlite fst snd {''A'', ''FAIL''}"
  by (auto simp: sqlite_contract_def row_sqlite_def split: option.splits)

theorem transaction_atomic_witness:
  "\<exists>d'. db_conn (snd (guard_scope (begin_transaction row_sqlite) (commit_transaction row_sqlite)
      (rollback_transaction row_sqlite) (map (use_execute row_sqlite) [''A'', ''FAIL''] @ [Guard_commit])
      \<lparr>db_conn = Some ([''old''], None), db_last_error = [], in_transaction = False\<rparr>)) = Some d' \<and>
    fst d' = [''old'']"
proof -
  let ?db = "\<lparr>db_conn = Some ([''old''], None), db_last_error = [], in_transaction = False\<rparr>"
  obtain r db' where g: "guard_scope (begin_transaction row_sqlite) (commit_transaction row_sqlite)
      (rollback_transaction row_sqlite) (map (use_execute row_sqlite) [''A'', ''FAIL''] @ [Guard_commit])
      ?db = (r, db')"
    by (cases "guard_scope (begin_transaction row_sqlite) (commit_transaction row_sqlite)
      (rollback_transaction row_sqlite) (map (use_execute row_sqlite) [''A'', ''FAIL''] @ [Guard_commit]) ?db")
  then have "r \<noteq> Ret ()"
    by (auto simp: guard_scope_def begin_transaction_def exec_raw_def row_sqlite_def use_execute_def
        execute_def runtime_error_def)
  moreover have "sq_exec row_sqlite ''ROLLBACK'' d2 \<noteq> (Some err, d')" for d2 err d'
    by (cases d2) (simp add: row_sqlite_def)
  ultimately show ?thesis using transaction_atomic [OF row_sqlite_contract _ _ _ _ g] g by auto
qed

end
