(* ===== verification/Http_Messages.thy ===== *)
theory Http_Messages
  imports Cpp_Numbers
begin

text \<open>
  The text side of \<open>http/HttpServer.cpp\<close>: \<open>parse_request\<close> and the message \<open>send_response\<close>
  sends, and what a client that writes a well-formed request gets through to the handlers,
  also when only a part of the request has arrived at the time of the one \<open>recv\<close>.
\<close>

definition CR :: char where "CR = CHR 0x0D"

definition crlf :: string where "crlf = [CR, newline]"

text \<open>The status text is \<open>OK\<close> for every code.\<close>

definition http_message :: "int \<Rightarrow> string \<Rightarrow> string \<Rightarrow> string" where
  "http_message code content_type body =
     ''HTTP/1.1 '' @ show_int code @ '' OK'' @ crlf @
     ''Content-Type: '' @ content_type @ crlf @
     ''Content-Length: '' @ show_nat (length body) @ crlf @
     ''Access-Control-Allow-Origin: *'' @ crlf @
     ''Connection: close'' @ crlf @ crlf @ body"

section \<open>parse_request\<close>

text \<open>\<open>in >> word\<close>: skip blanks, take a word; \<open>None\<close> when only blanks are left.\<close>

definition next_word :: "string \<Rightarrow> (string \<times> string) option" where
  "next_word s =
     (let r = dropWhile isspace s
      in if r = [] then None
         else Some (takeWhile (\<lambda>c. \<not> isspace c) r, dropWhile (\<lambda>c. \<not> isspace c) r))"

function read_headers :: "string \<Rightarrow> int \<Rightarrow> (int \<times> string) outcome" where
  "read_headers s n =
     (case getline s of
        None \<Rightarrow> Ret (n, s)
      | Some (l, r) \<Rightarrow>
          if l = [] \<or> l = [CR] then Ret (n, r)
          else obind (if take 16 l = ''Content-Length: '' then stoi (drop 16 l) else Ret n)
                 (read_headers r))"
  by pat_completeness auto
termination
  by (relation "measure (\<lambda>(s, n). length s)") (auto dest: getline_shorter)

declare read_headers.simps [simp del]

text \<open>\<open>body.resize(n); iss.read(&body[0], n)\<close>.\<close>

definition read_body :: "nat \<Rightarrow> string \<Rightarrow> string" where
  "read_body n rest = take n rest @ replicate (n - length rest) (CHR 0x00)"

definition parse_request :: "string \<Rightarrow> (string \<times> string \<times> string) option outcome" where
  "parse_request buffer =
     (case getline buffer of
        None \<Rightarrow> Ret None
      | Some (l, rest) \<Rightarrow>
          (case next_word l of
             None \<Rightarrow> Ret None
           | Some (verb, l1) \<Rightarrow>
               (case next_word l1 of
                  None \<Rightarrow> Ret None
                | Some (path, l2) \<Rightarrow>
                    omap (\<lambda>(n, r). Some (verb, path,
                            if verb = ''POST'' \<and> n > 0 then read_body (nat n) r else []))
                      (read_headers rest 0))))"

text \<open>The exceptions of \<open>stoi\<close> are the only way \<open>parse_request\<close> does not return.\<close>

fun settled :: "'a outcome \<Rightarrow> bool" where
  "settled (Ret x) = True"
| "settled (Throw e) = True"
| "settled r = False"

lemma settled_cases: "settled m \<longleftrightarrow> (\<exists>x. m = Ret x) \<or> (\<exists>e. m = Throw e)"
  by (cases m) auto

lemma settled_obind: "settled m \<Longrightarrow> (\<And>x. m = Ret x \<Longrightarrow> settled (f x)) \<Longrightarrow> settled (obind m f)"
  by (cases m) auto

lemma settled_omap [simp]: "settled (omap f m) = settled m"
  by (cases m) auto

lemma settled_stoi [simp]: "settled (stoi_base b s)"
  using stoi_total [of b s] by (auto simp: settled_cases)

lemma read_headers_total: "settled (read_headers s n)"
  by (induction s n rule: read_headers.induct)
    (subst read_headers.simps, auto split: option.split intro!: settled_obind)

lemma parse_request_total: "settled (parse_request s)"
  by (auto simp: parse_request_def read_headers_total split: option.split prod.split)

section \<open>Well-formed requests\<close>

definition is_word :: "string \<Rightarrow> bool" where
  "is_word w \<longleftrightarrow> w \<noteq> [] \<and> (\<forall>c\<in>set w. \<not> isspace c)"

definition header_ok :: "string \<Rightarrow> bool" where
  "header_ok h \<longleftrightarrow> h \<noteq> [] \<and> newline \<notin> set h \<and> take 16 (h @ [CR]) \<noteq> ''Content-Length: ''"

definition request_head :: "string \<Rightarrow> string \<Rightarrow> string list \<Rightarrow> nat \<Rightarrow> string" where
  "request_head verb path headers n =
     verb @ '' '' @ path @ '' HTTP/1.1'' @ crlf @ concat (map (\<lambda>h. h @ crlf) headers) @
     ''Content-Length: '' @ show_nat n @ crlf @ crlf"

lemma getline_line: "newline \<notin> set l \<Longrightarrow> getline (l @ newline # r) = Some (l, r)"
proof -
  assume "newline \<notin> set l"
  then have "\<And>c. c \<in> set l \<Longrightarrow> c \<noteq> newline" by blast
  then show ?thesis by (simp add: getline_def takeWhile_append2 dropWhile_append2)
qed

lemma isspace_newline [simp]: "isspace newline" "isspace (CHR '' '')"
  by (simp_all add: isspace_def newline_def)

lemma CR_newline [simp]: "CR \<noteq> newline" "newline \<noteq> CR" "CHR '' '' \<noteq> CR"
  by (simp_all add: CR_def newline_def)

lemma next_word_word:
  assumes "is_word w" and "r = [] \<or> isspace (hd r)"
  shows "next_word (w @ r) = Some (w, r)" and "isspace c \<Longrightarrow> next_word (c # w @ r) = Some (w, r)"
proof -
  have "dropWhile isspace (w @ r) = w @ r"
    using assms(1) by (cases w) (auto simp: is_word_def)
  moreover have "takeWhile (\<lambda>c. \<not> isspace c) (w @ r) = w" "dropWhile (\<lambda>c. \<not> isspace c) (w @ r) = r"
    using assms by (cases r; auto simp: is_word_def takeWhile_append2 dropWhile_append2)+
  ultimately show "next_word (w @ r) = Some (w, r)"
    and "isspace c \<Longrightarrow> next_word (c # w @ r) = Some (w, r)"
    using assms(1) by (auto simp: next_word_def is_word_def)
qed

lemma read_headers_other:
  assumes "header_ok h"
  shows "read_headers (h @ crlf @ r) n = read_headers r n"
  using assms getline_line [of "h @ [CR]" r]
  by (subst read_headers.simps) (auto simp: header_ok_def crlf_def)

lemma read_headers_others:
  "\<forall>h\<in>set hs. header_ok h \<Longrightarrow>
   read_headers (concat (map (\<lambda>h. h @ crlf) hs) @ r) n = read_headers r n"
  by (induction hs) (simp_all add: read_headers_other)

lemma show_nat_no_newline: "newline \<notin> set (show_nat n)"
  using show_nat_digits [of newline n] digit_char_not_special(1) isspace_newline(1) by metis

lemma read_headers_length:
  assumes "is_int (int n)"
  shows "read_headers (''Content-Length: '' @ show_nat n @ crlf @ crlf @ r) k = Ret (int n, r)"
proof -
  let ?l = "''Content-Length: '' @ show_nat n @ [CR]"
  have "getline (?l @ newline # crlf @ r) = Some (?l, crlf @ r)"
    using show_nat_no_newline [of n] CR_newline by (intro getline_line) (simp add: newline_def CR_def)
  moreover have "stoi (show_nat n @ [CR]) = Ret (int n)"
    using stoi_show_int [OF assms, of "[CR]"] by (simp add: show_int_def CR_def digit_value_def Let_def)
  moreover have "read_headers (crlf @ r) m = Ret (m, r)" for m
    using getline_line [of "[CR]" r] by (subst read_headers.simps) (simp add: crlf_def)
  ultimately show ?thesis
    by (subst read_headers.simps) (simp add: crlf_def)
qed

lemma parse_request_split:
  assumes "is_word verb" and "is_word path" and "\<forall>h\<in>set headers. header_ok h"
    and "is_int (int (length body))" and "k \<le> length body"
  shows "parse_request (request_head verb path headers (length body) @ take k body) =
    Ret (Some (verb, path,
      if verb = ''POST'' then take k body @ replicate (length body - k) (CHR 0x00) else []))"
proof -
  let ?n = "length body"
  let ?l = "verb @ '' '' @ path @ '' HTTP/1.1'' @ [CR]"
  let ?rest = "concat (map (\<lambda>h. h @ crlf) headers) @
     ''Content-Length: '' @ show_nat ?n @ crlf @ crlf @ take k body"
  have "newline \<notin> set ?l"
    using assms(1,2) isspace_newline(1) by (auto simp: is_word_def) (auto simp: newline_def)
  then have "getline (request_head verb path headers ?n @ take k body) = Some (?l, ?rest)"
    using getline_line [of ?l ?rest] by (simp add: request_head_def crlf_def)
  moreover have "next_word ?l = Some (verb, '' '' @ path @ '' HTTP/1.1'' @ [CR])"
    using next_word_word(1) [OF assms(1)] by simp
  moreover have "next_word ('' '' @ path @ '' HTTP/1.1'' @ [CR]) = Some (path, '' HTTP/1.1'' @ [CR])"
    using next_word_word(2) [OF assms(2)] by simp
  moreover have "read_headers ?rest 0 = Ret (int ?n, take k body)"
    by (simp only: read_headers_others [OF assms(3)] read_headers_length [OF assms(4)])
  ultimately show ?thesis
    using assms(5) by (simp add: parse_request_def read_body_def min_absorb1)
qed

text \<open>C33: a well-formed request reaches the handlers with its verb, its path and, for a POST, as much
  of its body as has arrived, filled up with NUL bytes to the announced length.\<close>

theorem request_roundtrip:
  assumes "is_word verb" and "is_word path" and "\<forall>h\<in>set headers. header_ok h"
    and "is_int (int (length body))" and "k \<le> length body"
  shows "parse_request (request_head verb path headers (length body) @ take k body) =
    Ret (Some (verb, path,
      if verb = ''POST'' then take k body @ replicate (length body - k) (CHR 0x00) else []))"
  using assms by (rule parse_request_split)

theorem request_roundtrip_witness:
  "parse_request (request_head ''POST'' ''/api/query'' [''Host: localhost''] 5 @ ''que'') =
    Ret (Some (''POST'', ''/api/query'', ''que'' @ [CHR 0x00, CHR 0x00]))"
  using request_roundtrip [of "''POST''" "''/api/query''" "[''Host: localhost'']" "''query''" 3]
  by (simp add: is_word_def isspace_def header_ok_def is_int_def INT_MAX_def INT_MIN_def newline_def
      numeral_eq_Suc)

end
