(* ===== verification/Http_Server.thy ===== *)
theory Http_Server
  imports Http_Messages Metrics Council Client_Factory
begin

text \<open>
  \<open>http/HttpServer.h\<close> and \<open>http/HttpServer.cpp\<close>: the job table of the web server, its request
  handlers and the routing. A handler gives the reply it sends; texts are written into the JSON
  as they are, without escaping, as in the code. The dashboard page is a parameter.
\<close>

section \<open>State\<close>

record analyst_data =
  ad_id :: string
  ad_name :: string
  ad_model_provider :: string
  ad_confidence :: int
  ad_votes :: int
  ad_eliminated_round :: int
  ad_argument_strength :: rat

record execution_job =
  job_id :: int
  job_status :: int
  job_query :: string
  job_output :: string
  job_error :: string
  job_provider :: string
  job_rounds :: int
  job_current_round :: int
  job_analyst_count :: int
  job_analysts :: "analyst_data list"
  job_start_time :: int
  job_duration_ms :: int
  job_success :: bool

definition empty_job :: execution_job where
  "empty_job = \<lparr>job_id = - 1, job_status = 0, job_query = [], job_output = [], job_error = [],
     job_provider = [], job_rounds = 4, job_current_round = 0, job_analyst_count = 0,
     job_analysts = [], job_start_time = 0, job_duration_ms = 0, job_success = False\<rparr>"

record http_server =
  srv_config :: configuration
  srv_client :: "client option"
  srv_council :: "client council"
  srv_running :: bool
  jobs :: "(int, execution_job) omap"
  next_job_id :: int
  query_history :: "execution_job list"

definition new_server :: "configuration \<Rightarrow> client option \<Rightarrow> http_server" where
  "new_server cfg cl =
     \<lparr>srv_config = cfg, srv_client = cl, srv_council = new_council cfg, srv_running = False,
      jobs = [], next_job_id = 1, query_history = []\<rparr>"

record reply =
  reply_code :: int
  reply_type :: string
  reply_body :: string

text \<open>What \<open>send_response\<close> puts on the wire for a reply.\<close>

definition send_response :: "reply \<Rightarrow> string" where
  "send_response r = http_message (reply_code r) (reply_type r) (reply_body r)"

definition json_reply :: "int \<Rightarrow> string \<Rightarrow> reply" where
  "json_reply code body = \<lparr>reply_code = code, reply_type = ''application/json'', reply_body = body\<rparr>"

definition text_reply :: "int \<Rightarrow> string \<Rightarrow> reply" where
  "text_reply code body = \<lparr>reply_code = code, reply_type = ''text/plain'', reply_body = body\<rparr>"

section \<open>The job table\<close>

text \<open>
  \<open>allocate_job\<close> at time \<open>now\<close> (in seconds). The counter is an \<open>int\<close>, so its increment is
  undefined at the largest value.
\<close>

definition allocate_job ::
  "int \<Rightarrow> string \<Rightarrow> http_server \<Rightarrow> execution_job outcome \<times> http_server" where
  "allocate_job now q s =
     (let j = empty_job\<lparr>job_id := next_job_id s, job_query := q, job_status := 0,
                job_start_time := now, job_provider := api_type (srv_config s),
                job_rounds := rounds (srv_config s)\<rparr>
      in if next_job_id s = INT_MAX then (Undef ''signed overflow'', s)
         else (Ret j, s\<lparr>next_job_id := next_job_id s + 1,
                        jobs := om_put (next_job_id s) j (jobs s),
                        query_history := query_history s @ [j]\<rparr>))"

definition find_job :: "int \<Rightarrow> http_server \<Rightarrow> execution_job" where
  "find_job i s = (case map_of (jobs s) i of Some j \<Rightarrow> j | None \<Rightarrow> empty_job)"

text \<open>The duration is a \<open>time_t\<close> narrowed to \<open>int\<close>.\<close>

definition narrow_int :: "int \<Rightarrow> int" where
  "narrow_int v = sint (word_of_int v :: 32 word)"

definition finish_job :: "int \<Rightarrow> string \<Rightarrow> int \<Rightarrow> execution_job \<Rightarrow> execution_job" where
  "finish_job now output status j =
     j\<lparr>job_output := output, job_status := status,
       job_duration_ms := narrow_int ((now - job_start_time j) * 1000),
       job_success := (status = 1)\<rparr>"

definition update_job_output ::
  "int \<Rightarrow> int \<Rightarrow> string \<Rightarrow> int \<Rightarrow> http_server \<Rightarrow> http_server" where
  "update_job_output now i output status s =
     (case map_of (jobs s) i of
        None \<Rightarrow> s
      | Some j \<Rightarrow> s\<lparr>jobs := om_put i (finish_job now output status j) (jobs s)\<rparr>)"

section \<open>Handlers of the job table\<close>

fun join :: "string \<Rightarrow> string list \<Rightarrow> string" where
  "join sep [] = []"
| "join sep [x] = x"
| "join sep (x # y # xs) = x @ sep @ join sep (y # xs)"

definition quoted :: "string \<Rightarrow> string" where
  "quoted s = [quote] @ s @ [quote]"

definition handle_root :: "string \<Rightarrow> reply" where
  "handle_root dashboard = \<lparr>reply_code = 200, reply_type = ''text/html'', reply_body = dashboard\<rparr>"

definition task_entry :: "int \<times> execution_job \<Rightarrow> string" where \<open>
  task_entry = (\<lambda>(i, j).
     ''{"id":'' @ show_int i @ '',"query":"'' @ job_query j @ ''","status":'' @
     show_int (job_status j) @ '',"output":"'' @ job_output j @ ''","duration":'' @
     show_int (job_duration_ms j) @ ''}'')\<close>

definition handle_tasks :: "http_server \<Rightarrow> reply" where \<open>
  handle_tasks s =
     json_reply 200 (''{"tasks":['' @ join '','' (map task_entry (jobs s)) @ '']}'')\<close>

text \<open>The text of the field \<open>query\<close>; when its closing quote is missing, the rest of the body.\<close>

definition query_of_body :: "string \<Rightarrow> string" where \<open>
  query_of_body body =
     (case str_find body ''"query":"'' 0 of
        None \<Rightarrow> []
      | Some p \<Rightarrow>
          (case str_find body [quote] (p + 9) of
             None \<Rightarrow> drop (p + 9) body
           | Some e \<Rightarrow> substr body (p + 9) (e - (p + 9))))\<close>

text \<open>The second component of the result is the job whose thread is started.\<close>

definition handle_query ::
  "int \<Rightarrow> string \<Rightarrow> http_server \<Rightarrow> (reply \<times> execution_job option) outcome \<times> http_server" where \<open>
  handle_query now body s =
     (let q = query_of_body body
      in if q = [] then (Ret (json_reply 400 ''{"error":"missing query"}'', None), s)
         else (let (r, s') = allocate_job now q s
               in (omap (\<lambda>j. (json_reply 200 (''{"job_id":'' @ show_int (job_id j) @ ''}''),
                             Some (j\<lparr>job_rounds := rounds (srv_config s)\<rparr>))) r, s')))\<close>

definition handle_query_status :: "int \<Rightarrow> http_server \<Rightarrow> reply" where \<open>
  handle_query_status i s =
     (let j = find_job i s
      in if job_id j = - 1 then json_reply 404 ''{"error":"job not found"}''
         else json_reply 200
           (''{"id":'' @ show_int (job_id j) @ '',"status":'' @ show_int (job_status j) @
            '',"query":"'' @ job_query j @ ''","output":"'' @ job_output j @ ''","duration":'' @
            show_int (job_duration_ms j) @ ''}''))\<close>

definition history_fields :: "execution_job \<Rightarrow> string" where
  "history_fields j =
     (let f = json_field ''      ''
      in line ''    {'' @
         line (f ''job_id'' (show_int (job_id j)) @ '','') @
         line (f ''query'' (quoted (job_query j)) @ '','') @
         line (f ''provider'' (quoted (job_provider j)) @ '','') @
         line (f ''status'' (show_int (job_status j)) @ '','') @
         f ''duration_ms'' (show_int (job_duration_ms j)))"

definition history_entry :: "execution_job \<Rightarrow> string" where
  "history_entry j =
     line (history_fields j @ '','') @
     line (json_field ''      '' ''success'' (show_bool (job_success j))) @ ''    }''"

definition handle_history :: "http_server \<Rightarrow> reply" where \<open>
  handle_history s =
     json_reply 200 (line ''{'' @ line ''  "history": ['' @
       join (line '','') (map history_entry (query_history s)) @
       [newline] @ line ''  ]'' @ line ''}'')\<close>

definition handle_history_search :: "string \<Rightarrow> http_server \<Rightarrow> reply" where \<open>
  handle_history_search search_text s =
     json_reply 200 (line ''{'' @ line ''  "results": ['' @
       join (line '','')
         (map (\<lambda>j. line (history_fields j) @ ''    }'')
           (filter (\<lambda>j. str_find (job_query j) search_text 0 \<noteq> None) (query_history s))) @
       [newline] @ line ''  ]'' @ line ''}'')\<close>

definition job_not_found :: reply where \<open>
  job_not_found = json_reply 404 ''{"error":"job not found"}''\<close>

definition handle_debate_progress :: "int \<Rightarrow> http_server \<Rightarrow> reply outcome" where
  "handle_debate_progress i s =
     (case map_of (jobs s) i of
        None \<Rightarrow> Ret job_not_found
      | Some j \<Rightarrow>
          (let f = json_field ''  ''
           in omap (\<lambda>percent. json_reply 200 (
                line ''{'' @
                line (f ''job_id'' (show_int (job_id j)) @ '','') @
                line (f ''status'' (show_int (job_status j)) @ '','') @
                line (f ''current_round'' (show_int (job_current_round j)) @ '','') @
                line (f ''total_rounds'' (show_int (job_rounds j)) @ '','') @
                line (f ''analyst_count'' (show_int (job_analyst_count j)) @ '','') @
                line (f ''query'' (quoted (job_query j)) @ '','') @
                line (f ''provider'' (quoted (job_provider j)) @ '','') @
                line (f ''duration_ms'' (show_int (job_duration_ms j)) @ '','') @
                line (f ''progress_percent'' (show_int percent)) @ line ''}''))
              (if job_rounds j > 0
               then omap (\<lambda>n. cdiv n (job_rounds j)) (checked_int (100 * job_current_round j))
               else Ret 0)))"

definition analyst_entry :: "analyst_data \<Rightarrow> string" where
  "analyst_entry a =
     (let f = json_field ''      ''
      in line ''    {'' @
         line (f ''id'' (quoted (ad_id a)) @ '','') @
         line (f ''name'' (quoted (ad_name a)) @ '','') @
         line (f ''provider'' (quoted (ad_model_provider a)) @ '','') @
         line (f ''confidence'' (show_int (ad_confidence a)) @ '','') @
         line (f ''votes'' (show_int (ad_votes a)) @ '','') @
         line (f ''eliminated_round'' (show_int (ad_eliminated_round a)) @ '','') @
         line (f ''argument_strength'' (show_float (ad_argument_strength a))) @
         line ''    }'')"

definition handle_debate_visualization :: "int \<Rightarrow> http_server \<Rightarrow> reply" where \<open>
  handle_debate_visualization i s =
     (case map_of (jobs s) i of
        None \<Rightarrow> job_not_found
      | Some j \<Rightarrow>
          (let f = json_field ''  '';
               analysts_json = line ''['' @ join (line '','') (map analyst_entry (job_analysts j)) @
                 ''  ]''
           in json_reply 200 (
                line ''{'' @
                line (f ''job_id'' (show_int (job_id j)) @ '','') @
                line (f ''query'' (quoted (job_query j)) @ '','') @
                line (f ''status'' (show_int (job_status j)) @ '','') @
                line (f ''current_round'' (show_int (job_current_round j)) @ '','') @
                line (f ''total_rounds'' (show_int (job_rounds j)) @ '','') @
                line (f ''provider'' (quoted (job_provider j)) @ '','') @
                line (f ''duration_ms'' (show_int (job_duration_ms j)) @ '','') @
                line (f ''analysts'' analysts_json @ '','') @
                line ''  "winner": {'' @
                line ''    "analyst_id": "analysis_pending",'' @
                line ''    "confidence": 0'' @ line ''  }'' @ line ''}'')))\<close>

end
