(* ===== verification/Http_Routes.thy ===== *)
theory Http_Routes
  imports Http_Server
begin

text \<open>
  \<open>http/HttpServer.cpp\<close>, second part: the handlers of the metrics, the routing of a request,
  and the body of the thread that runs the debate of a job.
\<close>

section \<open>Metrics handlers\<close>

fun collect_outcomes :: "('a \<Rightarrow> 'b outcome) \<Rightarrow> 'a list \<Rightarrow> 'b list outcome" where
  "collect_outcomes f [] = Ret []"
| "collect_outcomes f (x # xs) = obind (f x) (\<lambda>y. omap (\<lambda>ys. y # ys) (collect_outcomes f xs))"

text \<open>An exception of \<open>stoi\<close> leaves the default.\<close>

definition hours_param :: "int \<Rightarrow> string \<Rightarrow> int" where
  "hours_param dflt params =
     (case str_find params ''hours='' 0 of
        None \<Rightarrow> dflt
      | Some p \<Rightarrow> (case stoi (drop (p + 6) params) of Ret h \<Rightarrow> h | _ \<Rightarrow> dflt))"

definition provider_param :: "string \<Rightarrow> string" where
  "provider_param params =
     (case str_find params ''provider='' 0 of
        None \<Rightarrow> ''ollama''
      | Some p \<Rightarrow>
          (case str_find params ''&'' p of
             None \<Rightarrow> drop (p + 9) params
           | Some e \<Rightarrow> substr params (p + 9) (e - p - 9)))"

definition success_rate :: "int \<Rightarrow> int \<Rightarrow> rat" where
  "success_rate part n = (if n > 0 then 100 * of_int part / of_int n else 0)"

definition handle_metrics :: "metrics \<Rightarrow> reply outcome" where
  "handle_metrics m =
     omap (\<lambda>t. \<lparr>reply_code = 200, reply_type = ''text/plain; version=0.0.4'', reply_body = t\<rparr>)
       (get_prometheus_text False m)"

definition handle_stats :: "metrics \<Rightarrow> reply outcome" where
  "handle_stats m = omap (json_reply 200) (get_json_summary False m)"

definition trend_entry :: "provider_metrics \<Rightarrow> percentile_stats \<Rightarrow> string" where
  "trend_entry st ps =
     line (''    '' @ quoted (provider st) @ '': {'') @
     line (json_field ''      '' ''latencies''
       (''['' @ show_float (p50 ps) @ '', '' @ show_float (p95 ps) @ '', '' @ show_float (p99 ps) @ ''],'')) @
     line (json_field ''      '' ''success_rate''
       (show_float (success_rate (queries_success st) (queries_total st)))) @
     line ''    }''"

definition handle_metrics_trends :: "int \<Rightarrow> string \<Rightarrow> metrics \<Rightarrow> reply outcome" where
  "handle_metrics_trends now params m =
     (let hours = hours_param 24 params
      in obind (get_all_stats False m) (\<lambda>all.
         omap (\<lambda>entries. json_reply 200 (
             line ''{'' @ line (json_field ''  '' ''hours'' (show_int hours) @ '','') @
             line (json_field ''  '' ''providers'' ''{'') @ join (line '','') entries @
             line ''  }'' @ line ''}''))
           (collect_outcomes
             (\<lambda>st. omap (trend_entry st) (get_percentiles False now (provider st) hours m)) all)))"

definition handle_metrics_percentiles :: "int \<Rightarrow> string \<Rightarrow> metrics \<Rightarrow> reply outcome" where
  "handle_metrics_percentiles now params m =
     (let p = provider_param params; hours = hours_param 24 params; f = json_field ''  ''
      in omap (\<lambda>ps. json_reply 200 (
           line ''{'' @ line (f ''provider'' (quoted p) @ '','') @
           line (f ''hours'' (show_int hours) @ '','') @
           line (f ''p50'' (show_float (p50 ps)) @ '','') @
           line (f ''p95'' (show_float (p95 ps)) @ '','') @
           line (f ''p99'' (show_float (p99 ps))) @ line ''}''))
         (get_percentiles False now p hours m))"

definition bin_label :: "nat \<Rightarrow> string" where
  "bin_label i = quoted (show_nat (i * 500) @ ''-'' @ show_nat ((i + 1) * 500))"

definition handle_metrics_tokens :: "int \<Rightarrow> string \<Rightarrow> metrics \<Rightarrow> reply outcome" where
  "handle_metrics_tokens now params m =
     (let hours = hours_param 0 params; f = json_field ''  ''
      in omap (\<lambda>histogram. json_reply 200 (
           line ''{'' @ line (f ''hours'' (show_int hours) @ '','') @
           line (f ''bins'' (''['' @ join '', '' (map show_int histogram) @ ''],'')) @
           line (f ''labels'' (''['' @ join '', '' (map bin_label [0..<length histogram]) @ '']'')) @
           line ''}''))
         (get_token_distribution False now hours m))"

definition model_entry :: "provider_metrics \<Rightarrow> string" where
  "model_entry st =
     (let f = json_field ''      ''
      in line ''    {'' @ line (f ''name'' (quoted (provider st)) @ '','') @
         line (f ''provider'' (quoted (provider st)) @ '','') @
         line (f ''avg_latency'' (show_float (latency_ms_avg st)) @ '','') @
         line (f ''success_rate''
           (show_float (success_rate (queries_success st) (queries_total st))) @ '','') @
         line (f ''count'' (show_int (queries_total st))) @ line ''    }'')"

definition handle_metrics_models :: "string \<Rightarrow> metrics \<Rightarrow> reply outcome" where
  "handle_metrics_models params m =
     omap (\<lambda>all. json_reply 200 (
         line ''{'' @ line (json_field ''  '' ''hours'' (show_int (hours_param 24 params)) @ '','') @
         line (json_field ''  '' ''models'' ''['') @ join (line '','') (map model_entry all) @
         line ''  ]'' @ line ''}''))
       (get_all_stats False m)"

definition handle_metrics_timeseries :: "int \<Rightarrow> string \<Rightarrow> metrics \<Rightarrow> reply outcome" where
  "handle_metrics_timeseries now params m =
     (let hours = hours_param 24 params; p = provider_param params; f = json_field ''  ''
      in obind (get_timeseries False now p hours m) (\<lambda>ts.
         omap (\<lambda>all.
           (let n = sum_list (map queries_total all); failed = sum_list (map queries_failed all)
            in json_reply 200 (
              line ''{'' @ line (f ''provider'' (quoted p) @ '','') @
              line (f ''hours'' (show_int hours) @ '','') @
              line (f ''timestamps'' (''['' @ join '', '' (map (\<lambda>t. show_int (timestamp_ms t)) ts) @ ''],'')) @
              line (f ''latencies'' (''['' @ join '', '' (map (\<lambda>t. show_float (point_value t)) ts) @ ''],'')) @
              line (f ''throughput_qpm'' (show_int (cdiv n (max 1 (cdiv hours 60)))) @ '','') @
              line (f ''error_rate'' (show_float (success_rate failed n))) @ line ''}'')))
           (get_all_stats False m)))"

section \<open>Routing\<close>

definition not_found :: reply where
  "not_found = text_reply 404 ''Not Found''"

text \<open>\<open>(q_pos != npos) ? path.substr(q_pos) : ""\<close>\<close>

definition query_string :: "string \<Rightarrow> string" where
  "query_string path = (case str_find path ''?'' 0 of None \<Rightarrow> [] | Some p \<Rightarrow> drop p path)"

definition contains :: "string \<Rightarrow> string \<Rightarrow> bool" where
  "contains path part = (str_find path part 0 \<noteq> None)"

text \<open>\<open>try { int job_id = std::stoi(...); handler } catch (...) { 400 }\<close>\<close>

definition with_job_id :: "string \<Rightarrow> (int \<Rightarrow> reply outcome) \<Rightarrow> reply outcome" where \<open>
  with_job_id digits handler =
     (case obind (stoi digits) handler of
        Throw e \<Rightarrow> Ret (json_reply 400 ''{"error":"invalid job_id"}'')
      | r \<Rightarrow> r)\<close>

definition route_debate :: "string \<Rightarrow> http_server \<Rightarrow> reply outcome" where
  "route_debate path s =
     (case str_find path ''/progress'' 0 of
        Some p \<Rightarrow> with_job_id (substr path 11 (p - 11)) (\<lambda>i. handle_debate_progress i s)
      | None \<Rightarrow>
          (case str_find path ''/visualization'' 0 of
             Some p \<Rightarrow> with_job_id (substr path 11 (p - 11)) (\<lambda>i. Ret (handle_debate_visualization i s))
           | None \<Rightarrow> Ret not_found))"

definition route_metrics :: "int \<Rightarrow> string \<Rightarrow> metrics \<Rightarrow> reply outcome" where
  "route_metrics now path m =
     (if contains path ''/trends'' then handle_metrics_trends now (query_string path) m
      else if contains path ''/percentiles'' then handle_metrics_percentiles now (query_string path) m
      else if contains path ''/tokens'' then handle_metrics_tokens now (query_string path) m
      else if contains path ''/models'' then handle_metrics_models (query_string path) m
      else if contains path ''/timeseries'' then handle_metrics_timeseries now (query_string path) m
      else Ret not_found)"

definition route_status :: "string \<Rightarrow> http_server \<Rightarrow> reply outcome" where \<open>
  route_status path s =
     (case str_find path ''job_id='' 0 of
        Some p \<Rightarrow> omap (\<lambda>i. handle_query_status i s) (stoi (drop (p + 7) path))
      | None \<Rightarrow> Ret (json_reply 400 ''{"error":"missing job_id"}''))\<close>

definition route_search :: "string \<Rightarrow> http_server \<Rightarrow> reply outcome" where \<open>
  route_search path s =
     (case str_find path ''q='' 0 of
        Some p \<Rightarrow> Ret (handle_history_search (drop (p + 2) path) s)
      | None \<Rightarrow> Ret (json_reply 400 ''{"error":"missing q parameter"}''))\<close>

text \<open>
  The branches of \<open>handle_request\<close> that only read. \<open>now\<close> is the clock in milliseconds; the
  lengths in the tests are those of the code.
\<close>

definition route_reading ::
  "string \<Rightarrow> int \<Rightarrow> metrics \<Rightarrow> string \<Rightarrow> string \<Rightarrow> http_server \<Rightarrow> reply outcome" where
  "route_reading dashboard now m verb path s =
     (if path = ''/'' \<or> path = ''/index.html'' then Ret (handle_root dashboard)
      else if path = ''/api/tasks'' \<and> verb = ''GET'' then Ret (handle_tasks s)
      else if take 11 path = ''/api/query?'' \<and> verb = ''GET'' then route_status path s
      else if path = ''/metrics'' \<and> verb = ''GET'' then handle_metrics m
      else if path = ''/api/stats'' \<and> verb = ''GET'' then handle_stats m
      else if path = ''/api/history'' \<and> verb = ''GET'' then Ret (handle_history s)
      else if take 18 path = ''/api/history/search'' \<and> verb = ''GET'' then route_search path s
      else if take 15 path = ''/api/debate/'' \<and> verb = ''GET'' then route_debate path s
      else if take 14 path = ''/api/metrics/'' \<and> verb = ''GET'' then route_metrics now path m
      else Ret not_found)"

type_synonym handled = "(reply option \<times> execution_job option) outcome"

definition route ::
  "string \<Rightarrow> int \<Rightarrow> metrics \<Rightarrow> string \<times> string \<times> string \<Rightarrow> http_server \<Rightarrow> handled \<times> http_server" where
  "route dashboard now m req s =
     (let (verb, path, body) = req
      in if path = ''/api/query'' \<and> verb = ''POST''
         then (let (r, s') = handle_query (now div 1000) body s
               in (omap (\<lambda>(rep, j). (Some rep, j)) r, s'))
         else (omap (\<lambda>rep. (Some rep, None)) (route_reading dashboard now m verb path s), s))"

text \<open>One \<open>recv\<close> into a buffer of 4096 bytes, the last of which is kept free.\<close>

definition recv_buffer :: "string \<Rightarrow> string" where
  "recv_buffer sent = take 4095 sent"

definition handle_request ::
  "string \<Rightarrow> int \<Rightarrow> metrics \<Rightarrow> string \<Rightarrow> http_server \<Rightarrow> handled \<times> http_server" where
  "handle_request dashboard now m sent s =
     (if recv_buffer sent = [] then (Ret (None, None), s)
      else (case parse_request (recv_buffer sent) of
              Ret None \<Rightarrow> (Ret (Some (text_reply 400 ''Bad Request''), None), s)
            | Ret (Some req) \<Rightarrow> route dashboard now m req s
            | Throw e \<Rightarrow> (Throw e, s)
            | Undef r \<Rightarrow> (Undef r, s)
            | Blocked \<Rightarrow> (Blocked, s)))"

section \<open>The thread of a job\<close>

datatype thread_action = Record_metrics debate_metrics | Store_output string int

definition failure_metrics :: "configuration \<Rightarrow> string \<Rightarrow> debate_metrics" where
  "failure_metrics cfg e =
     debate_metrics_default\<lparr>llm_provider := api_type cfg, success := False, dm_error := e\<rparr>"

definition client_from :: "'w network \<Rightarrow> (string \<Rightarrow> string option) \<Rightarrow> configuration \<Rightarrow> 'w \<Rightarrow> client outcome" where
  "client_from net env cfg w =
     create_from_config net env (api_type cfg) (claude_api_key cfg) (claude_model cfg)
       (google_agy_api_key cfg) (google_agy_model cfg) (google_agy_endpoint cfg)
       (case ollama_urls cfg of [] \<Rightarrow> [] | u # us \<Rightarrow> u) 120 w"

definition debate_output :: "debate_result \<Rightarrow> int \<Rightarrow> string" where
  "debate_output result elapsed =
     line ''Debate completed.'' @
     line (''Winner: Analyst '' @ show_int (final_winner result)) @
     line (''Rounds: '' @ show_int (rounds_completed result)) @
     line (''Pruned: '' @ show_int (analysts_pruned result) @ '' analysts'') @
     ''Duration: '' @ show_int elapsed @ ''ms''"

definition debate_record ::
  "(string \<Rightarrow> nat) \<Rightarrow> configuration \<Rightarrow> execution_job \<Rightarrow> debate_result \<Rightarrow> int \<Rightarrow> debate_metrics" where
  "debate_record str_hash cfg j result elapsed =
     debate_metrics_default
       \<lparr>query_hash := show_nat (str_hash (job_query j)),
        dm_rounds_completed := rounds_completed result, total_tokens_used := 0,
        duration_ms := of_int elapsed, success := True, llm_provider := api_type cfg\<rparr>"

text \<open>
  The debate of the thread on the council of the server, and what the thread does after it with
  the two locked objects, in order. \<open>std::hash\<close>, the network, the environment, the answers of the
  client and the time the debate took are parameters.
\<close>

definition thread_body ::
  "(string \<Rightarrow> nat) \<Rightarrow> 'w network \<Rightarrow> (string \<Rightarrow> string option) \<Rightarrow> 'w \<Rightarrow> client answers \<Rightarrow> int \<Rightarrow>
   execution_job \<Rightarrow> http_server \<Rightarrow> thread_action list \<times> http_server" where
  "thread_body str_hash net env w answer elapsed j s =
     (let cfg = srv_config s
      in case client_from net env cfg w of
           Ret cl \<Rightarrow>
             (case initialize_analysts (Some cl) (models cfg) (srv_council s) of
                (False, c) \<Rightarrow>
                  ([Store_output ''Failed to initialize analysts'' 2,
                    Record_metrics (failure_metrics cfg ''Failed to initialize analysts'')],
                   s\<lparr>srv_council := c\<rparr>)
              | (True, c) \<Rightarrow>
                  (let (result, c') = run_debate answer (job_query j) (job_rounds j) c
                   in ([Record_metrics (debate_record str_hash cfg j result elapsed),
                        Store_output (debate_output result elapsed) 1],
                       s\<lparr>srv_council := c'\<rparr>)))
         | Throw e \<Rightarrow>
             ([Store_output (''Error: '' @ what e) 2, Record_metrics (failure_metrics cfg (what e))], s)
         | r \<Rightarrow> ([], s))"

end
