(* ===== verification/Job_Store.thy ===== *)
theory Job_Store
  imports Main
begin

text \<open>
  The interface of a table of jobs whose threads store into it: looking up a job, and storing
  something into the job of one key. Both servers of the program keep such a table,
  \<open>http/HttpServer.cpp\<close> a map from job numbers and \<open>tribunal_http.c\<close> an array of slots.
\<close>

locale job_store =
  fixes lookup :: "'s \<Rightarrow> 'k \<Rightarrow> 'j option"
    and put :: "'k \<Rightarrow> 'u \<Rightarrow> 's \<Rightarrow> 's"
    and change :: "'u \<Rightarrow> 'j \<Rightarrow> 'j"
    and ok :: "'s \<Rightarrow> bool"
  assumes ok_put: "ok s \<Longrightarrow> ok (put k u s)"
    and lookup_put:
      "ok s \<Longrightarrow> lookup (put k u s) i = (if i = k then map_option (change u) (lookup s i) else lookup s i)"
begin

text \<open>The threads of different jobs do not disturb each other, in whatever order they store.\<close>

definition put_all :: "('k \<times> 'u) list \<Rightarrow> 's \<Rightarrow> 's" where
  "put_all us s = fold (\<lambda>(k, u). put k u) us s"

lemma ok_put_all: "ok s \<Longrightarrow> ok (put_all us s)"
  by (induction us arbitrary: s) (auto simp: put_all_def ok_put)

lemma lookup_put_all:
  "ok s \<Longrightarrow> lookup (put_all us s) i =
     map_option (fold change (map snd (filter (\<lambda>ku. fst ku = i) us))) (lookup s i)"
proof (induction us arbitrary: s)
  case Nil
  then show ?case by (simp add: put_all_def option.map_ident)
next
  case (Cons ku us)
  obtain k u where ku: "ku = (k, u)" by (cases ku)
  have "put_all (ku # us) s = put_all us (put k u s)" by (simp add: put_all_def ku)
  with Cons.IH [OF ok_put [OF Cons.prems, of k u]] lookup_put [OF Cons.prems, of k u i]
  show ?case by (simp add: ku option.map_comp comp_def)
qed

lemma put_dom: "ok s \<Longrightarrow> lookup (put k u s) i = None \<longleftrightarrow> lookup s i = None"
  by (simp add: lookup_put)

end

end
