(* ===== verification/Web_Service.thy ===== *)
theory Web_Service
  imports Http_Routes Council_Properties Logging Job_Store
begin

text \<open>
  The web server as it runs: \<open>HttpServer::start\<close>, whose loop accepts one connection after the
  other, the detached threads of the jobs, and the process-wide metrics they share with the
  handlers. A thread is its job and what it has still to do; \<open>None\<close> means its debate is not
  finished. The debates of the threads are steps of their own, as if the threads took turns on
  the council of the server (the code does not make them, see the findings). The job table is
  seen through the interface \<open>job_store\<close>.
\<close>

section \<open>Starting the server\<close>

definition check_mark :: string where
  "check_mark = [CHR 0xE2, CHR 0x9C, CHR 0x93]"

text \<open>
  \<open>start\<close> up to its loop, given whether \<open>socket\<close>, \<open>bind\<close> and \<open>listen\<close> succeed: the log, the exit
  code when the server does not start, and the server.
\<close>

definition start_server ::
  "bool \<Rightarrow> bool \<Rightarrow> bool \<Rightarrow> http_server \<Rightarrow> (log_level \<times> string) list \<times> int option \<times> http_server" where
  "start_server socket_ok bind_ok listen_ok s =
     (let first = (Info, ''Starting HTTP server on port 8080...'')
      in if \<not> socket_ok then ([first, (Error, ''Failed to create socket'')], Some 1, s)
         else if \<not> bind_ok then ([first, (Error, ''Failed to bind to port 8080'')], Some 1, s)
         else if \<not> listen_ok then ([first, (Error, ''Failed to listen on socket'')], Some 1, s)
         else ([first,
                (Info, check_mark @ '' HTTP server listening on http://localhost:8080''),
                (Info, check_mark @ '' Web dashboard running''),
                (Info, ''Press Ctrl+C to exit'')], None, s\<lparr>srv_running := True\<rparr>))"

definition stop_server :: "http_server \<Rightarrow> http_server" where
  "stop_server s = s\<lparr>srv_running := False\<rparr>"

section \<open>The running process\<close>

datatype web_status = Serving | Closed | Crashed exn | Hung | Broken string

type_synonym job_thread = "execution_job \<times> thread_action list option"

record web =
  web_server :: http_server
  web_metrics :: metrics
  web_threads :: "job_thread list"
  web_status :: web_status

definition new_web :: "configuration \<Rightarrow> client option \<Rightarrow> web" where
  "new_web cfg cl =
     \<lparr>web_server = (new_server cfg cl)\<lparr>srv_running := True\<rparr>, web_metrics = new_metrics,
      web_threads = [], web_status = Serving\<rparr>"

datatype web_label = Answered "reply option" | Quiet

text \<open>What the process cannot know: the page, the hash function, the network, the environment, what
  the clients answer.\<close>

record 'w outside =
  out_page :: string
  out_hash :: "string \<Rightarrow> nat"
  out_network :: "'w network"
  out_env :: "string \<Rightarrow> string option"
  out_answers :: "client answers"

text \<open>How the accept loop goes on after a request.\<close>

definition after_request :: "handled \<times> http_server \<Rightarrow> web \<Rightarrow> web_label \<times> web" where
  "after_request h w =
     (case h of
        (Ret (rep, job), s) \<Rightarrow>
          (Answered rep,
           w\<lparr>web_server := s,
             web_threads := web_threads w @ (case job of None \<Rightarrow> [] | Some j \<Rightarrow> [(j, None)])\<rparr>)
      | (Throw e, s) \<Rightarrow> (Quiet, w\<lparr>web_server := s, web_status := Crashed e\<rparr>)
      | (Blocked, s) \<Rightarrow> (Quiet, w\<lparr>web_server := s, web_status := Hung\<rparr>)
      | (Undef r, s) \<Rightarrow> (Quiet, w\<lparr>web_server := s, web_status := Broken r\<rparr>))"

inductive web_step :: "'w outside \<Rightarrow> web \<Rightarrow> web_label \<Rightarrow> web \<Rightarrow> bool" for out where
  request:
    "web_status w = Serving \<Longrightarrow> srv_running (web_server w) \<Longrightarrow>
     after_request (handle_request (out_page out) now (web_metrics w) sent (web_server w)) w = (l, w') \<Longrightarrow>
     web_step out w l w'"
| stop:
    "web_step out w Quiet (w\<lparr>web_server := stop_server (web_server w)\<rparr>)"
| leave:
    "web_status w = Serving \<Longrightarrow> \<not> srv_running (web_server w) \<Longrightarrow>
     web_step out w Quiet (w\<lparr>web_status := Closed\<rparr>)"
| debate:
    "web_status w \<in> {Serving, Hung} \<Longrightarrow> k < length (web_threads w) \<Longrightarrow>
     web_threads w ! k = (j, None) \<Longrightarrow>
     thread_body (out_hash out) (out_network out) (out_env out) nw (out_answers out) elapsed j
       (web_server w) = (acts, s) \<Longrightarrow>
     web_step out w Quiet (w\<lparr>web_server := s, web_threads := (web_threads w)[k := (j, Some acts)]\<rparr>)"
| note_metrics:
    "web_status w = Serving \<Longrightarrow> k < length (web_threads w) \<Longrightarrow>
     web_threads w ! k = (j, Some (Record_metrics d # acts)) \<Longrightarrow>
     record_debate False d (web_metrics w) = Ret m \<Longrightarrow>
     web_step out w Quiet (w\<lparr>web_metrics := m, web_threads := (web_threads w)[k := (j, Some acts)]\<rparr>)"
| store_output:
    "web_status w \<in> {Serving, Hung} \<Longrightarrow> k < length (web_threads w) \<Longrightarrow>
     web_threads w ! k = (j, Some (Store_output text status # acts)) \<Longrightarrow>
     web_step out w Quiet
       (w\<lparr>web_server := update_job_output now (job_id j) text status (web_server w),
          web_threads := (web_threads w)[k := (j, Some acts)]\<rparr>)"

inductive_cases web_stepE: "web_step out w l w'"

inductive web_steps :: "'w outside \<Rightarrow> web \<Rightarrow> web_label list \<Rightarrow> web \<Rightarrow> bool" for out where
  none: "web_steps out w [] w"
| more: "web_steps out w ls w' \<Longrightarrow> web_step out w' l w'' \<Longrightarrow> web_steps out w (ls @ [l]) w''"

section \<open>The job table as an interface\<close>

definition lookup_job :: "http_server \<Rightarrow> int \<Rightarrow> execution_job option" where
  "lookup_job s i = map_of (jobs s) i"

definition store_job :: "int \<Rightarrow> int \<times> string \<times> int \<Rightarrow> http_server \<Rightarrow> http_server" where
  "store_job i u s = (case u of (now, text, status) \<Rightarrow> update_job_output now i text status s)"

definition change_job :: "int \<times> string \<times> int \<Rightarrow> execution_job \<Rightarrow> execution_job" where
  "change_job u j = (case u of (now, text, status) \<Rightarrow> finish_job now text status j)"

interpretation js: job_store lookup_job store_job change_job "\<lambda>s. om_ok (jobs s)"
proof
  fix s :: http_server and k i :: int and u :: "int \<times> string \<times> int"
  assume ok: "om_ok (jobs s)"
  show "om_ok (jobs (store_job k u s))"
    using ok by (auto simp: store_job_def update_job_output_def om.ok_put split: option.split prod.split)
  show "lookup_job (store_job k u s) i =
      (if i = k then map_option (change_job u) (lookup_job s i) else lookup_job s i)"
    using ok
    by (auto simp: store_job_def lookup_job_def change_job_def update_job_output_def om.get_put
        split: option.split prod.split)
qed

end
