(* ===== verification/Request_Properties.thy ===== *)
theory Request_Properties
  imports Http_Routes
begin

text \<open>
  What one request can do: which endpoints the routing never reaches, and for every input
  whether the request is answered, throws out of the server loop, waits forever or is undefined.
\<close>

section \<open>Unreachable endpoints\<close>

lemma take_short:
  assumes "take n path = p" and "length p < n"
  shows "path = p"
  using assms by (metis length_take min.strict_order_iff not_less order.strict_implies_not_eq take_all_iff
      min_def nat_le_linear)

lemma no_search_route: "take 18 path \<noteq> ''/api/history/search''"
proof
  assume "take 18 path = ''/api/history/search''"
  then have "length (take 18 path) = 19" by simp
  then show False by simp
qed

lemma debate_route: "route_debate ''/api/debate/'' s = Ret not_found"
  by (simp add: route_debate_def str_find_def)

lemma metrics_route: "route_metrics now ''/api/metrics/'' m = Ret not_found"
  by (simp add: route_metrics_def contains_def str_find_def)

lemma short_routes:
  "take 15 path = ''/api/debate/'' \<Longrightarrow> route_debate path s = Ret not_found"
  "take 14 path = ''/api/metrics/'' \<Longrightarrow> route_metrics now path m = Ret not_found"
  using take_short [of 15 path "''/api/debate/''"] take_short [of 14 path "''/api/metrics/''"]
    debate_route metrics_route by simp_all

lemma short_route_if:
  "(if take 15 path = ''/api/debate/'' \<and> g then route_debate path s else r) =
   (if take 15 path = ''/api/debate/'' \<and> g then Ret not_found else r)"
  "(if take 14 path = ''/api/metrics/'' \<and> g then route_metrics now path m else r) =
   (if take 14 path = ''/api/metrics/'' \<and> g then Ret not_found else r)"
  by (rule if_cong; use short_routes in blast)+

text \<open>The routing without the branches that no path takes.\<close>

lemma route_reading_eq:
  "route_reading page now m verb path s =
     (if path = ''/'' \<or> path = ''/index.html'' then Ret (handle_root page)
      else if path = ''/api/tasks'' \<and> verb = ''GET'' then Ret (handle_tasks s)
      else if take 11 path = ''/api/query?'' \<and> verb = ''GET'' then route_status path s
      else if path = ''/metrics'' \<and> verb = ''GET'' then handle_metrics m
      else if path = ''/api/stats'' \<and> verb = ''GET'' then handle_stats m
      else if path = ''/api/history'' \<and> verb = ''GET'' then Ret (handle_history s)
      else Ret not_found)"
  unfolding route_reading_def
  by (simp only: short_route_if no_search_route if_cancel simp_thms if_False)

lemma reports_block: "handle_metrics m = Blocked" "handle_stats m = Blocked"
  by (simp_all add: handle_metrics_def handle_stats_def get_prometheus_text_def get_json_summary_def
      get_all_stats_def with_lock_def)

lemma report_blocks:
  "path = ''/metrics'' \<or> path = ''/api/stats'' \<Longrightarrow>
   route_reading page now m ''GET'' path s = Blocked \<and> take 11 path \<noteq> ''/api/query?''"
  by (elim disjE) (simp_all add: route_reading_eq reports_block)

lemma four_replies:
  "\<exists>rep. (if P then Ret a else if Q then Ret b else if R then Ret c else Ret d) = Ret rep"
  by simp

lemma route_reading_cases:
  obtains (poll) "verb = ''GET''" "take 11 path = ''/api/query?''"
      "path \<noteq> ''/metrics''" "path \<noteq> ''/api/stats''"
      "route_reading page now m verb path s = route_status path s"
  | (report) "verb = ''GET''" "path = ''/metrics'' \<or> path = ''/api/stats''"
      "take 11 path \<noteq> ''/api/query?''"
      "route_reading page now m verb path s = Blocked"
  | (plain) rep where "route_reading page now m verb path s = Ret rep"
      "\<not> (verb = ''GET'' \<and> take 11 path = ''/api/query?'')"
      "\<not> (verb = ''GET'' \<and> (path = ''/metrics'' \<or> path = ''/api/stats''))"
proof (cases "verb = ''GET'' \<and> take 11 path = ''/api/query?''")
  case True
  then have "path \<noteq> ''/''" "path \<noteq> ''/index.html''" "path \<noteq> ''/api/tasks''"
    "path \<noteq> ''/metrics''" "path \<noteq> ''/api/stats''"
    by auto
  with True show thesis by (intro poll) (simp_all add: route_reading_eq)
next
  case no_poll: False
  show thesis
  proof (cases "verb = ''GET'' \<and> (path = ''/metrics'' \<or> path = ''/api/stats'')")
    case True
    note v = conjunct1 [OF True] and p = conjunct2 [OF True]
    have b: "route_reading page now m verb path s = Blocked \<and> take 11 path \<noteq> ''/api/query?''"
      unfolding v by (rule report_blocks [OF p])
    show thesis by (rule report [OF v p conjunct2 [OF b] conjunct1 [OF b]])
  next
    case no_report: False
    have c: "\<not> (take 11 path = ''/api/query?'' \<and> verb = ''GET'')"
      "\<not> (path = ''/metrics'' \<and> verb = ''GET'')" "\<not> (path = ''/api/stats'' \<and> verb = ''GET'')"
      using no_poll no_report by blast+
    have "\<exists>rep. route_reading page now m verb path s = Ret rep"
      unfolding route_reading_eq if_not_P [OF c(1)] if_not_P [OF c(2)] if_not_P [OF c(3)]
      by (rule four_replies)
    then obtain rep where "route_reading page now m verb path s = Ret rep" ..
    then show thesis using no_poll no_report by (rule plain)
  qed
qed

text \<open>the endpoints for searching the history, for the progress and the visualization of a
  debate and for all metrics but the two reports are never reached: every request for them is
  answered with 404, whatever the server holds.\<close>

theorem documented_endpoints_unreachable:
  assumes "prefix ''/api/history/search'' path \<or> prefix ''/api/debate/'' path \<or>
    prefix ''/api/metrics/'' path"
  shows "route page now m (verb, path, body) s = (Ret (Some not_found, None), s)"
proof -
  have "route_reading page now m verb path s = Ret not_found \<and> path \<noteq> ''/api/query''"
    using assms by (elim disjE prefixE) (simp_all add: route_reading_eq)
  then show ?thesis by (simp add: route_def)
qed

theorem documented_endpoints_unreachable_witness:
  "route [] 0 new_metrics (''GET'', ''/api/debate/1/progress'', [])
     (snd (allocate_job 0 ''q'' (new_server configuration_default None))) =
   (Ret (Some not_found, None), snd (allocate_job 0 ''q'' (new_server configuration_default None)))"
  by (rule documented_endpoints_unreachable) simp

section \<open>The outcome of a request\<close>

definition bad_poll :: "string \<Rightarrow> exn \<Rightarrow> bool" where
  "bad_poll path e \<longleftrightarrow> take 11 path = ''/api/query?'' \<and>
     (\<exists>p. str_find path ''job_id='' 0 = Some p \<and> stoi (drop (p + 7) path) = Throw e)"

lemma route_status_outcome:
  "settled (route_status path s)"
  "take 11 path = ''/api/query?'' \<Longrightarrow> route_status path s = Throw e \<longleftrightarrow> bad_poll path e"
proof -
  show "settled (route_status path s)" by (simp add: route_status_def split: option.split)
  have "omap f r = Throw e \<longleftrightarrow> r = Throw e" for f :: "int \<Rightarrow> reply" and r by (cases r) simp_all
  then show "take 11 path = ''/api/query?'' \<Longrightarrow> route_status path s = Throw e \<longleftrightarrow> bad_poll path e"
    by (auto simp: route_status_def bad_poll_def split: option.splits)
qed

lemma route_reading_outcome:
  "route_reading page now m verb path s = Throw e \<longleftrightarrow> verb = ''GET'' \<and> bad_poll path e"
  "route_reading page now m verb path s = Blocked \<longleftrightarrow>
     verb = ''GET'' \<and> (path = ''/metrics'' \<or> path = ''/api/stats'')"
  "route_reading page now m verb path s \<noteq> Undef u"
proof -
  have "(route_reading page now m verb path s = Throw e \<longleftrightarrow> verb = ''GET'' \<and> bad_poll path e) \<and>
    (route_reading page now m verb path s = Blocked \<longleftrightarrow>
       verb = ''GET'' \<and> (path = ''/metrics'' \<or> path = ''/api/stats'')) \<and>
    route_reading page now m verb path s \<noteq> Undef u"
  proof (cases rule: route_reading_cases [of verb path page now m s])
    case poll
    have "settled (route_reading page now m verb path s)"
      using poll(5) route_status_outcome(1) by simp
    then show ?thesis
      using poll route_status_outcome(2) [OF poll(2), of s e]
      by (cases "route_reading page now m verb path s") simp_all
  next
    case report
    then show ?thesis by (simp add: bad_poll_def)
  next
    case (plain rep)
    then show ?thesis by (auto simp: bad_poll_def)
  qed
  then show "route_reading page now m verb path s = Throw e \<longleftrightarrow> verb = ''GET'' \<and> bad_poll path e"
    "route_reading page now m verb path s = Blocked \<longleftrightarrow>
       verb = ''GET'' \<and> (path = ''/metrics'' \<or> path = ''/api/stats'')"
    "route_reading page now m verb path s \<noteq> Undef u"
    by blast+
qed

lemma handle_query_outcome:
  "fst (handle_query now body s) \<noteq> Throw e"
  "fst (handle_query now body s) \<noteq> Blocked"
  "(\<exists>u. fst (handle_query now body s) = Undef u) \<longleftrightarrow>
     next_job_id s = INT_MAX \<and> query_of_body body \<noteq> []"
  by (simp_all add: handle_query_def allocate_job_def Let_def)

lemma omap_not_Ret:
  "omap f r = Throw e \<longleftrightarrow> r = Throw e" "omap f r = Blocked \<longleftrightarrow> r = Blocked"
  "omap f r = Undef u \<longleftrightarrow> r = Undef u"
  by (cases r; simp)+

lemma route_split:
  "fst (route page now m (verb, path, body) s) =
     (if path = ''/api/query'' \<and> verb = ''POST''
      then omap (\<lambda>(rep, j). (Some rep, j)) (fst (handle_query (now div 1000) body s))
      else omap (\<lambda>rep. (Some rep, None)) (route_reading page now m verb path s))"
  by (simp add: route_def split: prod.split)

lemma route_outcome:
  "fst (route page now m (verb, path, body) s) = Throw e \<longleftrightarrow> verb = ''GET'' \<and> bad_poll path e"
  "fst (route page now m (verb, path, body) s) = Blocked \<longleftrightarrow>
     verb = ''GET'' \<and> (path = ''/metrics'' \<or> path = ''/api/stats'')"
  "(\<exists>u. fst (route page now m (verb, path, body) s) = Undef u) \<longleftrightarrow>
     next_job_id s = INT_MAX \<and> verb = ''POST'' \<and> path = ''/api/query'' \<and> query_of_body body \<noteq> []"
  "fst (route page now m (verb, path, body) s) \<noteq> Ret (None, job)"
  using handle_query_outcome [of "now div 1000" body s]
  by (auto simp: route_split omap_not_Ret route_reading_outcome omap_Ret_iff)

text \<open>C20: how a request ends, for every state and every input: it throws exactly when a
  \<open>Content-Length\<close> or the number of a polled job is malformed or out of range; it waits forever
  exactly for the two reports; it is undefined only when the job numbers are used up; and it is
  left without an answer exactly when nothing was received.\<close>

theorem request_outcome:
  "(fst (handle_request page now m sent s) = Throw e) =
     (parse_request (recv_buffer sent) = Throw e \<or>
      (\<exists>path body. parse_request (recv_buffer sent) = Ret (Some (''GET'', path, body)) \<and>
         bad_poll path e)) \<and>
   (fst (handle_request page now m sent s) = Blocked) =
     (\<exists>path body. parse_request (recv_buffer sent) = Ret (Some (''GET'', path, body)) \<and>
        path \<in> {''/metrics'', ''/api/stats''}) \<and>
   (\<exists>u. fst (handle_request page now m sent s) = Undef u) =
     (next_job_id s = INT_MAX \<and>
      (\<exists>body. parse_request (recv_buffer sent) = Ret (Some (''POST'', ''/api/query'', body)) \<and>
         query_of_body body \<noteq> [])) \<and>
   (\<exists>job. fst (handle_request page now m sent s) = Ret (None, job)) = (sent = [])"
proof (cases "recv_buffer sent = []")
  case True
  then have "sent = []" by (cases sent) (simp_all add: recv_buffer_def)
  with True show ?thesis by (simp add: handle_request_def parse_request_def getline_def)
next
  case False
  then have sent: "sent \<noteq> []" by (auto simp: recv_buffer_def)
  from parse_request_total [of "recv_buffer sent"]
  consider e' where "parse_request (recv_buffer sent) = Throw e'"
    | "parse_request (recv_buffer sent) = Ret None"
    | verb path body where "parse_request (recv_buffer sent) = Ret (Some (verb, path, body))"
    by (metis settled_cases prod_cases3 not_Some_eq)
  then show ?thesis
  proof cases
    case 3
    then have "handle_request page now m sent s = route page now m (verb, path, body) s"
      using False by (simp add: handle_request_def)
    with 3 sent show ?thesis by (auto simp: route_outcome)
  qed (use False sent in \<open>auto simp: handle_request_def\<close>)
qed

end
