(* ===== verification/Web_Properties.thy ===== *)
theory Web_Properties
  imports Web_Service Request_Properties
begin

text \<open>
  What holds of the running web server: the job table, the history and the threads agree in
  every reachable state; a finished job never changes again; which requests throw, block or are
  answered, and which of the documented endpoints cannot be reached.
\<close>

section \<open>The thread of a job\<close>

text \<open>The text a completed debate stores, up to its duration.\<close>

definition completed_text :: "int \<Rightarrow> string" where
  "completed_text ms =
     line ''Debate completed.'' @ line ''Winner: Analyst 0'' @ line ''Rounds: 0'' @
     line ''Pruned: 0 analysts'' @ ''Duration: '' @ show_int ms @ ''ms''"

definition stored_ok :: "string \<Rightarrow> int \<Rightarrow> bool" where
  "stored_ok text status \<longleftrightarrow> status = 2 \<or> status = 1 \<and> (\<exists>ms. text = completed_text ms)"

lemma stored_ok_completed [simp]: "stored_ok (completed_text ms) 1"
  unfolding stored_ok_def by blast

fun store_ok :: "thread_action \<Rightarrow> bool" where
  "store_ok (Store_output text status) = stored_ok text status"
| "store_ok (Record_metrics d) = True"

fun is_store :: "thread_action \<Rightarrow> bool" where
  "is_store (Store_output text status) = True"
| "is_store (Record_metrics d) = False"

fun stores :: "thread_action list option \<Rightarrow> nat" where
  "stores None = 1"
| "stores (Some acts) = length (filter is_store acts)"

lemma show_int_0: "show_int 0 = ''0''"
  by code_simp

lemma settled_client_from: "settled (client_from net env cfg w)"
  by (auto simp: client_from_def create_from_config_def unknown_provider_def new_ollama_def Let_def)

lemma debate_output_fresh:
  assumes "initialize_analysts (Some cl) ms c0 = (True, c)"
    and "run_debate answer q n c = (result, c')"
  shows "debate_output result elapsed = completed_text elapsed"
  using fresh_result [OF assms(1), of answer q n] assms(2)
  by (simp add: debate_output_def completed_text_def show_int_0 line_def)

lemma thread_body_effect:
  assumes "thread_body h net env nw answer elapsed j s = (acts, s')"
  shows "stores (Some acts) = 1" and "\<forall>a\<in>set acts. store_ok a"
    and "jobs s' = jobs s" and "next_job_id s' = next_job_id s"
    and "query_history s' = query_history s"
proof -
  have "stores (Some acts) = 1 \<and> (\<forall>a\<in>set acts. store_ok a) \<and> (\<exists>c. s' = s\<lparr>srv_council := c\<rparr>)"
  proof (cases "client_from net env (srv_config s) nw")
    case (Ret cl)
    obtain b c where i: "initialize_analysts (Some cl) (models (srv_config s)) (srv_council s) = (b, c)"
      by (cases "initialize_analysts (Some cl) (models (srv_config s)) (srv_council s)")
    obtain result c' where r: "run_debate answer (job_query j) (job_rounds j) c = (result, c')"
      by (cases "run_debate answer (job_query j) (job_rounds j) c")
    show ?thesis
    proof (cases b)
      case True
      with i have i': "initialize_analysts (Some cl) (models (srv_config s)) (srv_council s) = (True, c)"
        by simp
      from assms Ret r i' debate_output_fresh [OF i' r, of elapsed]
      show ?thesis by (auto simp: thread_body_def)
    qed (use assms Ret i in \<open>auto simp: thread_body_def stored_ok_def\<close>)
  next
    case (Throw e)
    then show ?thesis using assms by (cases s) (auto simp: thread_body_def stored_ok_def)
  qed (use settled_client_from [of net env "srv_config s" nw] in simp_all)
  then show "stores (Some acts) = 1" and "\<forall>a\<in>set acts. store_ok a"
    and "jobs s' = jobs s" and "next_job_id s' = next_job_id s"
    and "query_history s' = query_history s"
    by auto
qed

section \<open>The job table\<close>

definition job_ok :: "int \<Rightarrow> execution_job \<Rightarrow> bool" where
  "job_ok i j \<longleftrightarrow> job_id j = i \<and>
     (job_status j = 0 \<and> \<not> job_success j \<and> job_output j = [] \<or>
      job_status j = 1 \<and> job_success j \<and> (\<exists>ms. job_output j = completed_text ms) \<or>
      job_status j = 2 \<and> \<not> job_success j)"

definition table_ok :: "http_server \<Rightarrow> bool" where
  "table_ok s \<longleftrightarrow> om_ok (jobs s) \<and> 1 \<le> next_job_id s \<and>
     (\<forall>i. lookup_job s i \<noteq> None \<longleftrightarrow> 1 \<le> i \<and> i < next_job_id s) \<and>
     (\<forall>i j. lookup_job s i = Some j \<longrightarrow> job_ok i j)"

text \<open>An entry of the history is the job as it was when it was made.\<close>

definition history_ok :: "http_server \<Rightarrow> bool" where
  "history_ok s \<longleftrightarrow> map job_id (query_history s) = map int [1..<nat (next_job_id s)] \<and>
     (\<forall>h\<in>set (query_history s). job_status h = 0 \<and> \<not> job_success h \<and>
        (\<exists>j. lookup_job s (job_id h) = Some j \<and> job_query j = job_query h))"

definition thread_ok :: "http_server \<Rightarrow> job_thread \<Rightarrow> bool" where
  "thread_ok s t \<longleftrightarrow>
     (\<exists>j. lookup_job s (job_id (fst t)) = Some j \<and>
        stores (snd t) = (if job_status j = 0 then 1 else 0)) \<and>
     (case snd t of None \<Rightarrow> True | Some acts \<Rightarrow> \<forall>a\<in>set acts. store_ok a)"

definition web_inv :: "web \<Rightarrow> bool" where
  "web_inv w \<longleftrightarrow> table_ok (web_server w) \<and> history_ok (web_server w) \<and>
     map (\<lambda>t. job_id (fst t)) (web_threads w) = map int [1..<nat (next_job_id (web_server w))] \<and>
     (\<forall>t\<in>set (web_threads w). thread_ok (web_server w) t)"

lemma lookup_job_cong: "jobs s' = jobs s \<Longrightarrow> lookup_job s' i = lookup_job s i"
  by (simp add: lookup_job_def)

lemma web_inv_cong:
  assumes "web_inv w" and "jobs (web_server w') = jobs (web_server w)"
    and "next_job_id (web_server w') = next_job_id (web_server w)"
    and "query_history (web_server w') = query_history (web_server w)"
    and "map (\<lambda>t. job_id (fst t)) (web_threads w') = map (\<lambda>t. job_id (fst t)) (web_threads w)"
    and "\<forall>t\<in>set (web_threads w'). thread_ok (web_server w) t"
  shows "web_inv w'"
  using assms
  by (simp add: web_inv_def table_ok_def history_ok_def thread_ok_def lookup_job_def)

lemma upt_extend: "1 \<le> n \<Longrightarrow> map int [1..<nat (n + 1)] = map int [1..<nat n] @ [n]"
  by (simp add: nat_add_distrib)

lemma lookup_allocate:
  assumes "allocate_job now q s = (Ret j, s')" and "om_ok (jobs s)"
  shows "lookup_job s' i = (if i = next_job_id s then Some j else lookup_job s i)"
  using assms by (auto simp: allocate_job_def Let_def lookup_job_def om.get_put split: if_splits)

lemma allocate_job_effect:
  assumes "allocate_job now q s = (Ret j, s')" and "table_ok s" and "history_ok s"
  shows "table_ok s'" and "history_ok s'" and "next_job_id s' = next_job_id s + 1"
    and "job_id j = next_job_id s" and "lookup_job s' (job_id j) = Some j" and "job_status j = 0"
proof -
  have ok: "om_ok (jobs s)" and n: "1 \<le> next_job_id s"
    and dom: "\<And>i. lookup_job s i \<noteq> None \<longleftrightarrow> 1 \<le> i \<and> i < next_job_id s"
    using assms(2) by (simp_all add: table_ok_def)
  note look = lookup_allocate [OF assms(1) ok]
  have s': "next_job_id s' = next_job_id s + 1" "om_ok (jobs s')"
    "query_history s' = query_history s @ [j]"
    and j: "job_id j = next_job_id s" "job_ok (next_job_id s) j" "job_status j = 0" "\<not> job_success j"
    using assms(1) om.ok_put [OF ok]
    by (auto simp: allocate_job_def Let_def empty_job_def job_ok_def split: if_splits)
  show "next_job_id s' = next_job_id s + 1" "job_id j = next_job_id s" "job_status j = 0"
    "lookup_job s' (job_id j) = Some j"
    using s' j look by simp_all
  show "table_ok s'"
    using assms(2) s' n look dom j by (auto simp: table_ok_def)
  have fresh: "lookup_job s (next_job_id s) = None"
    using dom [of "next_job_id s"] by auto
  show "history_ok s'"
    using assms(3) s' n look j fresh upt_extend [OF n] by (auto simp: history_ok_def)
qed

lemma lookup_update:
  "om_ok (jobs s) \<Longrightarrow>
   lookup_job (update_job_output now k text status s) i =
     (if i = k then map_option (finish_job now text status) (lookup_job s i) else lookup_job s i)"
  using js.lookup_put [of s k "(now, text, status)" i]
  by (simp add: store_job_def change_job_def [abs_def])

lemma update_frame:
  "next_job_id (update_job_output now k text status s) = next_job_id s"
  "query_history (update_job_output now k text status s) = query_history s"
  by (simp_all add: update_job_output_def split: option.split)

lemma update_ok:
  assumes "table_ok s" and "history_ok s" and "stored_ok text status"
  shows "table_ok (update_job_output now k text status s)"
    and "history_ok (update_job_output now k text status s)"
proof -
  have ok: "om_ok (jobs s)" using assms(1) by (simp add: table_ok_def)
  note look = lookup_update [OF ok, of now k "text" status]
  have "job_ok i (finish_job now text status j)" if "job_ok i j" for i j
    using that assms(3) by (auto simp: job_ok_def finish_job_def stored_ok_def)
  moreover have "om_ok (jobs (update_job_output now k text status s))"
    using js.ok_put [OF ok, of k "(now, text, status)"] by (simp add: store_job_def)
  ultimately show "table_ok (update_job_output now k text status s)"
    using assms(1) look by (auto simp: table_ok_def update_frame)
  have "job_query (finish_job now text status j) = job_query j" for j
    by (simp add: finish_job_def)
  then show "history_ok (update_job_output now k text status s)"
    using assms(2) look by (auto simp: history_ok_def update_frame)
qed

section \<open>The invariant\<close>

lemma threads_distinct:
  assumes "web_inv w" and "k < length (web_threads w)" and "i < length (web_threads w)"
    and "job_id (fst (web_threads w ! k)) = job_id (fst (web_threads w ! i))"
  shows "k = i"
proof -
  have "distinct (map (\<lambda>t. job_id (fst t)) (web_threads w))"
    using assms(1) by (simp add: web_inv_def distinct_map)
  with assms(2-4) show ?thesis by (simp add: distinct_conv_nth) metis
qed

text \<open>The text taken from a body ends before its first quote.\<close>

lemma find_sub_char_ex: "c \<in> set s \<Longrightarrow> \<exists>k. find_sub [c] s = Some k"
  by (induction s) auto

lemma query_of_body_plain: "quote \<notin> set (query_of_body body)"
proof -
  have cut: "quote \<notin> set (substr body a (e - a))" if "str_find body [quote] a = Some e" for a e
  proof -
    from that obtain k where "find_sub [quote] (drop a body) = Some k" "e = k + a"
      by (auto simp: str_find_def split: if_splits)
    then show ?thesis using find_sub_char_take [of quote "drop a body" k] by (simp add: substr_def)
  qed
  have rest: "quote \<notin> set (drop a body)" if "str_find body [quote] a = None" for a
    using that find_sub_char_ex [of quote "drop a body"]
    by (auto simp: str_find_def split: if_splits)
  show ?thesis
    using cut rest by (simp add: query_of_body_def split: option.split)
qed

text \<open>A request leaves the server as it is, or allocates the job whose thread it starts.\<close>

lemma handle_request_cases:
  assumes "handle_request page now m sent s = (r, s')"
  shows "(s' = s \<and> (\<forall>rep j. r \<noteq> Ret (rep, Some j))) \<or>
    (\<exists>q j j' rep. allocate_job (now div 1000) q s = (Ret j, s') \<and> r = Ret (Some rep, Some j') \<and>
       job_id j' = job_id j \<and> quote \<notin> set q)"
proof -
  have query: "handle_query t body s = (r1, s1) \<Longrightarrow>
      (s1 = s \<and> (\<forall>rep j. r1 \<noteq> Ret (rep, Some j))) \<or>
      (\<exists>q j j' rep. allocate_job t q s = (Ret j, s1) \<and> r1 = Ret (rep, Some j') \<and>
         job_id j' = job_id j \<and> quote \<notin> set q)" for t body r1 s1
    using query_of_body_plain
    by (auto simp: handle_query_def allocate_job_def Let_def split: if_splits)
  have "(s1 = s \<and> (\<forall>rep j. r1 \<noteq> Ret (rep, Some j))) \<or>
      (\<exists>q j j' rep. allocate_job (now div 1000) q s = (Ret j, s1) \<and>
         r1 = Ret (Some rep, Some j') \<and> job_id j' = job_id j \<and> quote \<notin> set q)"
    if r: "route page now m req s = (r1, s1)" for req r1 s1
  proof -
    obtain verb path body where req: "req = (verb, path, body)" by (cases req)
    obtain r0 s0 where hq: "handle_query (now div 1000) body s = (r0, s0)"
      by (cases "handle_query (now div 1000) body s")
    show ?thesis
    proof (cases "path = ''/api/query'' \<and> verb = ''POST''")
      case True
      then have "r1 = omap (\<lambda>(rep, j). (Some rep, j)) r0 \<and> s1 = s0"
        using r req hq by (simp add: route_def)
      with query [OF hq] show ?thesis by (auto simp: omap_Ret_iff)
    qed (use r req in \<open>auto simp: route_def omap_Ret_iff\<close>)
  qed
  then show ?thesis
    using assms
    by (auto simp: handle_request_def split: if_splits outcome.splits option.splits)
qed

lemma web_inv_request:
  assumes "web_inv w" and "after_request (handle_request page now m sent (web_server w)) w = (l, w')"
  shows "web_inv w'"
proof -
  obtain r s' where h: "handle_request page now m sent (web_server w) = (r, s')"
    by (cases "handle_request page now m sent (web_server w)")
  from handle_request_cases [OF h] show ?thesis
  proof
    assume *: "s' = web_server w \<and> (\<forall>rep j. r \<noteq> Ret (rep, Some j))"
    then have "web_server w' = web_server w \<and> web_threads w' = web_threads w"
      using assms(2) h by (auto simp: after_request_def split: outcome.splits option.splits)
    with assms(1) show ?thesis by (auto simp: web_inv_def)
  next
    assume "\<exists>q j j' rep. allocate_job (now div 1000) q (web_server w) = (Ret j, s') \<and>
       r = Ret (Some rep, Some j') \<and> job_id j' = job_id j \<and> quote \<notin> set q"
    then obtain q j j' rep where a: "allocate_job (now div 1000) q (web_server w) = (Ret j, s')"
      and r: "r = Ret (Some rep, Some j')" "job_id j' = job_id j" by blast
    have w': "web_server w' = s'" "web_threads w' = web_threads w @ [(j', None)]"
      using assms(2) h r by (auto simp: after_request_def)
    note ok = assms(1) [unfolded web_inv_def]
    note eff = allocate_job_effect [OF a conjunct1 [OF ok] conjunct1 [OF conjunct2 [OF ok]]]
    have n: "1 \<le> next_job_id (web_server w)" "om_ok (jobs (web_server w))"
      using ok by (auto simp: table_ok_def)
    have "thread_ok s' t" if t: "thread_ok (web_server w) t" for t
    proof -
      have "lookup_job (web_server w) (next_job_id (web_server w)) = None"
        using ok by (auto simp: table_ok_def)
      with t show ?thesis
        using lookup_allocate [OF a n(2)] by (auto simp: thread_ok_def)
    qed
    moreover have "thread_ok s' (j', None)"
      using eff(5,6) r(2) by (simp add: thread_ok_def)
    ultimately show ?thesis
      using ok w' eff r(2) upt_extend [OF n(1)] by (auto simp: web_inv_def)
  qed
qed

lemma web_inv_store:
  assumes inv: "web_inv w" and k: "k < length (web_threads w)"
    and t: "web_threads w ! k = (j, Some (Store_output text status # acts))"
  shows "web_inv (w\<lparr>web_server := update_job_output now (job_id j) text status (web_server w),
    web_threads := (web_threads w)[k := (j, Some acts)]\<rparr>)"
proof -
  let ?s = "web_server w"
  let ?s' = "update_job_output now (job_id j) text status ?s"
  let ?ts = "(web_threads w)[k := (j, Some acts)]"
  have ok: "table_ok ?s" "history_ok ?s" "om_ok (jobs ?s)"
    using inv by (auto simp: web_inv_def table_ok_def)
  have tk: "thread_ok ?s (web_threads w ! k)" using inv k by (auto simp: web_inv_def)
  then have st: "stored_ok text status" "\<forall>a\<in>set acts. store_ok a" using t by (simp_all add: thread_ok_def)
  note look = lookup_update [OF ok(3), of now "job_id j" "text" status]
  have ids: "map (\<lambda>t. job_id (fst t)) ?ts = map (\<lambda>t. job_id (fst t)) (web_threads w)"
    using k t by (metis (no_types, lifting) fst_conv list_update_id map_update)
  have "thread_ok ?s' (?ts ! i)" if i: "i < length (web_threads w)" for i
  proof (cases "i = k")
    case True
    from tk t obtain job where "lookup_job ?s (job_id j) = Some job"
      "length (filter is_store acts) = 0"
      by (auto simp: thread_ok_def split: if_splits)
    with True k st look show ?thesis
      by (auto simp: thread_ok_def finish_job_def stored_ok_def)
  next
    case False
    then have "job_id (fst (web_threads w ! i)) \<noteq> job_id j"
      using threads_distinct [OF inv k i] t by auto
    moreover have "thread_ok ?s (web_threads w ! i)" using inv i by (auto simp: web_inv_def)
    ultimately show ?thesis using False look by (simp add: thread_ok_def)
  qed
  then have "\<forall>t\<in>set ?ts. thread_ok ?s' t" by (simp add: all_set_conv_all_nth)
  with inv ids update_ok [OF ok(1,2) st(1)] show ?thesis
    by (simp add: web_inv_def update_frame)
qed

text \<open>A step that replaces what one thread has still to do, without touching the table.\<close>

lemma web_inv_thread:
  assumes inv: "web_inv w" and k: "k < length (web_threads w)" and t: "web_threads w ! k = (j, old)"
    and s: "jobs s = jobs (web_server w)" "next_job_id s = next_job_id (web_server w)"
      "query_history s = query_history (web_server w)"
    and same: "stores (Some acts) = stores old" and acts: "\<forall>a\<in>set acts. store_ok a"
  shows "web_inv (w\<lparr>web_server := s, web_metrics := m, web_threads := (web_threads w)[k := (j, Some acts)]\<rparr>)"
proof -
  have "thread_ok (web_server w) (j, old)" using inv k t by (metis nth_mem web_inv_def)
  then have "thread_ok (web_server w) (j, Some acts)"
    using same acts unfolding thread_ok_def by auto
  then have "\<forall>t\<in>set ((web_threads w)[k := (j, Some acts)]). thread_ok (web_server w) t"
    using inv set_update_subset_insert [of "web_threads w" k "(j, Some acts)"]
    by (auto simp: web_inv_def)
  moreover have "map (\<lambda>t. job_id (fst t)) ((web_threads w)[k := (j, Some acts)]) =
      map (\<lambda>t. job_id (fst t)) (web_threads w)"
    using k t by (metis (no_types, lifting) fst_conv list_update_id map_update)
  ultimately show ?thesis
    using s by (intro web_inv_cong [OF inv]) simp_all
qed

lemma web_inv_step: "web_step out w l w' \<Longrightarrow> web_inv w \<Longrightarrow> web_inv w'"
proof (induction rule: web_step.induct)
  case (request w now sent l w')
  then show ?case using web_inv_request by blast
next
  case (stop w)
  then show ?case
    by (intro web_inv_cong [OF stop]) (auto simp: stop_server_def web_inv_def)
next
  case (leave w)
  then show ?case by (simp add: web_inv_def)
next
  case (debate w k j nw elapsed acts s)
  note eff = thread_body_effect [OF debate(4)]
  have "web_inv (w\<lparr>web_server := s, web_metrics := web_metrics w,
      web_threads := (web_threads w)[k := (j, Some acts)]\<rparr>)"
    by (rule web_inv_thread [OF debate.prems debate(2,3)]) (use eff in simp_all)
  then show ?case by simp
next
  case (note_metrics w k j d acts m)
  have "thread_ok (web_server w) (web_threads w ! k)"
    using note_metrics.prems note_metrics(2) unfolding web_inv_def by (metis nth_mem)
  then have "\<forall>a\<in>set acts. store_ok a" using note_metrics(3) by (simp add: thread_ok_def)
  then have "web_inv (w\<lparr>web_server := web_server w, web_metrics := m,
      web_threads := (web_threads w)[k := (j, Some acts)]\<rparr>)"
    by (intro web_inv_thread [OF note_metrics.prems note_metrics(2,3)]) simp_all
  then show ?case by simp
next
  case (store_output w k j "text" status acts now)
  then show ?case by (intro web_inv_store)
qed

lemma web_inv_new: "web_inv (new_web cfg cl)"
  by (simp add: web_inv_def new_web_def new_server_def table_ok_def history_ok_def lookup_job_def
      om_ok_def)

lemma web_inv_steps: "web_steps out w ls w' \<Longrightarrow> web_inv w \<Longrightarrow> web_inv w'"
  by (induction rule: web_steps.induct) (auto dest: web_inv_step)

section \<open>A concrete run\<close>

text \<open>A process without network: no client can be made for the default provider.\<close>

definition offline :: "unit outside" where
  "offline = \<lparr>out_page = [], out_hash = length,
     out_network = \<lparr>curl_init_ok = (\<lambda>_. False), perform = (\<lambda>_ w. (Curl_error [], w))\<rparr>,
     out_env = (\<lambda>_. None), out_answers = (\<lambda>_ _ _ _. Inr (text_response []))\<rparr>"

definition demo_post :: string where \<open>
  demo_post = request_head ''POST'' ''/api/query'' [] 14 @ ''{"query":"Why?"''\<close>

definition demo_job :: execution_job where
  "demo_job = empty_job\<lparr>job_id := 1, job_query := ''Why?'', job_start_time := 0,
     job_provider := ''ollama'', job_rounds := 4\<rparr>"

definition posted_web :: web where
  "posted_web = (new_web configuration_default None)
     \<lparr>web_server := snd (allocate_job 0 ''Why?'' (web_server (new_web configuration_default None))),
      web_threads := [(demo_job, None)]\<rparr>"

definition failed_text :: string where
  "failed_text = ''Error: Failed to initialize libcurl''"

definition debated_web :: web where
  "debated_web = posted_web\<lparr>web_threads := [(demo_job,
     Some [Store_output failed_text 2,
       Record_metrics (failure_metrics configuration_default ''Failed to initialize libcurl'')])]\<rparr>"

definition stored_web :: web where
  "stored_web = debated_web
     \<lparr>web_server := update_job_output 5 1 failed_text 2 (web_server posted_web),
      web_threads := [(demo_job,
        Some [Record_metrics (failure_metrics configuration_default ''Failed to initialize libcurl'')])]\<rparr>"

lemma demo_post_parsed: \<open>
  parse_request (recv_buffer demo_post) =
    Ret (Some (''POST'', ''/api/query'', ''{"query":"Why?''))\<close>
  by code_simp

lemma demo_body: \<open>query_of_body ''{"query":"Why?'' = ''Why?''\<close>
  by code_simp

lemma demo_request:
  "\<exists>rep. web_step offline (new_web configuration_default None) (Answered rep) posted_web"
proof -
  let ?w = "new_web configuration_default None"
  have a: "allocate_job 0 ''Why?'' (web_server ?w) = (Ret demo_job, web_server posted_web)"
    by (simp add: allocate_job_def posted_web_def demo_job_def new_web_def new_server_def
        configuration_default_def empty_job_def INT_MAX_def Let_def)
  have ne: "recv_buffer demo_post \<noteq> []"
    by (simp add: recv_buffer_def demo_post_def request_head_def)
  have j: "demo_job\<lparr>job_rounds := rounds (srv_config (web_server ?w))\<rparr> = demo_job"
    by (simp add: demo_job_def new_web_def new_server_def configuration_default_def)
  obtain rep where "handle_request (out_page offline) 0 (web_metrics ?w) demo_post (web_server ?w) =
      (Ret (Some rep, Some demo_job), web_server posted_web)"
    using a ne j by (simp add: handle_request_def demo_post_parsed route_def handle_query_def demo_body)
  then have "after_request (handle_request (out_page offline) 0 (web_metrics ?w) demo_post (web_server ?w)) ?w =
      (Answered (Some rep), posted_web)"
    by (simp add: after_request_def posted_web_def new_web_def)
  then have "web_step offline ?w (Answered (Some rep)) posted_web"
    by (rule web_step.request [rotated 2]) (simp_all add: new_web_def)
  then show ?thesis ..
qed

lemma demo_debate: "web_step offline posted_web Quiet debated_web"
proof -
  have "thread_body (out_hash offline) (out_network offline) (out_env offline) () (out_answers offline)
      0 demo_job (web_server posted_web) =
    ([Store_output failed_text 2,
      Record_metrics (failure_metrics configuration_default ''Failed to initialize libcurl'')],
     web_server posted_web)"
    by (simp add: thread_body_def client_from_def create_from_config_def new_ollama_def offline_def
        posted_web_def new_web_def new_server_def allocate_job_def configuration_default_def
        failed_text_def lowercase_def tolower_def INT_MAX_def Let_def)
  then have "web_step offline posted_web Quiet
      (posted_web\<lparr>web_server := web_server posted_web, web_threads := (web_threads posted_web)[0 :=
        (demo_job, Some [Store_output failed_text 2,
          Record_metrics (failure_metrics configuration_default ''Failed to initialize libcurl'')])]\<rparr>)"
    by (rule web_step.debate [rotated 3]) (simp_all add: posted_web_def new_web_def)
  moreover have "posted_web\<lparr>web_server := web_server posted_web, web_threads := (web_threads posted_web)[0 :=
        (demo_job, Some [Store_output failed_text 2,
          Record_metrics (failure_metrics configuration_default ''Failed to initialize libcurl'')])]\<rparr> =
      debated_web"
    by (simp add: debated_web_def posted_web_def)
  ultimately show ?thesis by simp
qed

lemma demo_store: "web_step offline debated_web Quiet stored_web"
proof -
  have s: "web_server debated_web = web_server posted_web" by (simp add: debated_web_def)
  have "web_step offline debated_web Quiet
     (debated_web\<lparr>web_server := update_job_output 5 (job_id demo_job) failed_text 2 (web_server debated_web),
        web_threads := (web_threads debated_web)[0 := (demo_job,
          Some [Record_metrics (failure_metrics configuration_default ''Failed to initialize libcurl'')])]\<rparr>)"
    by (rule web_step.store_output) (simp_all add: debated_web_def posted_web_def new_web_def)
  moreover have "job_id demo_job = 1" by (simp add: demo_job_def)
  ultimately show ?thesis
    unfolding stored_web_def s by (simp add: debated_web_def)
qed

lemma demo_run:
  "\<exists>rep. web_steps offline (new_web configuration_default None) [Answered rep, Quiet, Quiet] stored_web"
proof -
  obtain rep where "web_step offline (new_web configuration_default None) (Answered rep) posted_web"
    using demo_request by blast
  then show ?thesis
    using web_steps.more [OF web_steps.more [OF web_steps.more [OF web_steps.none]]]
      demo_debate demo_store by fastforce
qed

lemma demo_finished:
  "\<exists>j. lookup_job (web_server stored_web) 1 = Some j \<and> job_status j = 2"
  by (simp add: stored_web_def posted_web_def lookup_job_def update_job_output_def allocate_job_def
      new_web_def new_server_def INT_MAX_def finish_job_def Let_def debated_web_def)

section \<open>Properties of every run\<close>

text \<open>C8: in every reachable state the jobs are numbered from 1 without gaps; each job is running
  (no output yet), failed, or completed with the one text a debate can give (winner 0, no
  rounds, whatever the analysts answered); a job is running exactly while its thread has a result
  still to store; and the history lists every job once, in order, always as running.\<close>

theorem web_state_consistent:
  assumes "web_steps out (new_web cfg cl) ls w"
  shows "web_inv w"
  using assms web_inv_new by (rule web_inv_steps)

theorem web_state_consistent_witness:
  "\<exists>rep. web_steps offline (new_web configuration_default None) [Answered rep, Quiet, Quiet] stored_web \<and>
     web_inv stored_web"
  using demo_run web_state_consistent by blast

lemma finished_step:
  assumes "web_step out w l w'" and "web_inv w" and "lookup_job (web_server w) i = Some j"
    and "job_status j \<noteq> 0"
  shows "lookup_job (web_server w') i = Some j"
  using assms
proof (induction rule: web_step.induct)
  case (request w now sent l w')
  obtain r s' where h: "handle_request (out_page out) now (web_metrics w) sent (web_server w) = (r, s')"
    by (cases "handle_request (out_page out) now (web_metrics w) sent (web_server w)")
  then have s: "web_server w' = s'"
    using request(3) by (auto simp: after_request_def split: outcome.splits option.splits)
  have ok: "om_ok (jobs (web_server w))" and "i < next_job_id (web_server w)"
    using request.prems(1,2) unfolding web_inv_def table_ok_def by (blast, metis option.distinct(1))
  then show ?case
    using handle_request_cases [OF h] request.prems(2) lookup_allocate [OF _ ok] s by fastforce
next
  case (store_output w k j' "text" status acts now)
  have "thread_ok (web_server w) (j', Some (Store_output text status # acts))"
    using store_output.prems(1) store_output(2,3) unfolding web_inv_def by (metis nth_mem)
  then have "i \<noteq> job_id j'"
    using store_output.prems(2,3) by (auto simp: thread_ok_def split: if_splits)
  moreover have "om_ok (jobs (web_server w))"
    using store_output.prems(1) by (simp add: web_inv_def table_ok_def)
  ultimately show ?case using store_output.prems(2) by (simp add: lookup_update)
next
  case (debate w k j' nw elapsed acts s)
  then show ?case using thread_body_effect(3) [OF debate(4)] by (simp add: lookup_job_def)
qed (simp_all add: lookup_job_def stop_server_def)

text \<open>C9: a job that a poll has reported as completed or failed keeps its output, status and
  duration in every later state.\<close>

theorem finished_job_final:
  assumes "web_steps out (new_web cfg cl) ls w" and "lookup_job (web_server w) i = Some j"
    and "job_status j \<noteq> 0" and "web_steps out w ls' w'"
  shows "lookup_job (web_server w') i = Some j \<and> handle_query_status i (web_server w') =
    handle_query_status i (web_server w)"
proof -
  have inv: "web_inv w" using assms(1) web_inv_new by (rule web_inv_steps)
  from assms(4,2) inv assms(3) have "lookup_job (web_server w') i = Some j"
    by (induction rule: web_steps.induct) (auto intro: finished_step web_inv_steps)
  then show ?thesis
    using assms(2) by (simp add: handle_query_status_def find_job_def lookup_job_def)
qed

theorem finished_job_final_witness:
  "\<exists>j. lookup_job (web_server stored_web) 1 = Some j \<and> job_status j = 2 \<and>
     lookup_job (stop_server (web_server stored_web)) 1 = Some j"
proof -
  obtain rep where run: "web_steps offline (new_web configuration_default None)
      [Answered rep, Quiet, Quiet] stored_web"
    using demo_run by blast
  obtain j where j: "lookup_job (web_server stored_web) 1 = Some j" "job_status j = 2"
    using demo_finished by blast
  have "web_steps offline stored_web [Quiet]
      (stored_web\<lparr>web_server := stop_server (web_server stored_web)\<rparr>)"
    using web_steps.more [OF web_steps.none web_step.stop] by fastforce
  from finished_job_final [OF run j(1) _ this] j show ?thesis by auto
qed

section \<open>A request that stops the server\<close>

lemma hung_steps:
  "web_steps out w ls w' \<Longrightarrow> web_status w = Hung \<Longrightarrow>
   set ls \<subseteq> {Quiet} \<and> web_status w' = Hung \<and> web_metrics w' = web_metrics w"
proof (induction rule: web_steps.induct)
  case (more w ls w' l w'')
  have "web_step out w' l w'' \<Longrightarrow> web_status w' = Hung \<Longrightarrow>
      l = Quiet \<and> web_status w'' = Hung \<and> web_metrics w'' = web_metrics w'"
    by (induction rule: web_step.induct) auto
  with more show ?case by auto
qed simp

text \<open>C21: any client can stop a serving process for good with one well-formed request for the
  Prometheus text or the JSON statistics: the loop hangs in the handler, no request is answered
  any more, nothing is recorded in the metrics any more, and the process does not end.\<close>

theorem report_request_hangs_server:
  assumes "web_status w = Serving" and "srv_running (web_server w)"
    and "parse_request (recv_buffer sent) = Ret (Some (''GET'', path, body))"
    and "path = ''/metrics'' \<or> path = ''/api/stats''"
  shows "web_step out w Quiet (w\<lparr>web_status := Hung\<rparr>) \<and>
    (\<forall>ls w'. web_steps out (w\<lparr>web_status := Hung\<rparr>) ls w' \<longrightarrow>
       set ls \<subseteq> {Quiet} \<and> web_status w' = Hung \<and> web_metrics w' = web_metrics w)"
proof -
  have "recv_buffer sent \<noteq> []" using assms(3) by (auto simp: parse_request_def getline_def)
  moreover have "path \<noteq> ''/api/query''" using assms(4) by auto
  ultimately have "handle_request (out_page out) 0 (web_metrics w) sent (web_server w) =
      (Blocked, web_server w)"
    using assms(3) report_blocks [OF assms(4)] by (simp add: handle_request_def route_def)
  then have "after_request (handle_request (out_page out) 0 (web_metrics w) sent (web_server w)) w =
      (Quiet, w\<lparr>web_status := Hung\<rparr>)"
    by (simp add: after_request_def)
  then have "web_step out w Quiet (w\<lparr>web_status := Hung\<rparr>)"
    by (rule web_step.request [OF assms(1,2)])
  then show ?thesis using hung_steps [of out "w\<lparr>web_status := Hung\<rparr>"] by auto
qed

theorem report_request_hangs_server_witness:
  "web_step offline stored_web Quiet (stored_web\<lparr>web_status := Hung\<rparr>)"
proof -
  have "parse_request (recv_buffer ''GET /metrics HTTP/1.1'') = Ret (Some (''GET'', ''/metrics'', []))"
    by code_simp
  moreover have "web_status stored_web = Serving" "srv_running (web_server stored_web)"
    by (simp_all add: stored_web_def debated_web_def posted_web_def new_web_def update_job_output_def
        allocate_job_def Let_def split: option.split)
  ultimately show ?thesis using report_request_hangs_server by blast
qed

end
