(* ===== verification/Json_Text.thy ===== *)
theory Json_Text
  imports Cpp_Numbers
begin

text \<open>
  \<open>JSON.parse\<close> and \<open>JSON.stringify\<close> of a text as the script of the dashboard uses them. Reading is
  a lexer whose mode says what it is inside of, and an automaton over the tokens with a stack
  of the arrays and objects that are still open; both go through their list once, so no fuel is
  needed. A text is its UTF-8 bytes.
\<close>

section \<open>Values\<close>

datatype json =
  J_null | J_bool bool | J_num rat | J_str string | J_arr "json list" | J_obj "(string \<times> json) list"

text \<open>\<open>data.name\<close> and \<open>data[name]\<close>: \<open>None\<close> is \<open>undefined\<close>; of several members of one name the
  last counts; arrays and texts (of ASCII characters) have their elements and a length. An access to
  a member of \<open>null\<close> is an exception, which the callers look for.\<close>

definition indexed :: "string \<Rightarrow> json list \<Rightarrow> json option" where
  "indexed name vs =
     (if name = ''length'' then Some (J_num (of_nat (length vs)))
      else map_of (map (\<lambda>i. (show_nat i, vs ! i)) [0..<length vs]) name)"

fun member :: "string \<Rightarrow> json \<Rightarrow> json option" where
  "member name (J_obj ms) = map_of (rev ms) name"
| "member name (J_arr vs) = indexed name vs"
| "member name (J_str s) = indexed name (map (\<lambda>c. J_str [c]) s)"
| "member name v = None"

section \<open>Tokens\<close>

datatype json_token =
  Open_arr | Close_arr | Open_obj | Close_obj | Comma_tok | Colon_tok | Val json

definition json_space :: "char \<Rightarrow> bool" where
  "json_space c \<longleftrightarrow> c \<in> {CHR 0x20, CHR 0x09, CHR 0x0A, CHR 0x0D}"

definition punctuation :: "char \<Rightarrow> json_token option" where
  "punctuation c =
     (if c = CHR ''['' then Some Open_arr else if c = CHR '']'' then Some Close_arr
      else if c = CHR ''{'' then Some Open_obj else if c = CHR ''}'' then Some Close_obj
      else if c = CHR '','' then Some Comma_tok else if c = CHR '':'' then Some Colon_tok else None)"

text \<open>\<open>-? (0 | [1-9][0-9]*) (. [0-9]+)? ([eE] [+-]? [0-9]+)?\<close>\<close>

definition json_digit :: "char \<Rightarrow> bool" where
  "json_digit c \<longleftrightarrow> digit_value 10 c \<noteq> None"

definition digits_value :: "string \<Rightarrow> nat" where
  "digits_value ds = digits_to_nat 10 (leading_digits 10 ds)"

definition fraction_part :: "string \<Rightarrow> (rat \<times> string) option" where
  "fraction_part s =
     (case s of
        [] \<Rightarrow> Some (0, [])
      | c # r \<Rightarrow>
          if c \<noteq> CHR ''.'' then Some (0, s)
          else (let ds = takeWhile json_digit r
                in if ds = [] then None
                   else Some (of_nat (digits_value ds) / 10 ^ length ds, dropWhile json_digit r)))"

definition exponent_part :: "string \<Rightarrow> rat option" where
  "exponent_part s =
     (case s of
        [] \<Rightarrow> Some 1
      | c # r \<Rightarrow>
          if tolower c \<noteq> CHR ''e'' then None
          else (let minus = (take 1 r = ''-'');
                    ds = (if take 1 r = ''-'' \<or> take 1 r = ''+'' then drop 1 r else r)
                in if ds = [] \<or> \<not> list_all json_digit ds then None
                   else Some (if minus then 1 / 10 ^ digits_value ds else 10 ^ digits_value ds)))"

definition number_text :: "string \<Rightarrow> rat option" where
  "number_text s =
     (let minus = (take 1 s = ''-''); u = (if take 1 s = ''-'' then drop 1 s else s);
          ds = takeWhile json_digit u
      in if ds = [] \<or> (hd ds = CHR ''0'' \<and> length ds > 1) then None
         else (case fraction_part (dropWhile json_digit u) of
                 None \<Rightarrow> None
               | Some (f, r) \<Rightarrow>
                   map_option (\<lambda>e. (if minus then - 1 else 1) * (of_nat (digits_value ds) + f) * e)
                     (exponent_part r)))"

definition word_value :: "string \<Rightarrow> json option" where
  "word_value w =
     (if w = ''null'' then Some J_null else if w = ''true'' then Some (J_bool True)
      else if w = ''false'' then Some (J_bool False) else map_option J_num (number_text w))"

definition simple_escape :: "char \<Rightarrow> char option" where
  "simple_escape c =
     (if c = quote \<or> c = CHR 0x5C \<or> c = CHR ''/'' then Some c
      else if c = CHR ''b'' then Some (CHR 0x08) else if c = CHR ''f'' then Some (CHR 0x0C)
      else if c = CHR ''n'' then Some (CHR 0x0A) else if c = CHR ''r'' then Some (CHR 0x0D)
      else if c = CHR ''t'' then Some (CHR 0x09) else None)"

definition utf8 :: "nat \<Rightarrow> string" where
  "utf8 n =
     (if n < 0x80 then [char_of n]
      else if n < 0x800 then [char_of (0xC0 + n div 64), char_of (0x80 + n mod 64)]
      else if n < 0x10000
      then [char_of (0xE0 + n div 4096), char_of (0x80 + n div 64 mod 64), char_of (0x80 + n mod 64)]
      else [char_of (0xF0 + n div 262144), char_of (0x80 + n div 4096 mod 64),
            char_of (0x80 + n div 64 mod 64), char_of (0x80 + n mod 64)])"

text \<open>The unit of an escape behind the reversed text so far; the two units of a surrogate pair
  become one character.\<close>

definition put_unit :: "nat \<Rightarrow> string \<Rightarrow> string" where
  "put_unit n acc =
     (case acc of
        z # y # x # acc' \<Rightarrow>
          if 0xDC00 \<le> n \<and> n < 0xE000 \<and> code_of x = 0xED \<and> 0xA0 \<le> code_of y \<and> code_of y < 0xB0
          then rev (utf8 (0x10000 + ((code_of y - 0xA0) * 64 + (code_of z - 0x80)) * 0x400 + (n - 0xDC00))) @ acc'
          else rev (utf8 n) @ acc
      | _ \<Rightarrow> rev (utf8 n) @ acc)"

definition word_char :: "char \<Rightarrow> bool" where
  "word_char c \<longleftrightarrow> \<not> json_space c \<and> punctuation c = None \<and> c \<noteq> quote"

datatype lex_mode = Between | In_string string | Escape string | Hex string nat nat | In_word string

function tokens_of :: "lex_mode \<Rightarrow> string \<Rightarrow> json_token list option" where
  "tokens_of Between [] = Some []"
| "tokens_of Between (c # cs) =
     (if json_space c then tokens_of Between cs
      else if c = quote then tokens_of (In_string []) cs
      else (case punctuation c of
              Some t \<Rightarrow> map_option (\<lambda>ts. t # ts) (tokens_of Between cs)
            | None \<Rightarrow> tokens_of (In_word [c]) cs))"
| "tokens_of (In_string acc) [] = None"
| "tokens_of (In_string acc) (c # cs) =
     (if c = quote then map_option (\<lambda>ts. Val (J_str (rev acc)) # ts) (tokens_of Between cs)
      else if c = CHR 0x5C then tokens_of (Escape acc) cs
      else if code_of c < 0x20 then None
      else tokens_of (In_string (c # acc)) cs)"
| "tokens_of (Escape acc) [] = None"
| "tokens_of (Escape acc) (c # cs) =
     (if c = CHR ''u'' then tokens_of (Hex acc 3 0) cs
      else (case simple_escape c of None \<Rightarrow> None | Some d \<Rightarrow> tokens_of (In_string (d # acc)) cs))"
| "tokens_of (Hex acc k n) [] = None"
| "tokens_of (Hex acc k n) (c # cs) =
     (case digit_value 16 c of
        None \<Rightarrow> None
      | Some d \<Rightarrow>
          if k = 0 then tokens_of (In_string (put_unit (16 * n + d) acc)) cs
          else tokens_of (Hex acc (k - 1) (16 * n + d)) cs)"
| "tokens_of (In_word acc) [] = map_option (\<lambda>v. [Val v]) (word_value (rev acc))"
| "tokens_of (In_word acc) (c # cs) =
     (if word_char c then tokens_of (In_word (c # acc)) cs
      else (case word_value (rev acc) of
              None \<Rightarrow> None
            | Some v \<Rightarrow> map_option (\<lambda>ts. Val v # ts) (tokens_of Between (c # cs))))"
  by pat_completeness auto
termination
  by (relation "measure (\<lambda>(m, s). 2 * length s + (case m of In_word w \<Rightarrow> 1 | _ \<Rightarrow> 0))") auto

section \<open>Structure\<close>

text \<open>The members read so far, the last first; for an object also the name read last.\<close>

datatype frame = Arr "json list" | Obj "(string \<times> json) list" string

datatype expectation = Value | First_element | First_member | Next_member | Colon | After json

definition start_value :: "json_token \<Rightarrow> frame list \<Rightarrow> (expectation \<times> frame list) option" where
  "start_value t st =
     (case t of
        Val v \<Rightarrow> Some (After v, st)
      | Open_arr \<Rightarrow> Some (First_element, Arr [] # st)
      | Open_obj \<Rightarrow> Some (First_member, Obj [] [] # st)
      | _ \<Rightarrow> None)"

definition member_name :: "json_token \<Rightarrow> frame list \<Rightarrow> (expectation \<times> frame list) option" where
  "member_name t st =
     (case (t, st) of (Val (J_str k), Obj ms _ # st') \<Rightarrow> Some (Colon, Obj ms k # st') | _ \<Rightarrow> None)"

definition after_value :: "json_token \<Rightarrow> json \<Rightarrow> frame list \<Rightarrow> (expectation \<times> frame list) option" where
  "after_value t v st =
     (case st of
        [] \<Rightarrow> None
      | Arr vs # st' \<Rightarrow>
          if t = Comma_tok then Some (Value, Arr (v # vs) # st')
          else if t = Close_arr then Some (After (J_arr (rev (v # vs))), st') else None
      | Obj ms k # st' \<Rightarrow>
          if t = Comma_tok then Some (Next_member, Obj ((k, v) # ms) k # st')
          else if t = Close_obj then Some (After (J_obj (rev ((k, v) # ms))), st') else None)"

fun parse_step :: "json_token \<Rightarrow> expectation \<times> frame list \<Rightarrow> (expectation \<times> frame list) option" where
  "parse_step t (Value, st) = start_value t st"
| "parse_step t (First_element, st) =
     (if t = Close_arr then Some (After (J_arr []), tl st) else start_value t st)"
| "parse_step t (First_member, st) =
     (if t = Close_obj then Some (After (J_obj []), tl st) else member_name t st)"
| "parse_step t (Next_member, st) = member_name t st"
| "parse_step t (Colon, st) = (if t = Colon_tok then Some (Value, st) else None)"
| "parse_step t (After v, st) = after_value t v st"

fun parse_tokens :: "json_token list \<Rightarrow> expectation \<times> frame list \<Rightarrow> json option" where
  "parse_tokens [] st = (case st of (After v, []) \<Rightarrow> Some v | _ \<Rightarrow> None)"
| "parse_tokens (t # ts) st = (case parse_step t st of None \<Rightarrow> None | Some st' \<Rightarrow> parse_tokens ts st')"

definition json_parse :: "string \<Rightarrow> json option" where
  "json_parse s = Option.bind (tokens_of Between s) (\<lambda>ts. parse_tokens ts (Value, []))"

section \<open>Writing a text\<close>

definition escape_digit :: "nat \<Rightarrow> char" where
  "escape_digit d = (if d < 10 then digit_char d else char_of (87 + d))"

definition escape_byte :: "char \<Rightarrow> string" where
  "escape_byte c =
     (if c = quote \<or> c = CHR 0x5C then [CHR 0x5C, c]
      else if c = CHR 0x08 then [CHR 0x5C, CHR ''b''] else if c = CHR 0x0C then [CHR 0x5C, CHR ''f'']
      else if c = CHR 0x0A then [CHR 0x5C, CHR ''n''] else if c = CHR 0x0D then [CHR 0x5C, CHR ''r'']
      else if c = CHR 0x09 then [CHR 0x5C, CHR ''t'']
      else if code_of c < 0x20
      then [CHR 0x5C, CHR ''u'', CHR ''0'', CHR ''0'', escape_digit (code_of c div 16), escape_digit (code_of c mod 16)]
      else [c])"

definition js_escape :: "string \<Rightarrow> string" where
  "js_escape s = concat (map escape_byte s)"

definition stringify_text :: "string \<Rightarrow> string" where
  "stringify_text s = [quote] @ js_escape s @ [quote]"

section \<open>Reading back what was written\<close>

lemma put_unit_ascii: "n < 0x80 \<Longrightarrow> put_unit n acc = char_of n # acc"
  by (simp add: put_unit_def utf8_def split: list.split)

lemma digit_value_escape_digit: "d < 16 \<Longrightarrow> digit_value 16 (escape_digit d) = Some d"
  by (simp add: digit_value_def escape_digit_def digit_char_def Let_def)

lemma digit_value_zero: "digit_value 16 (CHR ''0'') = Some 0"
  by (simp add: digit_value_def)

lemma lex_escape_byte: "tokens_of (In_string a) (escape_byte c @ r) = tokens_of (In_string (c # a)) r"
proof (cases "code_of c < 0x20 \<and> escape_byte c =
    [CHR 0x5C, CHR ''u'', CHR ''0'', CHR ''0'', escape_digit (code_of c div 16), escape_digit (code_of c mod 16)]")
  case True
  then have "code_of c div 16 < 16" "code_of c < 128" by linarith+
  with True show ?thesis
    by (simp add: digit_value_zero digit_value_escape_digit put_unit_ascii)
qed (auto simp: escape_byte_def simple_escape_def)

lemma lex_js_escape: "tokens_of (In_string a) (js_escape q @ r) = tokens_of (In_string (rev q @ a)) r"
  by (induction q arbitrary: a) (simp_all add: js_escape_def lex_escape_byte)

lemma lex_stringify_text:
  "tokens_of Between (stringify_text q @ r) = map_option (\<lambda>ts. Val (J_str q) # ts) (tokens_of Between r)"
  by (simp add: stringify_text_def json_space_def lex_js_escape)

lemma lex_word:
  assumes "\<forall>c\<in>set w. word_char c" and "\<not> word_char d"
  shows "tokens_of (In_word a) (w @ d # r) =
    (case word_value (rev a @ w) of
       None \<Rightarrow> None | Some v \<Rightarrow> map_option (\<lambda>ts. Val v # ts) (tokens_of Between (d # r)))"
  using assms(1) by (induction w arbitrary: a) (simp_all add: assms(2))

lemma lex_start_word:
  assumes "\<forall>c\<in>set w. word_char c" and "w \<noteq> []" and "\<not> word_char d"
  shows "tokens_of Between (w @ d # r) =
    (case word_value w of
       None \<Rightarrow> None | Some v \<Rightarrow> map_option (\<lambda>ts. Val v # ts) (tokens_of Between (d # r)))"
proof -
  obtain c cs where w: "w = c # cs" using assms(2) by (cases w) auto
  then have c: "\<not> json_space c" "punctuation c = None" "c \<noteq> quote"
    using assms(1) by (simp_all add: word_char_def)
  have "tokens_of Between (w @ d # r) = tokens_of (In_word [c]) (cs @ d # r)"
    using c by (simp add: w)
  then show ?thesis
    using lex_word [of cs d "[c]" r] assms(1,3) by (simp add: w)
qed

lemma json_digit_word_char: "json_digit c \<Longrightarrow> word_char c"
proof (rule ccontr)
  assume "json_digit c" and "\<not> word_char c"
  then have "c \<in> {CHR 0x20, CHR 0x09, CHR 0x0A, CHR 0x0D, CHR ''['', CHR '']'', CHR ''{'', CHR ''}'',
      CHR '','', CHR '':'', quote}"
    by (auto simp: word_char_def json_space_def punctuation_def split: if_splits)
  with \<open>json_digit c\<close> show False
    by (auto simp: json_digit_def digit_value_def Let_def)
qed

lemma digit_char_facts:
  assumes "d < 10"
  shows "json_digit (digit_char d)" and "word_char (digit_char d)"
proof -
  show "json_digit (digit_char d)" using assms by (simp add: json_digit_def digit_value_digit_char)
  then show "word_char (digit_char d)" by (rule json_digit_word_char)
qed

lemma show_nat_json_digits: "\<forall>c\<in>set (show_nat n). json_digit c" "\<forall>c\<in>set (show_nat n). word_char c"
  using show_nat_digits digit_char_facts by blast+

lemma show_nat_no_leading_zero: "hd (show_nat n) = CHR ''0'' \<Longrightarrow> length (show_nat n) = 1"
proof (induction n rule: show_nat.induct)
  case (1 n)
  show ?case
  proof (cases "n < 10")
    case False
    then have s: "show_nat n = show_nat (n div 10) @ [digit_char (n mod 10)]"
      by (simp add: show_nat.simps [of n])
    with 1(2) have "hd (show_nat (n div 10)) = CHR ''0''" by simp
    with 1(1) False have "length (show_nat (n div 10)) = 1" by blast
    then have "show_nat (n div 10) = [CHR ''0'']"
      using \<open>hd (show_nat (n div 10)) = CHR ''0''\<close> by (cases "show_nat (n div 10)") auto
    then have "digits_to_nat 10 (map (\<lambda>c. the (digit_value 10 c)) [CHR ''0'']) = n div 10"
      using show_nat_value [of "n div 10"] by simp
    then have "n div 10 = 0" by (simp add: digits_to_nat_def digit_value_def)
    with False show ?thesis by simp
  qed (simp add: show_nat.simps [of n])
qed

lemma digits_value_show_nat: "digits_value (show_nat n) = n"
proof -
  have "leading_digits 10 (show_nat n @ []) = map (\<lambda>c. the (digit_value 10 c)) (show_nat n)"
    using leading_digits_append [of "show_nat n" 10 "[]"] show_nat_json_digits(1)
    by (simp add: json_digit_def)
  then show ?thesis by (simp add: digits_value_def show_nat_value)
qed

lemma number_text_show_int: "number_text (show_int i) = Some (of_int i)"
proof -
  have tw: "takeWhile json_digit (show_nat n) = show_nat n" "dropWhile json_digit (show_nat n) = []" for n
    using show_nat_json_digits(1) by simp_all
  obtain c cs where s: "show_nat (nat i) = c # cs" by (cases "show_nat (nat i)") auto
  then have "c \<noteq> CHR ''-''"
    using show_nat_json_digits(1) [of "nat i"] by (auto simp: json_digit_def digit_value_def Let_def)
  with s have "take 1 (show_nat (nat i)) \<noteq> ''-''" by simp
  then show ?thesis
    using show_nat_no_leading_zero [of "nat i"] show_nat_no_leading_zero [of "nat (- i)"]
    by (auto simp: number_text_def show_int_def Let_def tw digits_value_show_nat fraction_part_def
        exponent_part_def)
qed

lemma word_value_show_int: "word_value (show_int i) = Some (J_num (of_int i))"
proof -
  have "c \<in> set (show_int i) \<Longrightarrow> c \<in> set ''-'' \<or> json_digit c" for c
    using show_nat_json_digits(1) by (auto simp: show_int_def split: if_splits)
  then have "show_int i \<noteq> ''null''" "show_int i \<noteq> ''true''" "show_int i \<noteq> ''false''"
    by (force simp: json_digit_def digit_value_def Let_def)+
  then show ?thesis by (simp add: word_value_def number_text_show_int)
qed

lemma lex_show_int:
  assumes "\<not> word_char d"
  shows "tokens_of Between (show_int i @ d # r) =
    map_option (\<lambda>ts. Val (J_num (of_int i)) # ts) (tokens_of Between (d # r))"
proof -
  have "word_char (CHR ''-'')" by (simp add: word_char_def json_space_def punctuation_def)
  then have "\<forall>c\<in>set (show_int i). word_char c" "show_int i \<noteq> []"
    using show_nat_json_digits(2) by (auto simp: show_int_def)
  from lex_start_word [OF this assms] show ?thesis by (simp add: word_value_show_int)
qed

lemma escape_digit_no_quote: "d < 16 \<Longrightarrow> quote \<noteq> escape_digit d"
proof
  assume "d < 16" and "quote = escape_digit d"
  then have "digit_value 16 quote = Some d" by (simp add: digit_value_escape_digit)
  then show False by (simp add: digit_value_def)
qed

lemma escape_byte_no_quote: "quote \<noteq> c \<Longrightarrow> quote \<notin> set (escape_byte c)"
proof (cases "code_of c < 0x20")
  case True
  then have "quote \<noteq> escape_digit (code_of c div 16)" "quote \<noteq> escape_digit (code_of c mod 16)"
    by (intro escape_digit_no_quote, linarith)+
  moreover assume "quote \<noteq> c"
  ultimately show ?thesis
    by (simp add: escape_byte_def)
next
  case False
  then have "c \<noteq> CHR 0x08" "c \<noteq> CHR 0x0C" "c \<noteq> CHR 0x0A" "c \<noteq> CHR 0x0D" "c \<noteq> CHR 0x09" by auto
  moreover assume "quote \<noteq> c"
  ultimately show ?thesis using False by (simp add: escape_byte_def)
qed
lemma js_escape_no_quote: "quote \<notin> set a \<Longrightarrow> quote \<notin> set (js_escape a)"
  by (induction a) (simp_all add: js_escape_def escape_byte_no_quote)

lemma js_escape_append: "js_escape (a @ b) = js_escape a @ js_escape b"
  "js_escape (c # b) = escape_byte c @ js_escape b"
  by (simp_all add: js_escape_def)

section \<open>Raw texts inside a string\<close>

fun in_text :: "lex_mode \<Rightarrow> bool" where
  "in_text (In_string a) = True"
| "in_text (Escape a) = True"
| "in_text (Hex a k n) = True"
| "in_text m = False"

lemma lex_raw_text:
  assumes "quote \<notin> set t" and "in_text m"
  shows "(\<forall>r. tokens_of m (t @ r) = None) \<or> (\<exists>m'. in_text m' \<and> (\<forall>r. tokens_of m (t @ r) = tokens_of m' r))"
  using assms
proof (induction t arbitrary: m)
  case Nil
  then show ?case by auto
next
  case (Cons c t)
  have "(\<forall>r. tokens_of m (c # r) = None) \<or> (\<exists>m'. in_text m' \<and> (\<forall>r. tokens_of m (c # r) = tokens_of m' r))"
  proof (cases m)
    case (In_string a)
    then show ?thesis using Cons.prems(1)
      by (cases "c = CHR 0x5C"; cases "code_of c < 0x20")
        (auto intro: exI [of _ "Escape a"] exI [of _ "In_string (c # a)"])
  next
    case (Escape a)
    then show ?thesis
      by (cases "c = CHR ''u''"; cases "simple_escape c")
        (auto intro: exI [of _ "Hex a 3 0"] exI [of _ "In_string (the (simple_escape c) # a)"])
  next
    case (Hex a k n)
    then show ?thesis
      by (cases "digit_value 16 c"; cases "k = 0")
        (auto intro: exI [of _ "Hex a (k - 1) (16 * n + the (digit_value 16 c))"]
          exI [of _ "In_string (put_unit (16 * n + the (digit_value 16 c)) a)"])
  qed (use Cons.prems in simp_all)
  then show ?case
  proof
    assume "\<exists>m'. in_text m' \<and> (\<forall>r. tokens_of m (c # r) = tokens_of m' r)"
    then obtain m' where m': "in_text m'" "\<forall>r. tokens_of m (c # r) = tokens_of m' r" by blast
    show ?thesis using Cons.IH [OF _ m'(1)] Cons.prems(1) m'(2) by auto
  qed auto
qed

end
