(* ===== verification/Dashboard.thy ===== *)
theory Dashboard
  imports Json_Text Metrics
begin

text \<open>
  The script of the page \<open>get_dashboard_html\<close> (\<open>http/HttpServer.cpp\<close>) sends: the client of the
  web server. An event (a click, a timer, the reply to a request) changes the page and gives the
  requests it sends. A reply is handled by its body alone, as the script never looks at the
  status code; a body that is not JSON, or an exception in a handler, leaves the page as it is at
  that point unless the promise has a \<open>catch\<close>. The texts of the page are its state; layout,
  colours and the drawing of the charts are left out.
\<close>

section \<open>JavaScript values\<close>

text \<open>What depends on the browser: the text of a fraction, numbers read from a text, lower case,
  \<open>localeCompare\<close>, \<open>toFixed\<close>, \<open>toLocaleString\<close> and \<open>toLocaleTimeString\<close>.\<close>

record browser =
  br_fraction :: "rat \<Rightarrow> string"
  br_number :: "string \<Rightarrow> rat option"
  br_lower :: "string \<Rightarrow> string"
  br_compare :: "string \<Rightarrow> string \<Rightarrow> int"
  br_fixed :: "nat \<Rightarrow> rat \<Rightarrow> string"
  br_locale :: "json \<Rightarrow> string"
  br_time :: "json \<Rightarrow> string"

text \<open>A value or \<open>undefined\<close>.\<close>

type_synonym js = "json option"

fun comma_join :: "string list \<Rightarrow> string" where
  "comma_join [] = []"
| "comma_join [x] = x"
| "comma_join (x # y # xs) = x @ '','' @ comma_join (y # xs)"

fun json_string :: "browser \<Rightarrow> json \<Rightarrow> string" where
  "json_string br J_null = ''null''"
| "json_string br (J_bool b) = show_bool b"
| "json_string br (J_num r) = (if of_int \<lfloor>r\<rfloor> = r then show_int \<lfloor>r\<rfloor> else br_fraction br r)"
| "json_string br (J_str s) = s"
| "json_string br (J_arr vs) =
     comma_join (map (\<lambda>v. if v = J_null then [] else json_string br v) vs)"
| "json_string br (J_obj ms) = ''[object Object]''"

definition js_text :: "browser \<Rightarrow> js \<Rightarrow> string" where
  "js_text br v = (case v of None \<Rightarrow> ''undefined'' | Some w \<Rightarrow> json_string br w)"

fun truthy :: "js \<Rightarrow> bool" where
  "truthy None = False"
| "truthy (Some J_null) = False"
| "truthy (Some (J_bool b)) = b"
| "truthy (Some (J_num r)) = (r \<noteq> 0)"
| "truthy (Some (J_str s)) = (s \<noteq> [])"
| "truthy (Some v) = True"

text \<open>\<open>None\<close> is \<open>NaN\<close>.\<close>

fun js_number :: "browser \<Rightarrow> js \<Rightarrow> rat option" where
  "js_number br None = None"
| "js_number br (Some J_null) = Some 0"
| "js_number br (Some (J_bool b)) = Some (if b then 1 else 0)"
| "js_number br (Some (J_num r)) = Some r"
| "js_number br (Some v) = br_number br (json_string br v)"

text \<open>The text of \<open>names[v]\<close>, as in \<open>['Running', 'Complete', 'Failed'][job.status]\<close>.\<close>

definition pick :: "browser \<Rightarrow> string list \<Rightarrow> js \<Rightarrow> string" where
  "pick br names v = js_text br (member (js_text br v) (J_arr (map J_str names)))"

text \<open>\<open>element.textContent = v\<close>\<close>

definition text_content :: "browser \<Rightarrow> js \<Rightarrow> string" where
  "text_content br v = (if v = None \<or> v = Some J_null then [] else js_text br v)"

text \<open>\<open>!text.trim()\<close>: the spaces of \<open>trim\<close> that need more than one byte in UTF-8.\<close>

definition wide_spaces :: "string list" where
  "wide_spaces =
     [CHR 0xC2, CHR 0xA0] # [CHR 0xEF, CHR 0xBB, CHR 0xBF] # [CHR 0xE1, CHR 0x9A, CHR 0x80] #
     [CHR 0xE2, CHR 0x81, CHR 0x9F] # [CHR 0xE3, CHR 0x80, CHR 0x80] #
     map (\<lambda>n. [CHR 0xE2, CHR 0x80, char_of n]) ([0x80..<0x8B] @ [0xA8, 0xA9, 0xAF])"

definition skip_space :: "string \<Rightarrow> string option" where
  "skip_space s =
     (if s \<noteq> [] \<and> isspace (hd s) then Some (tl s)
      else (case filter (\<lambda>w. take (length w) s = w) wide_spaces of
              [] \<Rightarrow> None | w # _ \<Rightarrow> Some (drop (length w) s)))"

lemma wide_spaces_nonempty: "w \<in> set wide_spaces \<Longrightarrow> w \<noteq> []"
  by (auto simp: wide_spaces_def)

lemma skip_space_shorter: "skip_space s = Some r \<Longrightarrow> length r < length s"
proof (cases "s \<noteq> [] \<and> isspace (hd s)")
  case False
  assume "skip_space s = Some r"
  with False obtain w ws where w: "filter (\<lambda>w. take (length w) s = w) wide_spaces = w # ws"
    and r: "r = drop (length w) s"
    by (auto simp: skip_space_def split: if_splits list.splits)
  from w have "w \<in> set (filter (\<lambda>w. take (length w) s = w) wide_spaces)" by simp
  then have "w \<noteq> []" "take (length w) s = w" using wide_spaces_nonempty by auto
  then have "0 < length w \<and> length w \<le> length s" by (metis length_greater_0_conv length_take min.cobounded1)
  then have "0 < length w" "length w \<le> length s" by simp_all
  then show ?thesis unfolding r length_drop by linarith
qed (auto simp: skip_space_def)

function js_blank :: "string \<Rightarrow> bool" where
  "js_blank s = (if s = [] then True else (case skip_space s of None \<Rightarrow> False | Some r \<Rightarrow> js_blank r))"
  by pat_completeness auto
termination
  by (relation "measure length") (auto dest: skip_space_shorter)

declare js_blank.simps [simp del]

section \<open>The page\<close>

datatype timer = Jobs_timer | History_timer | Poll_timer js | Progress_timer js | Picture_timer js

record job_card =
  card_class :: string
  card_job :: string
  card_status :: string

record history_row =
  row_job :: string
  row_query :: string
  row_provider :: string
  row_duration :: string
  row_status :: string

record analyst_card =
  ac_eliminated :: bool
  ac_name :: string
  ac_provider :: string
  ac_confidence :: string
  ac_idle :: bool
  ac_votes :: string
  ac_round :: string

record stats_panel =
  total_debates :: string
  total_success :: string
  total_duration :: string
  total_tokens :: string
  provider_lines :: "(string \<times> string) list"

text \<open>A chart is its labels and its series of values, made by the script or taken from the reply; the
  names and colours of the series are left out.\<close>

datatype series = Whole js | Each "js list"

type_synonym chart = "series \<times> series list"

record page =
  query_input :: string
  active_tab :: string
  selected_job :: js
  timers :: "(nat \<times> timer) list"
  next_timer :: nat
  debate_polling :: "nat option"
  all_history :: json
  filtered_history :: "json list"
  out_text :: string
  job_cards :: "job_card list"
  history_rows :: "history_row list"
  round_counter :: string
  analyst_counter :: string
  progress_percent :: string
  argument_display :: string
  current_picture :: js
  analyst_cards :: "analyst_card list"
  round_timeline :: "(nat \<times> bool) list"
  metrics_hours :: nat
  charts :: "string \<Rightarrow> chart option"
  page_stats :: stats_panel

datatype fetch =
  Submit string | Poll nat js | Select js | Tasks | History | Progress_tick js | Progress_first js |
  Picture js | Stats | Trends | Success_rates | Tokens | Models | Timeseries | Percentiles string

definition request_path :: "browser \<Rightarrow> nat \<Rightarrow> fetch \<Rightarrow> string" where
  "request_path br hours f =
     (let h = ''hours='' @ show_nat hours
      in case f of
           Submit q \<Rightarrow> ''/api/query''
         | Poll n j \<Rightarrow> ''/api/query?job_id='' @ js_text br j
         | Select j \<Rightarrow> ''/api/query?job_id='' @ js_text br j
         | Tasks \<Rightarrow> ''/api/tasks''
         | History \<Rightarrow> ''/api/history''
         | Progress_tick j \<Rightarrow> ''/api/debate/'' @ js_text br j @ ''/progress''
         | Progress_first j \<Rightarrow> ''/api/debate/'' @ js_text br j @ ''/progress''
         | Picture j \<Rightarrow> ''/api/debate/'' @ js_text br j @ ''/visualization''
         | Stats \<Rightarrow> ''/api/stats''
         | Trends \<Rightarrow> ''/api/metrics/trends?'' @ h
         | Success_rates \<Rightarrow> ''/api/metrics/trends?'' @ h
         | Tokens \<Rightarrow> ''/api/metrics/tokens?'' @ h
         | Models \<Rightarrow> ''/api/metrics/models?'' @ h
         | Timeseries \<Rightarrow> ''/api/metrics/timeseries?'' @ h
         | Percentiles p \<Rightarrow> ''/api/metrics/percentiles?provider='' @ p @ ''&'' @ h)"

text \<open>The body \<open>JSON.stringify({ query, rounds: 4 })\<close>.\<close>

definition submit_body :: "string \<Rightarrow> string" where \<open>
  submit_body q = ''{"query":'' @ stringify_text q @ '',"rounds":4}''\<close>

definition request_of :: "browser \<Rightarrow> nat \<Rightarrow> fetch \<Rightarrow> string \<times> string \<times> string" where
  "request_of br hours f =
     (case f of
        Submit q \<Rightarrow> (''POST'', request_path br hours f, submit_body q)
      | _ \<Rightarrow> (''GET'', request_path br hours f, []))"

section \<open>Events\<close>

definition set_interval :: "timer \<Rightarrow> page \<Rightarrow> page" where
  "set_interval t p = p\<lparr>timers := timers p @ [(next_timer p, t)], next_timer := next_timer p + 1\<rparr>"

definition clear_interval :: "nat \<Rightarrow> page \<Rightarrow> page" where
  "clear_interval n p = p\<lparr>timers := filter (\<lambda>t. fst t \<noteq> n) (timers p)\<rparr>"

definition stop_debate_polling :: "page \<Rightarrow> page" where
  "stop_debate_polling p =
     (case debate_polling p of None \<Rightarrow> p | Some n \<Rightarrow> (clear_interval n p)\<lparr>debate_polling := None\<rparr>)"

definition submit_query :: "page \<Rightarrow> page \<times> fetch list" where
  "submit_query p = (p, if js_blank (query_input p) then [] else [Submit (query_input p)])"

definition start_debate_polling :: "js \<Rightarrow> page \<Rightarrow> page \<times> fetch list" where
  "start_debate_polling j p =
     ((set_interval (Progress_timer j) p)\<lparr>debate_polling := Some (next_timer p)\<rparr>, [Progress_first j])"

definition start_picture_polling :: "js \<Rightarrow> page \<Rightarrow> page \<times> fetch list" where
  "start_picture_polling j p = (set_interval (Picture_timer j) (p\<lparr>current_picture := j\<rparr>), [Picture j])"

definition refresh_advanced_metrics :: "page \<Rightarrow> page \<times> fetch list" where
  "refresh_advanced_metrics p =
     (p, [Trends, Success_rates, Tokens, Models, Timeseries] @
         map Percentiles [''ollama'', ''claude'', ''google-agy''])"

definition switch_tab :: "string \<Rightarrow> page \<Rightarrow> page \<times> fetch list" where
  "switch_tab tab p0 =
     (let p = (stop_debate_polling p0)\<lparr>active_tab := tab\<rparr>
      in if tab = ''metrics'' then (p, [Stats])
         else if tab = ''debate-progress'' \<and> truthy (selected_job p)
         then start_debate_polling (selected_job p) p
         else if tab = ''history'' then (p, [History])
         else if tab = ''visualization'' \<and> truthy (selected_job p)
         then start_picture_polling (selected_job p) p
         else if tab = ''advanced-metrics'' then refresh_advanced_metrics p
         else (p, []))"

definition switch_metrics_range :: "nat \<Rightarrow> page \<Rightarrow> page \<times> fetch list" where
  "switch_metrics_range hours p = refresh_advanced_metrics (p\<lparr>metrics_hours := hours\<rparr>)"

definition rerun_debate :: "string \<Rightarrow> page \<Rightarrow> page \<times> fetch list" where
  "rerun_debate query p =
     (let (p1, fs) = switch_tab ''query'' (p\<lparr>query_input := query\<rparr>); (p2, gs) = submit_query p1
      in (p2, fs @ gs))"

definition select_job :: "js \<Rightarrow> page \<Rightarrow> page \<times> fetch list" where
  "select_job j p = (p\<lparr>selected_job := j\<rparr>, [Select j])"

definition poll_job :: "js \<Rightarrow> page \<Rightarrow> page" where
  "poll_job j p = set_interval (Poll_timer j) p"

text \<open>What a timer that is still set does when it fires.\<close>

definition tick :: "nat \<Rightarrow> page \<Rightarrow> page \<times> fetch list" where
  "tick n p =
     (case map_of (timers p) n of
        None \<Rightarrow> (p, [])
      | Some Jobs_timer \<Rightarrow> (p, [Tasks])
      | Some History_timer \<Rightarrow> (p, [History])
      | Some (Poll_timer j) \<Rightarrow> (p, [Poll n j])
      | Some (Progress_timer j) \<Rightarrow> (p, [Progress_tick j])
      | Some (Picture_timer j) \<Rightarrow>
          if current_picture p = j then (p, [Picture j]) else (clear_interval n p, []))"

text \<open>The page as it is sent, with the two timers its script sets.\<close>

definition new_page :: page where
  "new_page =
     \<lparr>query_input = ''Check for security issues in this code'', active_tab = ''query'', selected_job = Some J_null,
      timers = [(1, Jobs_timer), (2, History_timer)], next_timer = 3, debate_polling = None,
      all_history = J_arr [], filtered_history = [], out_text = ''Results will appear here...'', job_cards = [],
      history_rows = [], round_counter = ''Round 0/4'', analyst_counter = ''Analysts: 0'',
      progress_percent = ''0%'',
      argument_display = ''Select a running debate to see real-time progress...'', current_picture = Some J_null,
      analyst_cards = [], round_timeline = [], metrics_hours = 24, charts = (\<lambda>_. None),
      page_stats = \<lparr>total_debates = ''0'', total_success = ''0%'', total_duration = ''0ms'',
        total_tokens = ''0'', provider_lines = []\<rparr>\<rparr>"

text \<open>The script asks for the jobs and the history at once.\<close>

definition load_page :: "page \<times> fetch list" where
  "load_page = (new_page, [Tasks, History])"

section \<open>Replies about jobs\<close>

definition on_submitted :: "json \<Rightarrow> page \<Rightarrow> page" where
  "on_submitted data p =
     (if data = J_null then p
      else poll_job (member ''job_id'' data) (p\<lparr>selected_job := member ''job_id'' data\<rparr>))"

definition on_poll :: "browser \<Rightarrow> nat \<Rightarrow> json \<Rightarrow> page \<Rightarrow> page \<times> fetch list" where
  "on_poll br n job p =
     (if job = J_null then (p, [])
      else if truthy (member ''error'' job) then (clear_interval n p, [])
      else (let p1 = p\<lparr>out_text := text_content br (member ''output'' job)\<rparr>
            in if member ''status'' job \<noteq> Some (J_num 0) then (clear_interval n p1, [Tasks])
               else (p1, [])))"

definition on_select :: "browser \<Rightarrow> json \<Rightarrow> page \<Rightarrow> page" where
  "on_select br job p =
     (if job = J_null then p else p\<lparr>out_text := text_content br (member ''output'' job)\<rparr>)"

definition card_of :: "browser \<Rightarrow> json \<Rightarrow> job_card" where
  "card_of br job =
     \<lparr>card_class = pick br [''running'', ''complete'', ''failed''] (member ''status'' job),
      card_job = js_text br (member ''id'' job),
      card_status = ''Status: '' @ pick br [''Running'', ''Complete'', ''Failed''] (member ''status'' job) @
        '' ('' @ js_text br (member ''duration_ms'' job) @ ''ms)''\<rparr>"

definition on_tasks :: "browser \<Rightarrow> json \<Rightarrow> page \<Rightarrow> page" where
  "on_tasks br data p =
     (case member ''tasks'' data of
        Some (J_arr vs) \<Rightarrow> if J_null \<in> set vs then p else p\<lparr>job_cards := map (card_of br) vs\<rparr>
      | _ \<Rightarrow> p)"

section \<open>Replies about the history\<close>

text \<open>\<open>[...v]\<close>; a text is spread into its characters.\<close>

definition spread :: "json \<Rightarrow> json list option" where
  "spread v =
     (case v of J_arr vs \<Rightarrow> Some vs | J_str s \<Rightarrow> Some (map (\<lambda>c. J_str [c]) s) | _ \<Rightarrow> None)"

text \<open>\<open>None\<close> is an exception: \<open>substring\<close> and \<open>replace\<close> need a text. The length is that of the
  bytes, which is the length JavaScript sees when the text is ASCII.\<close>

definition history_row_of :: "browser \<Rightarrow> json \<Rightarrow> history_row option" where
  "history_row_of br job =
     (case member ''query'' job of
        Some (J_str q) \<Rightarrow>
          Some \<lparr>row_job = js_text br (member ''job_id'' job),
                row_query = take 40 q @ (if length q > 40 then ''...'' else []),
                row_provider = js_text br (member ''provider'' job),
                row_duration = js_text br (member ''duration_ms'' job),
                row_status = (if truthy (member ''success'' job) then ''Success'' else ''Failed'')\<rparr>
      | _ \<Rightarrow> None)"

text \<open>The one row \<open>No queries found\<close> is shown as no rows.\<close>

definition display_history :: "browser \<Rightarrow> page \<Rightarrow> page" where
  "display_history br p =
     (case those (map (history_row_of br) (filtered_history p)) of
        None \<Rightarrow> p | Some rows \<Rightarrow> p\<lparr>history_rows := rows\<rparr>)"

definition on_history :: "browser \<Rightarrow> json \<Rightarrow> page \<Rightarrow> page" where
  "on_history br data p =
     (if data = J_null then p
      else (let h = (if truthy (member ''history'' data) then the (member ''history'' data) else J_arr []);
                p1 = p\<lparr>all_history := h\<rparr>
            in case spread h of
                 None \<Rightarrow> p1
               | Some vs \<Rightarrow> display_history br (p1\<lparr>filtered_history := vs\<rparr>)))"

fun is_text :: "js \<Rightarrow> bool" where
  "is_text (Some (J_str s)) = True"
| "is_text v = False"

text \<open>An exception leaves the list as it was, and nothing is displayed.\<close>

definition search_history :: "browser \<Rightarrow> string \<Rightarrow> page \<Rightarrow> page" where
  "search_history br search_text p =
     (if js_blank search_text
      then (case spread (all_history p) of
              None \<Rightarrow> p | Some vs \<Rightarrow> display_history br (p\<lparr>filtered_history := vs\<rparr>))
      else (case all_history p of
              J_arr vs \<Rightarrow>
                if \<not> list_all (\<lambda>v. is_text (member ''query'' v)) vs then p
                else display_history br (p\<lparr>filtered_history := filter
                  (\<lambda>v. find_sub (br_lower br search_text)
                         (br_lower br (js_text br (member ''query'' v))) \<noteq> None) vs\<rparr>)
            | _ \<Rightarrow> p))"

text \<open>\<open>filteredHistory.sort(...)\<close> is stable; a difference that is \<open>NaN\<close> counts as equal. The order is
  that of any stable sort when the comparison is consistent.\<close>

definition compare_field :: "browser \<Rightarrow> string \<Rightarrow> json \<Rightarrow> json \<Rightarrow> rat" where
  "compare_field br field a b =
     (case member field a of
        Some (J_str s) \<Rightarrow> of_int (br_compare br s (js_text br (member field b)))
      | v \<Rightarrow>
          (case (js_number br v, js_number br (member field b)) of
             (Some m, Some n) \<Rightarrow> m - n | _ \<Rightarrow> 0))"

fun insert_by :: "('a \<Rightarrow> 'a \<Rightarrow> rat) \<Rightarrow> 'a \<Rightarrow> 'a list \<Rightarrow> 'a list" where
  "insert_by cmp x [] = [x]"
| "insert_by cmp x (y # ys) = (if cmp x y \<le> 0 then x # y # ys else y # insert_by cmp x ys)"

definition sort_by :: "('a \<Rightarrow> 'a \<Rightarrow> rat) \<Rightarrow> 'a list \<Rightarrow> 'a list" where
  "sort_by cmp xs = foldr (insert_by cmp) xs []"

definition sort_history_by :: "browser \<Rightarrow> string \<Rightarrow> page \<Rightarrow> page" where
  "sort_history_by br field p =
     (if length (filtered_history p) > 1 \<and> J_null \<in> set (filtered_history p) then p
      else display_history br
        (p\<lparr>filtered_history := sort_by (compare_field br field) (filtered_history p)\<rparr>))"

section \<open>Exports\<close>

text \<open>The file that is offered for download, given the time as \<open>toISOString\<close> writes it.\<close>

definition export_json :: "string \<Rightarrow> page \<Rightarrow> string \<times> string" where \<open>
  export_json now p =
     (''debate_result.json'',
      line ''{'' @ line (''  "timestamp": '' @ stringify_text now @ '','') @
      line (''  "result": '' @ stringify_text (out_text p)) @ ''}'')\<close>

definition export_text :: "page \<Rightarrow> string \<times> string" where
  "export_text p = (''debate_result.txt'', out_text p)"

end
