(* ===== verification/Dashboard_Replies.thy ===== *)
theory Dashboard_Replies
  imports Dashboard
begin

text \<open>
  The second half of the script of the page: what the replies about the progress of a debate,
  its picture, the statistics and the detailed metrics do to the page, and which handler a reply
  goes to. A function that gives an option ends in an exception at \<open>None\<close>; what it had changed
  before stays changed.
\<close>

section \<open>Progress of a debate\<close>

text \<open>\<open>v || 0\<close>\<close>

definition or_zero :: "js \<Rightarrow> js" where
  "or_zero v = (if truthy v then v else Some (J_num 0))"

definition update_debate_display :: "browser \<Rightarrow> json \<Rightarrow> page \<Rightarrow> page" where
  "update_debate_display br data p =
     (let t = (\<lambda>name. js_text br (member name data));
          percent = js_text br (or_zero (member ''progress_percent'' data));
          p1 = p\<lparr>round_counter := ''Round '' @ t ''current_round'' @ ''/'' @ t ''total_rounds'',
                 analyst_counter := ''Analysts: '' @ t ''analyst_count'',
                 progress_percent := percent @ ''%'',
                 argument_display :=
                   line ''Debate Progress'' @ [newline] @
                   line (''Query: '' @ t ''query'') @
                   line (''Provider: '' @ t ''provider'') @
                   line (''Duration: '' @ t ''duration_ms'' @ ''ms'') @
                   line (''Status: '' @
                     pick br [''Running'', ''Complete'', ''Failed''] (member ''status'' data)) @
                   line (''Progress: '' @ percent @ ''%'')\<rparr>
      in if member ''status'' data \<noteq> Some (J_num 0) then stop_debate_polling p1 else p1)"

text \<open>The \<open>catch\<close> of the timer's request. \<open>clearInterval(null)\<close> does nothing.\<close>

definition on_progress_tick :: "browser \<Rightarrow> json option \<Rightarrow> page \<Rightarrow> page" where
  "on_progress_tick br data p =
     (case data of
        None \<Rightarrow> stop_debate_polling p
      | Some v \<Rightarrow> if v = J_null then stop_debate_polling p else update_debate_display br v p)"

section \<open>Picture of a debate\<close>

text \<open>\<open>v >= 0\<close>, \<open>v < 30\<close>; comparisons with \<open>NaN\<close> are false.\<close>

definition at_least_0 :: "browser \<Rightarrow> js \<Rightarrow> bool" where
  "at_least_0 br v = (case js_number br v of None \<Rightarrow> False | Some r \<Rightarrow> r \<ge> 0)"

definition below_30 :: "browser \<Rightarrow> js \<Rightarrow> bool" where
  "below_30 br v = (case js_number br v of None \<Rightarrow> False | Some r \<Rightarrow> r < 30)"

text \<open>\<open>v || []\<close> as the array to \<open>map\<close> over, whose elements are read.\<close>

definition elements :: "js \<Rightarrow> json list option" where
  "elements v =
     (if truthy v
      then (case v of Some (J_arr vs) \<Rightarrow> if J_null \<in> set vs then None else Some vs | _ \<Rightarrow> None)
      else Some [])"

definition analyst_card_of :: "browser \<Rightarrow> json \<Rightarrow> analyst_card" where
  "analyst_card_of br a =
     (let e = member ''eliminated_round'' a; c = member ''confidence'' a
      in \<lparr>ac_eliminated = at_least_0 br e, ac_name = js_text br (member ''name'' a),
          ac_provider = js_text br (member ''provider'' a), ac_confidence = js_text br c @ ''%'',
          ac_idle = below_30 br c, ac_votes = js_text br (member ''votes'' a),
          ac_round = (if at_least_0 br e then ''Eliminated R'' @ js_text br e else [])\<rparr>)"

definition display_analyst_cards :: "browser \<Rightarrow> js \<Rightarrow> page \<Rightarrow> page option" where
  "display_analyst_cards br analysts p =
     (if \<not> truthy analysts then Some p
      else map_option (\<lambda>vs. p\<lparr>analyst_cards := map (analyst_card_of br) vs\<rparr>) (elements analysts))"

definition set_chart :: "string \<Rightarrow> chart \<Rightarrow> page \<Rightarrow> page" where
  "set_chart name c p = p\<lparr>charts := (charts p)(name := Some c)\<rparr>"

definition update_analyst_chart :: "string \<Rightarrow> string \<Rightarrow> js \<Rightarrow> page \<Rightarrow> page option" where
  "update_analyst_chart name field analysts p =
     map_option
       (\<lambda>vs. set_chart name (Each (map (member ''name'') vs), [Each (map (member field) vs)]) p)
       (elements analysts)"

definition update_confidence_chart :: "js \<Rightarrow> page \<Rightarrow> page option" where
  "update_confidence_chart = update_analyst_chart ''confidenceChart'' ''confidence''"

definition update_votes_chart :: "js \<Rightarrow> page \<Rightarrow> page option" where
  "update_votes_chart = update_analyst_chart ''votesChart'' ''votes''"

definition update_round_timeline :: "browser \<Rightarrow> js \<Rightarrow> js \<Rightarrow> page \<Rightarrow> page" where
  "update_round_timeline br rounds_total current p =
     p\<lparr>round_timeline :=
        (case js_number br rounds_total of
           None \<Rightarrow> []
         | Some r \<Rightarrow> map (\<lambda>i. (i, current = Some (J_num (of_nat i)))) [1..<nat \<lfloor>r\<rfloor> + 1])\<rparr>"

text \<open>Each function runs on the page the one before it left; the first exception ends the reply.\<close>

definition on_picture :: "browser \<Rightarrow> json \<Rightarrow> page \<Rightarrow> page" where
  "on_picture br data p =
     (if data = J_null then p
      else (let a = member ''analysts'' data
            in case display_analyst_cards br a p of
                 None \<Rightarrow> p
               | Some p1 \<Rightarrow>
                   (case update_confidence_chart a p1 of
                      None \<Rightarrow> p1
                    | Some p2 \<Rightarrow>
                        (case update_votes_chart a p2 of
                           None \<Rightarrow> p2
                         | Some p3 \<Rightarrow>
                             update_round_timeline br (member ''total_rounds'' data)
                               (member ''current_round'' data) p3))))"

section \<open>Statistics\<close>

definition fixed_text :: "browser \<Rightarrow> nat \<Rightarrow> js \<Rightarrow> string option" where
  "fixed_text br digits v = (case v of Some (J_num r) \<Rightarrow> Some (br_fixed br digits r) | _ \<Rightarrow> None)"

definition provider_panel_line :: "browser \<Rightarrow> json \<Rightarrow> (string \<times> string) option" where
  "provider_panel_line br v =
     map_option
       (\<lambda>latency. (js_text br (member ''provider'' v),
          ''Queries: '' @ js_text br (member ''queries_total'' v) @
          '' | Success: '' @ js_text br (member ''queries_success'' v) @
          '' | Latency: '' @ latency @ ''ms''))
       (fixed_text br 0 (member ''latency_avg_ms'' v))"

definition update_latency_chart :: "json list \<Rightarrow> page \<Rightarrow> page" where
  "update_latency_chart vs =
     set_chart ''latencyChart''
       (Each (map (member ''provider'') vs),
        [Each (map (member ''latency_avg_ms'') vs), Each (map (member ''latency_max_ms'') vs)])"

text \<open>The part of the reply that lists the providers.\<close>

definition show_providers :: "browser \<Rightarrow> js \<Rightarrow> page \<Rightarrow> page" where
  "show_providers br v p =
     (case v of
        Some (J_arr vs) \<Rightarrow>
          if vs = [] then p
          else (case those (map (provider_panel_line br) vs) of
                  None \<Rightarrow> p
                | Some ls \<Rightarrow>
                    update_latency_chart vs
                      (p\<lparr>page_stats := (page_stats p)\<lparr>provider_lines := ls\<rparr>\<rparr>))
      | _ \<Rightarrow> p)"

text \<open>The four numbers are set one after the other, until one of them is missing.\<close>

definition on_stats :: "browser \<Rightarrow> json \<Rightarrow> page \<Rightarrow> page" where
  "on_stats br data p =
     (if data = J_null then p
      else (let s1 = (page_stats p)\<lparr>total_debates := text_content br (member ''debates_total'' data)\<rparr>
            in case fixed_text br 1 (member ''success_rate'' data) of
                 None \<Rightarrow> p\<lparr>page_stats := s1\<rparr>
               | Some rate \<Rightarrow>
                   (let s2 = s1\<lparr>total_success := rate @ ''%''\<rparr>
                    in case fixed_text br 0 (member ''duration_avg_ms'' data) of
                         None \<Rightarrow> p\<lparr>page_stats := s2\<rparr>
                       | Some ms \<Rightarrow>
                           (let s3 = s2\<lparr>total_duration := ms @ ''ms''\<rparr>
                            in case member ''tokens_total'' data of
                                 None \<Rightarrow> p\<lparr>page_stats := s3\<rparr>
                               | Some n \<Rightarrow>
                                   if n = J_null then p\<lparr>page_stats := s3\<rparr>
                                   else show_providers br (member ''providers'' data)
                                     (p\<lparr>page_stats := s3\<lparr>total_tokens := br_locale br n\<rparr>\<rparr>)))))"

section \<open>Detailed metrics\<close>

text \<open>\<open>Object.keys\<close> of an object, each key once, in the order of its first occurrence.\<close>

definition key_list :: "json \<Rightarrow> string list option" where
  "key_list v =
     (case v of
        J_obj ms \<Rightarrow> Some (rev (remdups (rev (map fst ms))))
      | J_arr vs \<Rightarrow> Some (map show_nat [0..<length vs])
      | J_str s \<Rightarrow> Some (map show_nat [0..<length s])
      | J_null \<Rightarrow> None | _ \<Rightarrow> Some [])"

text \<open>A member that is read from: it must be there and not be \<open>null\<close>.\<close>

definition object_member :: "string \<Rightarrow> json \<Rightarrow> json option" where
  "object_member name v =
     (case member name v of None \<Rightarrow> None | Some w \<Rightarrow> if w = J_null then None else Some w)"

text \<open>\<open>data.providers[p].latencies[0]\<close>\<close>

definition first_latency :: "json \<Rightarrow> js option" where
  "first_latency v = map_option (member ''0'') (object_member ''latencies'' v)"

definition provider_chart :: "(json \<Rightarrow> js option) \<Rightarrow> json \<Rightarrow> chart option" where
  "provider_chart value_of data =
     Option.bind (object_member ''providers'' data) (\<lambda>providers.
     Option.bind (key_list providers) (\<lambda>keys.
     map_option (\<lambda>vs. (Each (map (Some \<circ> J_str) keys), [Each vs]))
       (those (map (\<lambda>k. Option.bind (object_member k providers) value_of) keys))))"

definition latency_trends :: "json \<Rightarrow> chart option" where
  "latency_trends = provider_chart first_latency"

definition success_rates :: "json \<Rightarrow> chart option" where
  "success_rates = provider_chart (\<lambda>v. Some (member ''success_rate'' v))"

definition token_histogram :: "json \<Rightarrow> chart option" where
  "token_histogram data =
     (if data = J_null then None
      else Some (Whole (member ''labels'' data), [Whole (member ''bins'' data)]))"

definition array_member :: "string \<Rightarrow> json \<Rightarrow> json list option" where
  "array_member name v = (case member name v of Some (J_arr vs) \<Rightarrow> Some vs | _ \<Rightarrow> None)"

definition model_performance :: "json \<Rightarrow> chart option" where
  "model_performance data =
     Option.bind (array_member ''models'' data) (\<lambda>vs.
       if J_null \<in> set vs then None
       else Some (Each (map (member ''name'') vs), [Each (map (member ''avg_latency'') vs)]))"

definition time_series :: "browser \<Rightarrow> json \<Rightarrow> chart option" where
  "time_series br data =
     map_option (\<lambda>vs. (Each (map (\<lambda>v. Some (J_str (br_time br v))) vs), [Whole (member ''latencies'' data)]))
       (array_member ''timestamps'' data)"

definition show_chart :: "string \<Rightarrow> chart option \<Rightarrow> page \<Rightarrow> page" where
  "show_chart name c p = (case c of None \<Rightarrow> p | Some c' \<Rightarrow> set_chart name c' p)"

text \<open>\<open>Promise.all\<close> over the replies for the three providers: one that cannot be read ends it.\<close>

definition on_percentiles :: "string list \<Rightarrow> page \<Rightarrow> page" where
  "on_percentiles bodies p =
     (case those (map json_parse bodies) of
        None \<Rightarrow> p
      | Some vs \<Rightarrow>
          if J_null \<in> set vs then p
          else set_chart ''percentilesChart''
            (Each (map (Some \<circ> J_str) [''P50'', ''P95'', ''P99'']),
             map (\<lambda>v. Each [member ''p50'' v, member ''p95'' v, member ''p99'' v]) vs) p)"

section \<open>Which reply goes where\<close>

definition on_reply :: "browser \<Rightarrow> fetch \<Rightarrow> json \<Rightarrow> page \<Rightarrow> page \<times> fetch list" where
  "on_reply br f v p =
     (case f of
        Submit q \<Rightarrow> (on_submitted v p, [])
      | Poll n j \<Rightarrow> on_poll br n v p
      | Select j \<Rightarrow> (on_select br v p, [])
      | Tasks \<Rightarrow> (on_tasks br v p, [])
      | History \<Rightarrow> (on_history br v p, [])
      | Progress_tick j \<Rightarrow> (on_progress_tick br (Some v) p, [])
      | Progress_first j \<Rightarrow> (if v = J_null then p else update_debate_display br v p, [])
      | Picture j \<Rightarrow> (on_picture br v p, [])
      | Stats \<Rightarrow> (on_stats br v p, [])
      | Trends \<Rightarrow> (show_chart ''latencyTrendsChart'' (latency_trends v) p, [])
      | Success_rates \<Rightarrow> (show_chart ''successRateChart'' (success_rates v) p, [])
      | Tokens \<Rightarrow> (show_chart ''tokenHistogramChart'' (token_histogram v) p, [])
      | Models \<Rightarrow> (show_chart ''modelPerformanceChart'' (model_performance v) p, [])
      | Timeseries \<Rightarrow> (show_chart ''timeseriesChart'' (time_series br v) p, [])
      | Percentiles q \<Rightarrow> (p, []))"

text \<open>\<open>fetch(...).then(r => r.json()).then(...)\<close> with the body of the reply. The replies to
  \<open>Percentiles\<close> go to \<open>on_percentiles\<close> together.\<close>

definition on_body :: "browser \<Rightarrow> fetch \<Rightarrow> string \<Rightarrow> page \<Rightarrow> page \<times> fetch list" where
  "on_body br f body p =
     (case json_parse body of
        Some v \<Rightarrow> on_reply br f v p
      | None \<Rightarrow> (case f of Progress_tick j \<Rightarrow> on_progress_tick br None p | _ \<Rightarrow> p, []))"

section \<open>Everything that can happen to the page\<close>

datatype page_event =
  Type_query string | Click_submit | Click_job js | Click_tab string | Click_range nat |
  Click_rerun string | Type_search string | Click_sort string | Fire nat |
  Receive fetch string | Receive_percentiles "string list"

fun page_step :: "browser \<Rightarrow> page_event \<Rightarrow> page \<Rightarrow> page \<times> fetch list" where
  "page_step br (Type_query q) p = (p\<lparr>query_input := q\<rparr>, [])"
| "page_step br Click_submit p = submit_query p"
| "page_step br (Click_job j) p = select_job j p"
| "page_step br (Click_tab tab) p = switch_tab tab p"
| "page_step br (Click_range hours) p = switch_metrics_range hours p"
| "page_step br (Click_rerun q) p = rerun_debate q p"
| "page_step br (Type_search t) p = (search_history br t p, [])"
| "page_step br (Click_sort field) p = (sort_history_by br field p, [])"
| "page_step br (Fire n) p = tick n p"
| "page_step br (Receive f body) p = on_body br f body p"
| "page_step br (Receive_percentiles bodies) p = (on_percentiles bodies p, [])"

definition page_after :: "browser \<Rightarrow> page_event list \<Rightarrow> page" where
  "page_after br evs = fold (\<lambda>e p. fst (page_step br e p)) evs (fst load_page)"

section \<open>The timers\<close>

text \<open>Timer numbers are used once, and at most one timer asks for the progress of a debate: the one
  the page remembers.\<close>

definition timers_ok :: "page \<Rightarrow> bool" where
  "timers_ok p \<longleftrightarrow> distinct (map fst (timers p)) \<and> (\<forall>t\<in>set (timers p). fst t < next_timer p) \<and>
     (\<forall>n j. (n, Progress_timer j) \<in> set (timers p) \<longrightarrow> debate_polling p = Some n)"

lemma timers_ok_cong:
  "timers_ok p \<Longrightarrow> timers q = timers p \<Longrightarrow> next_timer q = next_timer p \<Longrightarrow>
   debate_polling q = debate_polling p \<Longrightarrow> timers_ok q"
  by (simp add: timers_ok_def)

lemma timers_ok_clear: "timers_ok p \<Longrightarrow> timers_ok (clear_interval n p)"
  by (auto simp: timers_ok_def clear_interval_def distinct_map inj_on_def)

lemma timers_ok_set:
  "timers_ok p \<Longrightarrow> (\<And>j. t \<noteq> Progress_timer j) \<Longrightarrow> timers_ok (set_interval t p)"
  by (fastforce simp: timers_ok_def set_interval_def)

lemma timers_ok_stop:
  "timers_ok p \<Longrightarrow> timers_ok (stop_debate_polling p) \<and> debate_polling (stop_debate_polling p) = None"
  by (auto simp: timers_ok_def stop_debate_polling_def clear_interval_def distinct_map inj_on_def
      split: option.split)

lemma timers_ok_start:
  "timers_ok p \<Longrightarrow> debate_polling p = None \<Longrightarrow> timers_ok (fst (start_debate_polling j p))"
  by (fastforce simp: timers_ok_def start_debate_polling_def set_interval_def)

lemma timers_ok_same [simp]:
  "timers_ok (p\<lparr>active_tab := a\<rparr>) = timers_ok p" "timers_ok (p\<lparr>query_input := q\<rparr>) = timers_ok p"
  "timers_ok (p\<lparr>selected_job := j\<rparr>) = timers_ok p" "timers_ok (p\<lparr>current_picture := j\<rparr>) = timers_ok p"
  "timers_ok (p\<lparr>out_text := q\<rparr>) = timers_ok p" "timers_ok (p\<lparr>job_cards := cs\<rparr>) = timers_ok p"
  "timers_ok (p\<lparr>metrics_hours := hours\<rparr>) = timers_ok p" "timers_ok (p\<lparr>all_history := v\<rparr>) = timers_ok p"
  "timers_ok (p\<lparr>filtered_history := vs\<rparr>) = timers_ok p" "timers_ok (p\<lparr>history_rows := rows\<rparr>) = timers_ok p"
  "timers_ok (p\<lparr>page_stats := st\<rparr>) = timers_ok p" "timers_ok (p\<lparr>charts := cm\<rparr>) = timers_ok p"
  "timers_ok (p\<lparr>analyst_cards := ac\<rparr>) = timers_ok p" "timers_ok (p\<lparr>round_timeline := rt\<rparr>) = timers_ok p"
  "timers_ok (p\<lparr>round_counter := a\<rparr>) = timers_ok p" "timers_ok (p\<lparr>analyst_counter := a\<rparr>) = timers_ok p"
  "timers_ok (p\<lparr>progress_percent := a\<rparr>) = timers_ok p" "timers_ok (p\<lparr>argument_display := a\<rparr>) = timers_ok p"
  by (simp_all add: timers_ok_def)

lemma timers_ok_display: "timers_ok p \<Longrightarrow> timers_ok (display_history br p)"
  by (simp add: display_history_def split: option.split)

lemma timers_ok_chart: "timers_ok p \<Longrightarrow> timers_ok (show_chart name c p)"
  by (simp add: show_chart_def set_chart_def split: option.split)

lemma timers_ok_if: "timers_ok (fst a) \<Longrightarrow> timers_ok (fst b) \<Longrightarrow> timers_ok (fst (if P then a else b))"
  by simp

lemma timers_ok_case:
  "timers_ok p \<Longrightarrow> (\<And>q. x = Some q \<Longrightarrow> timers_ok (f q)) \<Longrightarrow>
   timers_ok (case x of None \<Rightarrow> p | Some q \<Rightarrow> f q)"
  by (cases x) simp_all

lemma timers_ok_switch: "timers_ok p \<Longrightarrow> timers_ok (fst (switch_tab tab p))"
proof -
  assume "timers_ok p"
  define q where "q = (stop_debate_polling p)\<lparr>active_tab := tab\<rparr>"
  have q: "timers_ok q" "debate_polling q = None"
    using timers_ok_stop [OF \<open>timers_ok p\<close>] by (simp_all add: q_def)
  have "timers_ok (fst (start_picture_polling j q))" "timers_ok (fst (refresh_advanced_metrics q))" for j
    using q(1) by (simp_all add: start_picture_polling_def timers_ok_set refresh_advanced_metrics_def)
  then show ?thesis
    unfolding switch_tab_def Let_def q_def [symmetric]
    using q(1) timers_ok_start [OF q] by (intro timers_ok_if) simp_all
qed

lemma timers_ok_debate_display: "timers_ok p \<Longrightarrow> timers_ok (update_debate_display br v p)"
  by (auto simp: update_debate_display_def Let_def timers_ok_stop)

lemma timers_ok_pictures:
  "timers_ok p \<Longrightarrow> display_analyst_cards br v p = Some q \<Longrightarrow> timers_ok q"
  "timers_ok p \<Longrightarrow> update_analyst_chart name field v p = Some q \<Longrightarrow> timers_ok q"
  by (auto simp: display_analyst_cards_def update_analyst_chart_def set_chart_def split: if_splits)

lemma timers_ok_timeline: "timers_ok (update_round_timeline br v c p) = timers_ok p"
  by (simp add: update_round_timeline_def)

lemma timers_ok_picture: "timers_ok p \<Longrightarrow> timers_ok (on_picture br v p)"
  unfolding on_picture_def Let_def update_confidence_chart_def update_votes_chart_def
  by (cases "v = J_null")
    (simp, simp only: if_False, rule timers_ok_case, assumption, drule (1) timers_ok_pictures(1),
      rule timers_ok_case, assumption, drule (1) timers_ok_pictures(2), rule timers_ok_case, assumption,
      drule (1) timers_ok_pictures(2), simp only: timers_ok_timeline)

lemma timers_ok_stats: "timers_ok p \<Longrightarrow> timers_ok (on_stats br v p)"
  by (auto simp: on_stats_def Let_def show_providers_def update_latency_chart_def set_chart_def
      split: option.split json.split)

lemma timers_ok_history: "timers_ok p \<Longrightarrow> timers_ok (on_history br v p)"
  by (auto simp: on_history_def Let_def timers_ok_display split: option.split)

lemma timers_ok_reply: "timers_ok p \<Longrightarrow> timers_ok (fst (on_reply br f v p))"
  by (cases f)
    (auto simp: on_reply_def on_submitted_def poll_job_def on_poll_def on_select_def on_tasks_def Let_def
      on_progress_tick_def timers_ok_clear timers_ok_stop timers_ok_history timers_ok_debate_display
      timers_ok_picture timers_ok_stats timers_ok_chart split: option.split json.split
      intro!: timers_ok_set)

lemma timers_ok_body: "timers_ok p \<Longrightarrow> timers_ok (fst (on_body br f body p))"
  by (auto simp: on_body_def timers_ok_reply on_progress_tick_def timers_ok_stop split: option.split fetch.split)

lemma timers_ok_search: "timers_ok p \<Longrightarrow> timers_ok (search_history br t p)"
  by (auto simp: search_history_def timers_ok_display split: option.split json.split)

lemma timers_ok_step: "timers_ok p \<Longrightarrow> timers_ok (fst (page_step br e p))"
proof (cases e)
  case (Click_rerun q)
  assume "timers_ok p"
  then show ?thesis
    using timers_ok_switch [of "p\<lparr>query_input := q\<rparr>" "''query''"] Click_rerun
    by (cases "switch_tab ''query'' (p\<lparr>query_input := q\<rparr>)") (simp add: rerun_debate_def submit_query_def)
qed (auto simp: submit_query_def select_job_def timers_ok_switch switch_metrics_range_def
    refresh_advanced_metrics_def timers_ok_search sort_history_by_def timers_ok_display tick_def
    timers_ok_clear timers_ok_body on_percentiles_def set_chart_def split: option.split timer.split)

lemma timers_ok_after: "timers_ok (page_after br evs)"
proof -
  have "timers_ok p \<Longrightarrow> timers_ok (fold (\<lambda>e p. fst (page_step br e p)) evs p)" for p
    by (induction evs arbitrary: p) (simp_all add: timers_ok_step)
  moreover have "timers_ok new_page" by (auto simp: timers_ok_def new_page_def)
  ultimately show ?thesis by (simp add: page_after_def load_page_def)
qed

end
