(* ===== verification/Dashboard_Texts.thy ===== *)
theory Dashboard_Texts
  imports Dashboard_Replies Http_Server
begin

text \<open>
  What \<open>JSON.parse\<close> makes of the texts the handlers of the job table send: the objects they are
  meant to be when the texts of the job come from \<open>JSON.stringify\<close>, and nothing when an output
  has more than one line or a query was cut at a quote.
\<close>

section \<open>Reading fixed text\<close>

lemmas lex_Between = tokens_of.simps(2)

declare lex_Between [simp del]

lemma lex_blank: "tokens_of Between (CHR '' '' # r) = tokens_of Between r" "tokens_of Between (newline # r) = tokens_of Between r"
  by (simp_all add: lex_Between json_space_def newline_def)

lemma lex_quote: "tokens_of Between (quote # r) = tokens_of (In_string []) r"
  by (simp add: lex_Between json_space_def)

lemma lex_punctuation:
  "tokens_of Between (CHR ''{'' # r) = map_option (\<lambda>ts. Open_obj # ts) (tokens_of Between r)"
  "tokens_of Between (CHR ''}'' # r) = map_option (\<lambda>ts. Close_obj # ts) (tokens_of Between r)"
  "tokens_of Between (CHR ''['' # r) = map_option (\<lambda>ts. Open_arr # ts) (tokens_of Between r)"
  "tokens_of Between (CHR '']'' # r) = map_option (\<lambda>ts. Close_arr # ts) (tokens_of Between r)"
  "tokens_of Between (CHR '','' # r) = map_option (\<lambda>ts. Comma_tok # ts) (tokens_of Between r)"
  "tokens_of Between (CHR '':'' # r) = map_option (\<lambda>ts. Colon_tok # ts) (tokens_of Between r)"
  by (simp_all add: lex_Between json_space_def punctuation_def)

lemma not_word_char:
  "\<not> word_char (CHR '','')" "\<not> word_char (CHR ''}'')" "\<not> word_char newline" "\<not> word_char quote"
  by (simp_all add: word_char_def punctuation_def json_space_def newline_def)

lemmas lex_fixed = lex_blank lex_quote lex_punctuation

lemmas lex_ints = lex_show_int [OF not_word_char(1)] lex_show_int [OF not_word_char(2)]
  lex_show_int [OF not_word_char(3)]

text \<open>A text that is not escaped, then the name of the next member: either the text is complete at its
  closing quote, or the whole is not JSON.\<close>

lemma lex_bad_word:
  assumes "\<forall>c\<in>set w. word_char c" and "w \<noteq> []" and "word_value w = None"
  shows "tokens_of Between (w @ quote # r) = None"
  using lex_start_word [OF assms(1,2) not_word_char(4)] assms(3) by simp

lemma lex_raw_member:
  assumes "quote \<notin> set t" and "\<forall>c\<in>set w. word_char c" and "w \<noteq> []" and "word_value w = None"
  shows "(\<forall>r. tokens_of (In_string []) (t @ quote # CHR '','' # quote # w @ quote # r) = None) \<or>
    (\<exists>v. \<forall>r. tokens_of (In_string []) (t @ quote # CHR '','' # quote # w @ quote # r) =
       map_option (\<lambda>ts. Val (J_str v) # Comma_tok # ts) (tokens_of (In_string []) (w @ quote # r)))"
proof -
  have "in_text (In_string [])" by simp
  from lex_raw_text [OF assms(1) this] show ?thesis
  proof (elim disjE exE conjE)
    fix m assume m: "in_text m" "\<forall>r. tokens_of (In_string []) (t @ r) = tokens_of m r"
    show ?thesis
    proof (cases m)
      case (In_string a)
      with m(2) show ?thesis
        by (intro disjI2 exI [of _ "rev a"]) (simp add: lex_fixed option.map_comp comp_def)
    next
      case (Escape a)
      then show ?thesis
        using m(2) lex_bad_word [OF assms(2-4)] by (simp add: simple_escape_def)
    qed (use m in \<open>simp_all add: digit_value_def Let_def\<close>)
  qed simp_all
qed

lemma name_words:
  "\<forall>c\<in>set ''output''. word_char c" "word_value ''output'' = None"
  "\<forall>c\<in>set ''duration''. word_char c" "word_value ''duration'' = None"
  by (simp_all add: word_char_def json_space_def punctuation_def word_value_def number_text_def
      json_digit_def digit_value_def Let_def)

text \<open>A line break inside a text.\<close>

lemma lex_newline_in_text: "in_text m \<Longrightarrow> tokens_of m (newline # r) = None"
  by (cases m) (simp_all add: newline_def simple_escape_def digit_value_def Let_def)

lemma lex_broken_text:
  assumes "quote \<notin> set a" and "in_text m"
  shows "tokens_of m (a @ newline # r) = None"
  using lex_raw_text [OF assms] lex_newline_in_text by auto

section \<open>The reply to a poll\<close>

definition job_text :: "int \<Rightarrow> int \<Rightarrow> string \<Rightarrow> string \<Rightarrow> int \<Rightarrow> string" where \<open>
  job_text i st q out d =
     ''{"id":'' @ show_int i @ '',"status":'' @ show_int st @ '',"query":"'' @ q @
     ''","output":"'' @ out @ ''","duration":'' @ show_int d @ ''}''\<close>

lemma status_text:
  "job_id (find_job i s) \<noteq> - 1 \<Longrightarrow>
   reply_body (handle_query_status i s) =
     (let j = find_job i s
      in job_text (job_id j) (job_status j) (job_query j) (job_output j) (job_duration_ms j))"
  by (simp add: handle_query_status_def job_text_def json_reply_def Let_def)

definition job_object :: "int \<Rightarrow> int \<Rightarrow> string \<Rightarrow> string \<Rightarrow> int \<Rightarrow> json" where
  "job_object i st q out d =
     J_obj [(''id'', J_num (of_int i)), (''status'', J_num (of_int st)), (''query'', J_str q),
       (''output'', J_str out), (''duration'', J_num (of_int d))]"

lemma lex_end: "tokens_of Between (show_int d @ ''}'') = Some [Val (J_num (of_int d)), Close_obj]"
  using lex_ints(2) [of d "[]"] by (simp add: lex_fixed)

lemma parse_job_text: "json_parse (job_text i st (js_escape q) (js_escape out) d) = Some (job_object i st q out d)"
  unfolding json_parse_def job_text_def
  by (simp add: lex_fixed lex_ints lex_js_escape lex_end start_value_def member_name_def after_value_def job_object_def)

text \<open>The text up to the output of the job, whatever its query is.\<close>

lemma lex_query_then:
  assumes "quote \<notin> set q" and "\<forall>c\<in>set w. word_char c" and "w \<noteq> []" and "word_value w = None"
  shows "(\<forall>r. tokens_of (In_string []) (q @ quote # CHR '','' # quote # w @ quote # r) = None) \<or>
    (\<exists>ts. \<forall>r. tokens_of (In_string []) (q @ quote # CHR '','' # quote # w @ quote # r) =
       map_option (\<lambda>us. ts @ us) (tokens_of (In_string []) (w @ quote # r)))"
  using lex_raw_member [OF assms]
proof
  assume "\<exists>v. \<forall>r. tokens_of (In_string []) (q @ quote # CHR '','' # quote # w @ quote # r) =
       map_option (\<lambda>ts. Val (J_str v) # Comma_tok # ts) (tokens_of (In_string []) (w @ quote # r))"
  then obtain v where "\<forall>r. tokens_of (In_string []) (q @ quote # CHR '','' # quote # w @ quote # r) =
       map_option (\<lambda>ts. Val (J_str v) # Comma_tok # ts) (tokens_of (In_string []) (w @ quote # r))" ..
  then show ?thesis by (intro disjI2 exI [of _ "[Val (J_str v), Comma_tok]"]) simp
qed simp

text \<open>A query that the server has cut at an escaped quote.\<close>

lemma lex_cut_query:
  assumes "\<forall>c\<in>set w. word_char c" and "w \<noteq> []" and "word_value w = None"
  shows "tokens_of (In_string []) (js_escape a @ CHR 0x5C # quote # CHR '','' # quote # w @ quote # r) = None"
  using lex_bad_word [OF assms] by (simp add: lex_js_escape simple_escape_def)

lemma parse_cut_query: "json_parse (job_text i st (js_escape a @ [CHR 0x5C]) out d) = None"
  using lex_cut_query [OF name_words(1) _ name_words(2), of a]
  by (simp add: json_parse_def job_text_def lex_fixed lex_ints)

lemma parse_broken_output:
  assumes "quote \<notin> set q" and "quote \<notin> set a"
  shows "json_parse (job_text i st q (a @ newline # b) d) = None"
proof -
  have \<open>tokens_of (In_string []) (a @ newline # b @ ''","duration":'' @ show_int d @ ''}'') = None\<close>
    by (rule lex_broken_text [OF assms(2)]) simp
  then show ?thesis
    using lex_query_then [OF assms(1) name_words(1) _ name_words(2)]
    by (auto simp: json_parse_def job_text_def lex_fixed lex_ints)
qed

section \<open>The list of tasks\<close>

definition plain_job :: "execution_job \<Rightarrow> bool" where
  "plain_job j \<longleftrightarrow> quote \<notin> set (job_query j) \<and> quote \<notin> set (job_output j)"

lemma status_word: "\<forall>c\<in>set ''status''. word_char c" "word_value ''status'' = None"
  by (simp_all add: word_char_def json_space_def punctuation_def word_value_def number_text_def
      json_digit_def digit_value_def Let_def)

definition lexes :: "string \<Rightarrow> bool" where
  "lexes t \<longleftrightarrow> (\<forall>r. tokens_of Between (t @ r) = None) \<or>
     (\<exists>ts. \<forall>r. tokens_of Between (t @ r) = map_option (\<lambda>us. ts @ us) (tokens_of Between r))"

text \<open>A text of an entry followed by the name of the next member, and what follows that name.\<close>

definition text_then :: "string \<Rightarrow> string \<Rightarrow> string \<Rightarrow> json_token list option" where
  "text_then t w r = tokens_of (In_string []) (t @ quote # CHR '','' # quote # w @ quote # r)"

definition name_then :: "string \<Rightarrow> string \<Rightarrow> json_token list option" where
  "name_then w r = tokens_of (In_string []) (w @ quote # r)"

definition duration_rest :: "int \<Rightarrow> string \<Rightarrow> string" where
  "duration_rest d r = '':'' @ show_int d @ ''}'' @ r"

definition status_rest :: "execution_job \<Rightarrow> string \<Rightarrow> string" where \<open>
  status_rest j r = '':'' @ show_int (job_status j) @ '',"output":"'' @ job_output j @
     ''","duration"'' @ duration_rest (job_duration_ms j) r\<close>

lemma text_then_cases:
  assumes "quote \<notin> set t" and "w \<in> {''status'', ''duration''}"
    and "\<not> (\<forall>r. text_then t w r = None)"
  shows "\<exists>ts. \<forall>r. text_then t w r = map_option (\<lambda>us. ts @ us) (name_then w r)"
proof -
  have "(\<forall>r. text_then t w r = None) \<or>
      (\<exists>ts. \<forall>r. text_then t w r = map_option (\<lambda>us. ts @ us) (name_then w r))"
    unfolding text_then_def name_then_def
    by (rule lex_query_then) (use assms(1,2) status_word name_words in auto)
  with assms(3) show ?thesis by blast
qed

lemma text_then_broken: "quote \<notin> set a \<Longrightarrow> text_then (a @ newline # b) w r = None"
  using lex_broken_text [of a "In_string []"] by (simp add: text_then_def)

lemma lex_entry:
  "\<exists>ts. \<forall>r. tokens_of Between (task_entry (i, j) @ r) =
     map_option (\<lambda>us. ts @ us) (text_then (job_query j) ''status'' (status_rest j r))"
  by (rule exI [of _ "[Open_obj, Val (J_str ''id''), Colon_tok, Val (J_num (of_int i)), Comma_tok,
      Val (J_str ''query''), Colon_tok]"])
    (simp add: task_entry_def text_then_def status_rest_def duration_rest_def lex_fixed lex_ints
      option.map_comp comp_def)

lemma lex_status_name:
  "\<exists>ts. \<forall>r. name_then ''status'' (status_rest j r) =
     map_option (\<lambda>us. ts @ us)
       (text_then (job_output j) ''duration'' (duration_rest (job_duration_ms j) r))"
  by (rule exI [of _ "[Val (J_str ''status''), Colon_tok, Val (J_num (of_int (job_status j))), Comma_tok,
      Val (J_str ''output''), Colon_tok]"])
    (simp add: name_then_def text_then_def status_rest_def lex_fixed lex_ints option.map_comp comp_def)

lemma lex_duration_name:
  "\<exists>ts. \<forall>r. name_then ''duration'' (duration_rest d r) = map_option (\<lambda>us. ts @ us) (tokens_of Between r)"
  by (rule exI [of _ "[Val (J_str ''duration''), Colon_tok, Val (J_num (of_int d)), Close_obj]"])
    (simp add: name_then_def duration_rest_def lex_fixed lex_ints option.map_comp comp_def)

lemma append_section: "(@) (xs @ ys) = (\<lambda>zs. xs @ ys @ zs)"
  by (simp add: fun_eq_iff)

lemma lexes_entry:
  assumes "plain_job j"
  shows "lexes (task_entry (i, j))"
proof -
  note plain = assms [unfolded plain_job_def]
  obtain a where a: "\<forall>r. tokens_of Between (task_entry (i, j) @ r) =
      map_option (\<lambda>us. a @ us) (text_then (job_query j) ''status'' (status_rest j r))"
    using lex_entry by blast
  obtain b where b: "\<forall>r. name_then ''status'' (status_rest j r) = map_option (\<lambda>us. b @ us)
      (text_then (job_output j) ''duration'' (duration_rest (job_duration_ms j) r))"
    using lex_status_name by blast
  obtain c where c: "\<forall>r. name_then ''duration'' (duration_rest (job_duration_ms j) r) =
      map_option (\<lambda>us. c @ us) (tokens_of Between r)"
    using lex_duration_name by blast
  have w: "''status'' \<in> {''status'', ''duration''}" "''duration'' \<in> {''status'', ''duration''}"
    by simp_all
  show ?thesis
  proof (cases "(\<forall>r. text_then (job_query j) ''status'' r = None) \<or>
      (\<forall>r. text_then (job_output j) ''duration'' r = None)")
    case True
    then show ?thesis
    proof
      assume "\<forall>r. text_then (job_query j) ''status'' r = None"
      then show ?thesis using a by (simp add: lexes_def)
    next
      assume out: "\<forall>r. text_then (job_output j) ''duration'' r = None"
      then have "\<forall>r. text_then (job_query j) ''status'' (status_rest j r) = None"
        using b text_then_cases [OF conjunct1 [OF plain] w(1)] by fastforce
      then show ?thesis using a by (simp add: lexes_def)
    qed
  next
    case False
    then obtain x y where
      x: "\<forall>r. text_then (job_query j) ''status'' r = map_option (\<lambda>us. x @ us) (name_then ''status'' r)" and
      y: "\<forall>r. text_then (job_output j) ''duration'' r = map_option (\<lambda>us. y @ us) (name_then ''duration'' r)"
      using text_then_cases [OF conjunct1 [OF plain] w(1)] text_then_cases [OF conjunct2 [OF plain] w(2)]
      by blast
    then show ?thesis
      using a b c unfolding lexes_def
      by (intro disjI2 exI [of _ "a @ x @ b @ y @ c"])
        (simp add: option.map_comp comp_def append_section)
  qed
qed

lemma lex_broken_entry:
  assumes "quote \<notin> set (job_query j)" and "job_output j = a @ newline # b" and "quote \<notin> set a"
  shows "tokens_of Between (task_entry (i, j) @ r) = None"
proof -
  have w: "''status'' \<in> {''status'', ''duration''}" by simp
  have out: "text_then (job_output j) ''duration'' r' = None" for r'
    using text_then_broken [OF assms(3)] assms(2) by simp
  have "name_then ''status'' (status_rest j r') = None" for r'
    using lex_status_name [of j] out by auto
  moreover obtain t where "\<forall>r. tokens_of Between (task_entry (i, j) @ r) =
      map_option (\<lambda>us. t @ us) (text_then (job_query j) ''status'' (status_rest j r))"
    using lex_entry by blast
  moreover have "(\<forall>r. text_then (job_query j) ''status'' r = None) \<or>
      (\<exists>ts. \<forall>r. text_then (job_query j) ''status'' r = map_option (\<lambda>us. ts @ us) (name_then ''status'' r))"
    using text_then_cases [OF assms(1) w] by blast
  ultimately show ?thesis by auto
qed

lemma lex_entries:
  assumes "\<forall>e\<in>set es. plain_job (snd e)" and "e \<in> set es"
    and "\<And>r. tokens_of Between (task_entry e @ r) = None"
  shows "tokens_of Between (join '','' (map task_entry es) @ r) = None"
  using assms(1,2)
proof (induction es)
  case (Cons x es)
  have lx: "lexes (task_entry x)" using Cons.prems(1) lexes_entry [of "snd x" "fst x"] by simp
  show ?case
  proof (cases "e = x")
    case True
    then show ?thesis using assms(3) by (cases es) simp_all
  next
    case False
    then have "e \<in> set es" using Cons.prems(2) by simp
    with Cons have none: "tokens_of Between (join '','' (map task_entry es) @ r) = None" by simp
    obtain y ys where "es = y # ys" using \<open>e \<in> set es\<close> by (cases es) auto
    with lx none show ?thesis by (auto simp: lexes_def lex_fixed)
  qed
qed simp

lemma parse_broken_tasks:
  assumes "\<forall>e\<in>set (jobs s). plain_job (snd e)" and "(i, j) \<in> set (jobs s)"
    and "job_output j = a @ newline # b"
  shows "json_parse (reply_body (handle_tasks s)) = None"
proof -
  have "quote \<notin> set (job_query j)" "quote \<notin> set a"
    using assms by (auto simp: plain_job_def)
  then have "\<And>r. tokens_of Between (task_entry (i, j) @ r) = None"
    using lex_broken_entry [OF _ assms(3)] by blast
  from lex_entries [OF assms(1,2) this]
  show ?thesis by (simp add: json_parse_def handle_tasks_def json_reply_def lex_fixed)
qed

section \<open>The history\<close>

lemma lex_show_bool:
  "tokens_of Between (show_bool b @ newline # r) =
     map_option (\<lambda>ts. Val (J_bool b) # ts) (tokens_of Between r)"
proof -
  have "\<forall>c\<in>set (show_bool b). word_char c" "show_bool b \<noteq> []" "word_value (show_bool b) = Some (J_bool b)"
    by (simp_all add: show_bool_def word_char_def json_space_def punctuation_def word_value_def)
  from lex_start_word [OF this(1,2) not_word_char(3)] this(3) show ?thesis by (simp add: lex_blank)
qed

text \<open>The object an entry is read as, for the query and the provider its escaped texts stand for.\<close>

definition history_object :: "execution_job \<Rightarrow> string \<Rightarrow> string \<Rightarrow> json" where
  "history_object j q pr =
     J_obj [(''job_id'', J_num (of_int (job_id j))), (''query'', J_str q), (''provider'', J_str pr),
       (''status'', J_num (of_int (job_status j))), (''duration_ms'', J_num (of_int (job_duration_ms j))),
       (''success'', J_bool (job_success j))]"

definition history_tokens :: "execution_job \<Rightarrow> string \<Rightarrow> string \<Rightarrow> json_token list" where
  "history_tokens j q pr =
     [Open_obj, Val (J_str ''job_id''), Colon_tok, Val (J_num (of_int (job_id j))), Comma_tok,
      Val (J_str ''query''), Colon_tok, Val (J_str q), Comma_tok,
      Val (J_str ''provider''), Colon_tok, Val (J_str pr), Comma_tok,
      Val (J_str ''status''), Colon_tok, Val (J_num (of_int (job_status j))), Comma_tok,
      Val (J_str ''duration_ms''), Colon_tok, Val (J_num (of_int (job_duration_ms j))), Comma_tok,
      Val (J_str ''success''), Colon_tok, Val (J_bool (job_success j)), Close_obj]"

lemma lex_history_entry:
  "job_query j = js_escape q \<Longrightarrow> job_provider j = js_escape pr \<Longrightarrow>
   tokens_of Between (history_entry j @ r) =
     map_option (\<lambda>us. history_tokens j q pr @ us) (tokens_of Between r)"
  by (simp add: history_entry_def history_fields_def json_field_def line_def quoted_def Let_def
      lex_fixed lex_ints lex_js_escape lex_show_bool history_tokens_def option.map_comp comp_def)

fun entry_tokens :: "(execution_job \<Rightarrow> string) \<Rightarrow> string \<Rightarrow> execution_job list \<Rightarrow> json_token list" where
  "entry_tokens q pr [] = []"
| "entry_tokens q pr [h] = history_tokens h (q h) pr"
| "entry_tokens q pr (h # h' # hs) =
     history_tokens h (q h) pr @ Comma_tok # entry_tokens q pr (h' # hs)"

lemma append_nothing: "map_option ((@) []) x = x"
  by (cases x) simp_all

lemma lex_history_entries:
  "\<forall>h\<in>set hs. job_query h = js_escape (q h) \<and> job_provider h = js_escape pr \<Longrightarrow>
   tokens_of Between (join (line '','') (map history_entry hs) @ r) =
     map_option (\<lambda>us. entry_tokens q pr hs @ us) (tokens_of Between r)"
proof (induction q pr hs rule: entry_tokens.induct)
  case (3 q pr h h' hs)
  then show ?case
    by (simp add: lex_history_entry line_def lex_fixed option.map_comp comp_def)
qed (simp_all add: lex_history_entry append_nothing)

lemma parse_history_tokens:
  "parse_tokens (history_tokens h q pr @ ts) (Value, st) =
     parse_tokens ts (After (history_object h q pr), st)"
  "parse_tokens (history_tokens h q pr @ ts) (First_element, st) =
     parse_tokens ts (After (history_object h q pr), st)"
  by (simp_all add: history_tokens_def history_object_def start_value_def member_name_def after_value_def)

lemma parse_entry_tokens:
  "hs \<noteq> [] \<Longrightarrow> parse_tokens (entry_tokens q pr hs @ Close_arr # ts) (Value, Arr vs # st) =
     parse_tokens ts (After (J_arr (rev vs @ map (\<lambda>h. history_object h (q h) pr) hs)), st)"
proof (induction q pr hs arbitrary: vs rule: entry_tokens.induct)
  case (3 q pr h h' hs)
  then show ?case
    by (simp add: parse_history_tokens after_value_def)
qed (simp_all add: parse_history_tokens after_value_def)

lemma parse_entries:
  "parse_tokens (entry_tokens q pr hs @ Close_arr # ts) (First_element, Arr [] # st) =
     parse_tokens ts (After (J_arr (map (\<lambda>h. history_object h (q h) pr) hs)), st)"
proof (cases "hs = []")
  case False
  then obtain h hs' where "hs = h # hs'" by (cases hs) auto
  then have "parse_tokens (entry_tokens q pr hs @ Close_arr # ts) (First_element, Arr [] # st) =
      parse_tokens (entry_tokens q pr hs @ Close_arr # ts) (Value, Arr [] # st)"
    by (cases hs') (simp_all add: parse_history_tokens)
  with parse_entry_tokens [OF False, of q pr ts "[]" st] show ?thesis by simp
qed simp

lemma parse_history:
  assumes "\<forall>h\<in>set (query_history s). job_query h = js_escape (q h) \<and> job_provider h = js_escape pr"
  shows "json_parse (reply_body (handle_history s)) =
    Some (J_obj [(''history'', J_arr (map (\<lambda>h. history_object h (q h) pr) (query_history s)))])"
  using lex_history_entries [OF assms]
  by (simp add: json_parse_def handle_history_def json_reply_def line_def lex_fixed option.map_comp comp_def
      start_value_def member_name_def after_value_def parse_entries)

text \<open>One query that was cut at an escaped quote makes the whole history unreadable.\<close>

lemma lex_cut_history_entry:
  assumes "job_query j = js_escape a @ [CHR 0x5C]"
  shows "tokens_of Between (history_entry j @ r) = None"
proof -
  have "tokens_of (In_string (quote # acc)) (CHR '','' # newline # r') = None" for acc r'
    using lex_broken_text [of "[CHR '','']" "In_string (quote # acc)"] by simp
  then show ?thesis
    using assms
    by (simp add: history_entry_def history_fields_def json_field_def line_def quoted_def Let_def
        lex_fixed lex_ints lex_js_escape simple_escape_def)
qed

lemma lex_cut_history_entries:
  assumes "\<forall>h\<in>set hs. job_provider h = js_escape pr \<and>
      (\<exists>a. job_query h = js_escape a \<or> job_query h = js_escape a @ [CHR 0x5C])"
    and "h \<in> set hs" and "job_query h = js_escape a @ [CHR 0x5C]"
  shows "tokens_of Between (join (line '','') (map history_entry hs) @ r) = None"
  using assms(1,2)
proof (induction hs)
  case (Cons x hs)
  show ?case
  proof (cases "\<exists>b. job_query x = js_escape b @ [CHR 0x5C]")
    case True
    then show ?thesis using lex_cut_history_entry [of x] by (cases hs) auto
  next
    case False
    then obtain b where b: "job_query x = js_escape b" and "h \<noteq> x"
      using Cons.prems assms(3) by auto
    then have none: "tokens_of Between (join (line '','') (map history_entry hs) @ r) = None" and "hs \<noteq> []"
      using Cons by auto
    then obtain y ys where "hs = y # ys" by (cases hs) auto
    with none Cons.prems(1) lex_history_entry [OF b] show ?thesis by (simp add: line_def lex_fixed)
  qed
qed simp

lemma parse_cut_history:
  assumes "\<forall>h\<in>set (query_history s). job_provider h = js_escape pr \<and>
      (\<exists>a. job_query h = js_escape a \<or> job_query h = js_escape a @ [CHR 0x5C])"
    and "h \<in> set (query_history s)" and "job_query h = js_escape a @ [CHR 0x5C]"
  shows "json_parse (reply_body (handle_history s)) = None"
  using lex_cut_history_entries [OF assms]
  by (simp add: json_parse_def handle_history_def json_reply_def line_def lex_fixed)

end
