(* ===== verification/Dashboard_Properties.thy ===== *)
theory Dashboard_Properties
  imports Dashboard_Texts Web_Properties
begin

text \<open>
  The page of the dashboard together with the server that answers it: what a submitted query, a poll
  of its job and the lists on the page end in.
\<close>

section \<open>Texts without quotes\<close>

text \<open>No text of the job table contains a quote, and neither does a text a thread has still to store.\<close>

fun plain_store :: "thread_action \<Rightarrow> bool" where
  "plain_store (Store_output text status) \<longleftrightarrow> quote \<notin> set text"
| "plain_store (Record_metrics d) \<longleftrightarrow> True"

definition plain_thread :: "job_thread \<Rightarrow> bool" where
  "plain_thread t \<longleftrightarrow> (case snd t of None \<Rightarrow> True | Some acts \<Rightarrow> list_all plain_store acts)"

definition plain_web :: "configuration \<Rightarrow> web \<Rightarrow> bool" where
  "plain_web cfg w \<longleftrightarrow> srv_config (web_server w) = cfg \<and>
     (\<forall>e\<in>set (jobs (web_server w)). plain_job (snd e)) \<and>
     (\<forall>h\<in>set (query_history (web_server w)). job_duration_ms h = 0 \<and> job_provider h = api_type cfg) \<and>
     (\<forall>t\<in>set (web_threads w). plain_thread t)"

lemma completed_text_plain: "quote \<notin> set (completed_text ms)"
  using show_int_no_quote [of ms] by (simp add: completed_text_def line_def newline_def)

lemma client_from_plain:
  assumes "client_from net env cfg w = Throw e" and "quote \<notin> set (api_type cfg)"
  shows "quote \<notin> set (what e)"
  using assms
  by (auto simp: client_from_def create_from_config_def unknown_provider_def new_ollama_def Let_def
      split: if_splits)

lemma thread_body_plain:
  assumes b: "thread_body h net env nw answer elapsed j s = (acts, s')"
    and plain: "quote \<notin> set (api_type (srv_config s))"
  shows "list_all plain_store acts" and "srv_config s' = srv_config s"
proof -
  have "list_all plain_store acts \<and> srv_config s' = srv_config s"
  proof (cases "client_from net env (srv_config s) nw")
    case (Ret cl)
    obtain b c where i: "initialize_analysts (Some cl) (models (srv_config s)) (srv_council s) = (b, c)"
      by (cases "initialize_analysts (Some cl) (models (srv_config s)) (srv_council s)")
    obtain result c' where r: "run_debate answer (job_query j) (job_rounds j) c = (result, c')"
      by (cases "run_debate answer (job_query j) (job_rounds j) c")
    show ?thesis
    proof (cases b)
      case True
      with i have i': "initialize_analysts (Some cl) (models (srv_config s)) (srv_council s) = (True, c)"
        by simp
      from b Ret r i' debate_output_fresh [OF i' r, of elapsed] completed_text_plain [of elapsed]
      show ?thesis by (auto simp: thread_body_def)
    qed (use b Ret i in \<open>auto simp: thread_body_def\<close>)
  next
    case (Throw e)
    then show ?thesis using b client_from_plain [OF Throw plain] by (auto simp: thread_body_def)
  qed (use b in \<open>auto simp: thread_body_def\<close>)
  then show "list_all plain_store acts" and "srv_config s' = srv_config s" by simp_all
qed

lemma plain_web_new: "plain_web cfg (new_web cfg cl)"
  by (simp add: plain_web_def new_web_def new_server_def)

lemma set_om_put: "e \<in> set (om_put k v m) \<Longrightarrow> e = (k, v) \<or> e \<in> set m"
  by (induction k v m rule: om_put.induct) (auto split: if_splits)

lemma plain_web_allocate:
  assumes "allocate_job now q s = (Ret j, s')" and "quote \<notin> set q"
  shows "srv_config s' = srv_config s" and "e \<in> set (jobs s') \<Longrightarrow> plain_job (snd e) \<or> e \<in> set (jobs s)"
    and "query_history s' = query_history s @ [j]"
    and "job_duration_ms j = 0" and "job_provider j = api_type (srv_config s)"
  using assms set_om_put [of e "next_job_id s" j "jobs s"]
  by (auto simp: allocate_job_def Let_def empty_job_def plain_job_def split: if_splits)

lemma plain_web_request:
  assumes inv: "plain_web cfg w"
    and req: "after_request (handle_request page now m sent (web_server w)) w = (l, w')"
  shows "plain_web cfg w'"
proof -
  obtain r s' where h: "handle_request page now m sent (web_server w) = (r, s')"
    by (cases "handle_request page now m sent (web_server w)")
  from handle_request_cases [OF h] show ?thesis
  proof
    assume *: "s' = web_server w \<and> (\<forall>rep j. r \<noteq> Ret (rep, Some j))"
    then have "web_server w' = web_server w \<and> web_threads w' = web_threads w"
      using req h by (auto simp: after_request_def split: outcome.splits option.splits)
    with inv show ?thesis by (simp add: plain_web_def)
  next
    assume "\<exists>q j j' rep. allocate_job (now div 1000) q (web_server w) = (Ret j, s') \<and>
       r = Ret (Some rep, Some j') \<and> job_id j' = job_id j \<and> quote \<notin> set q"
    then obtain q j j' rep where a: "allocate_job (now div 1000) q (web_server w) = (Ret j, s')"
      and r: "r = Ret (Some rep, Some j')" and q: "quote \<notin> set q" by blast
    have w': "web_server w' = s'" "web_threads w' = web_threads w @ [(j', None)]"
      using req h r by (auto simp: after_request_def)
    show ?thesis
      using inv w' plain_web_allocate [OF a q] by (auto simp: plain_web_def plain_thread_def)
  qed
qed

lemma plain_threads_update:
  assumes "\<forall>t\<in>set ts. plain_thread t" and "list_all plain_store acts"
  shows "\<forall>t\<in>set (ts[k := (j, Some acts)]). plain_thread t"
  using assms set_update_subset_insert [of ts k "(j, Some acts)"] by (auto simp: plain_thread_def)

lemma plain_web_threads: "plain_web cfg w \<Longrightarrow> \<forall>t\<in>set (web_threads w). plain_thread t"
  by (simp add: plain_web_def)

lemma plain_web_step:
  assumes "web_step out w l w'" and "plain_web cfg w" and "quote \<notin> set (api_type cfg)"
  shows "plain_web cfg w'"
  using assms
proof (induction rule: web_step.induct)
  case (request w now sent l w')
  then show ?case using plain_web_request by blast
next
  case (debate w k j nw elapsed acts s)
  then have "quote \<notin> set (api_type (srv_config (web_server w)))" by (simp add: plain_web_def)
  note plain = thread_body_plain [OF debate(4) this] and eff = thread_body_effect [OF debate(4)]
  show ?case
    using debate.prems(1) plain(2) eff(3,5) plain_threads_update [OF plain_web_threads [OF debate.prems(1)] plain(1)]
    by (simp add: plain_web_def)
next
  case (note_metrics w k j d acts m)
  have "plain_thread (web_threads w ! k)"
    using note_metrics.prems(1) note_metrics(2) by (simp add: plain_web_def)
  then have "list_all plain_store acts" using note_metrics(3) by (simp add: plain_thread_def)
  with note_metrics.prems(1) plain_threads_update [OF plain_web_threads [OF note_metrics.prems(1)]]
  show ?case by (simp add: plain_web_def)
next
  case (store_output w k j "text" status acts now)
  have "plain_thread (web_threads w ! k)"
    using store_output.prems(1) store_output(2) by (simp add: plain_web_def)
  then have p: "quote \<notin> set text" "list_all plain_store acts"
    using store_output(3) by (simp_all add: plain_thread_def)
  let ?s = "update_job_output now (job_id j) text status (web_server w)"
  have "plain_job (snd e)" if "e \<in> set (jobs ?s)" for e
  proof (cases "map_of (jobs (web_server w)) (job_id j)")
    case (Some job)
    then have "plain_job job" using store_output.prems(1) map_of_SomeD by (fastforce simp: plain_web_def)
    then have "plain_job (finish_job now text status job)" using p(1) by (simp add: plain_job_def finish_job_def)
    moreover have "e = (job_id j, finish_job now text status job) \<or> e \<in> set (jobs (web_server w))"
      using that Some set_om_put by (fastforce simp: update_job_output_def)
    ultimately show ?thesis using store_output.prems(1) by (auto simp: plain_web_def)
  qed (use that store_output.prems(1) in \<open>auto simp: update_job_output_def plain_web_def\<close>)
  moreover have "srv_config ?s = srv_config (web_server w)"
    by (simp add: update_job_output_def split: option.split)
  ultimately show ?case
    using store_output.prems(1) plain_threads_update [OF plain_web_threads [OF store_output.prems(1)] p(2)]
    by (simp add: plain_web_def update_frame)
qed (simp_all add: plain_web_def stop_server_def)

lemma plain_web_steps:
  "web_steps out w ls w' \<Longrightarrow> plain_web cfg w \<Longrightarrow> quote \<notin> set (api_type cfg) \<Longrightarrow> plain_web cfg w'"
  by (induction rule: web_steps.induct) (auto dest: plain_web_step)

section \<open>A submitted query\<close>







lemma parse_small:
  \<open>json_parse (''{"job_id":'' @ show_int i @ ''}'') = Some (J_obj [(''job_id'', J_num (of_int i))])\<close>
  \<open>json_parse ''{"error":"missing query"}'' = Some (J_obj [(''error'', J_str ''missing query'')])\<close>
  \<open>json_parse ''Not Found'' = None\<close>
  by (simp_all add: json_parse_def lex_fixed lex_end start_value_def member_name_def after_value_def)
    (simp add: lex_Between json_space_def punctuation_def word_char_def word_value_def number_text_def
      json_digit_def digit_value_def Let_def)

lemma on_body_parsed: "json_parse b = Some v \<Longrightarrow> on_body br f b p = on_reply br f v p"
  by (simp add: on_body_def)

lemma on_body_unread:
  "json_parse b = None \<Longrightarrow> \<nexists>j. f = Progress_tick j \<Longrightarrow> on_body br f b p = (p, [])"
  by (cases f) (simp_all add: on_body_def)





















lemma completed_text_lines:
  "\<exists>b. completed_text ms = ''Debate completed.'' @ newline # b"
  by (simp add: completed_text_def line_def)






section \<open>The result of a debate\<close>

lemma reachable_plain:
  assumes "web_steps out (new_web cfg cl) ls w" and "quote \<notin> set (api_type cfg)"
  shows "plain_web cfg w" and "web_inv w"
  using plain_web_steps [OF assms(1) plain_web_new assms(2)] web_inv_steps [OF assms(1) web_inv_new]
  by simp_all

text \<open>C11: the page never shows the result of a debate. The text of a completed debate has several lines
  and is written into the JSON as it is, so in every reachable state the reply to a poll of a completed
  job and the list of tasks cannot be read: the output stays as it was, the timer of the poll
  goes on, and the list of the jobs is not shown any more either.\<close>

theorem result_never_shown:
  assumes "web_steps out (new_web cfg cl) ls w" and "quote \<notin> set (api_type cfg)"
    and "lookup_job (web_server w) i = Some j" and "job_status j = 1"
  shows "on_body br (Poll n v) (reply_body (handle_query_status i (web_server w))) p = (p, []) \<and>
    on_body br (Select v) (reply_body (handle_query_status i (web_server w))) p = (p, []) \<and>
    on_body br Tasks (reply_body (handle_tasks (web_server w))) p = (p, [])"
proof -
  let ?s = "web_server w"
  note plain = reachable_plain [OF assms(1,2)]
  have ok: "job_ok i j" and i: "1 \<le> i"
    using plain(2) assms(3) unfolding web_inv_def table_ok_def by (blast, metis option.distinct(1))
  then obtain ms where out: "job_output j = completed_text ms" and id: "job_id j = i"
    using assms(4) by (auto simp: job_ok_def)
  obtain b where b: "completed_text ms = ''Debate completed.'' @ newline # b"
    using completed_text_lines by blast
  have mem: "(i, j) \<in> set (jobs ?s)" using assms(3) by (simp add: lookup_job_def map_of_SomeD)
  have jobs: "\<forall>e\<in>set (jobs ?s). plain_job (snd e)" using plain(1) by (simp add: plain_web_def)
  then have q: "quote \<notin> set (job_query j)" using mem by (fastforce simp: plain_job_def)
  have j: "find_job i ?s = j" using assms(3) by (simp add: find_job_def lookup_job_def)
  have first_line: "quote \<notin> set ''Debate completed.''" by simp
  have "json_parse (reply_body (handle_query_status i ?s)) = None"
    using parse_broken_output [OF q first_line] i id
    by (simp only: status_text j out b Let_def)
  moreover have "json_parse (reply_body (handle_tasks ?s)) = None"
    using parse_broken_tasks [OF jobs mem] out b by metis
  ultimately show ?thesis by (simp add: on_body_unread)
qed

section \<open>A run with a completed debate\<close>

definition claude_config :: configuration where
  "claude_config = configuration_default\<lparr>api_type := ''claude'', models := [''m'']\<rparr>"

definition claude_job :: execution_job where
  "claude_job = demo_job\<lparr>job_provider := ''claude''\<rparr>"

definition claude_posted :: web where
  "claude_posted = (new_web claude_config None)
     \<lparr>web_server := snd (allocate_job 0 ''Why?'' (web_server (new_web claude_config None))),
      web_threads := [(claude_job, None)]\<rparr>"

lemma claude_request: "\<exists>rep. web_step offline (new_web claude_config None) (Answered rep) claude_posted"
proof -
  let ?w = "new_web claude_config None"
  have a: "allocate_job 0 ''Why?'' (web_server ?w) = (Ret claude_job, web_server claude_posted)"
    by (simp add: allocate_job_def claude_posted_def claude_job_def demo_job_def new_web_def new_server_def
        claude_config_def configuration_default_def empty_job_def INT_MAX_def Let_def)
  have ne: "recv_buffer demo_post \<noteq> []"
    by (simp add: recv_buffer_def demo_post_def request_head_def)
  have j: "claude_job\<lparr>job_rounds := rounds (srv_config (web_server ?w))\<rparr> = claude_job"
    by (simp add: claude_job_def demo_job_def new_web_def new_server_def claude_config_def
        configuration_default_def)
  obtain rep where "handle_request (out_page offline) 0 (web_metrics ?w) demo_post (web_server ?w) =
      (Ret (Some rep, Some claude_job), web_server claude_posted)"
    using a ne j by (simp add: handle_request_def demo_post_parsed route_def handle_query_def demo_body)
  then have "after_request (handle_request (out_page offline) 0 (web_metrics ?w) demo_post (web_server ?w)) ?w =
      (Answered (Some rep), claude_posted)"
    by (simp add: after_request_def claude_posted_def new_web_def)
  then have "web_step offline ?w (Answered (Some rep)) claude_posted"
    by (rule web_step.request [rotated 2]) (simp_all add: new_web_def)
  then show ?thesis ..
qed

lemma claude_thread:
  "\<exists>d s. thread_body h net env nw answer elapsed j (web_server claude_posted) =
     ([Record_metrics d, Store_output (completed_text elapsed) 1], s) \<and>
     jobs s = jobs (web_server claude_posted) \<and> query_history s = query_history (web_server claude_posted)"
proof -
  let ?s = "web_server claude_posted"
  have cfg: "srv_config ?s = claude_config"
    by (simp add: claude_posted_def new_web_def new_server_def allocate_job_def Let_def INT_MAX_def)
  obtain cl where cl: "client_from net env claude_config nw = Ret cl"
    by (simp add: client_from_def create_from_config_def claude_config_def lowercase_def tolower_def Let_def)
  have "models claude_config \<noteq> []" by (simp add: claude_config_def configuration_default_def)
  then obtain c where c: "initialize_analysts (Some cl) (models claude_config) (srv_council ?s) = (True, c)"
    by (simp add: initialize_analysts_def)
  obtain result c' where r: "run_debate answer (job_query j) (job_rounds j) c = (result, c')"
    by (cases "run_debate answer (job_query j) (job_rounds j) c")
  show ?thesis
    using debate_output_fresh [OF c r, of elapsed] by (simp add: thread_body_def cfg cl c r)
qed

lemma claude_run:
  "\<exists>ls w j. web_steps offline (new_web claude_config None) ls w \<and>
     lookup_job (web_server w) 1 = Some j \<and> job_status j = 1 \<and> query_history (web_server w) = [claude_job]"
proof -
  let ?p = claude_posted
  have p: "web_status ?p = Serving" "web_threads ?p = [(claude_job, None)]" "job_id claude_job = 1"
    by (simp_all add: claude_posted_def new_web_def claude_job_def demo_job_def)
  obtain rep where "web_step offline (new_web claude_config None) (Answered rep) ?p"
    using claude_request by blast
  then have run: "web_steps offline (new_web claude_config None) [Answered rep] ?p"
    using web_steps.more [OF web_steps.none] by fastforce
  obtain d s where b: "thread_body (out_hash offline) (out_network offline) (out_env offline) ()
      (out_answers offline) 0 claude_job (web_server ?p) =
    ([Record_metrics d, Store_output (completed_text 0) 1], s)" "jobs s = jobs (web_server ?p)"
    "query_history s = query_history (web_server ?p)"
    using claude_thread [of "out_hash offline" "out_network offline" "out_env offline" "()"
        "out_answers offline" 0 claude_job] by blast
  define w1 where "w1 = ?p\<lparr>web_server := s,
    web_threads := [(claude_job, Some [Record_metrics d, Store_output (completed_text 0) 1])]\<rparr>"
  have "web_step offline ?p Quiet w1"
    using web_step.debate [of ?p 0 claude_job offline "()" 0, OF _ _ _ b(1)] p by (simp add: w1_def)
  then have run1: "web_steps offline (new_web claude_config None) [Answered rep, Quiet] w1"
    using web_steps.more [OF run] by fastforce
  obtain m where m: "record_debate False d (web_metrics w1) = Ret m"
    by (simp add: record_debate_def with_lock_def Let_def)
  define w2 where "w2 = w1\<lparr>web_metrics := m,
    web_threads := [(claude_job, Some [Store_output (completed_text 0) 1])]\<rparr>"
  have "web_step offline w1 Quiet w2"
    using web_step.note_metrics [of w1 0 claude_job d _ m offline, OF _ _ _ m] p
    by (simp add: w1_def w2_def)
  then have run2: "web_steps offline (new_web claude_config None) [Answered rep, Quiet, Quiet] w2"
    using web_steps.more [OF run1] by fastforce
  define w3 where "w3 = w2\<lparr>web_server := update_job_output 0 1 (completed_text 0) 1 s,
    web_threads := [(claude_job, Some [])]\<rparr>"
  have "web_step offline w2 Quiet w3"
    using web_step.store_output [of w2 0 claude_job "completed_text 0" 1 "[]" offline 0] p
    by (simp add: w1_def w2_def w3_def)
  then have run3: "web_steps offline (new_web claude_config None) [Answered rep, Quiet, Quiet, Quiet] w3"
    using web_steps.more [OF run2] by fastforce
  have "\<exists>j. lookup_job (web_server w3) 1 = Some j \<and> job_status j = 1"
    using b(2)
    by (simp add: w3_def update_job_output_def lookup_job_def claude_posted_def allocate_job_def new_web_def
        new_server_def INT_MAX_def Let_def finish_job_def)
  moreover have "query_history (web_server w3) = [claude_job]"
    using b(3)
    by (simp add: w3_def update_frame claude_posted_def allocate_job_def new_web_def new_server_def
        INT_MAX_def Let_def claude_job_def demo_job_def claude_config_def configuration_default_def
        empty_job_def)
  ultimately show ?thesis using run3 by blast
qed

theorem result_never_shown_witness:
  "\<exists>w. (\<exists>ls. web_steps offline (new_web claude_config None) ls w) \<and>
     (\<exists>j. lookup_job (web_server w) 1 = Some j \<and> job_status j = 1) \<and>
     (\<forall>br. fst (on_body br (Poll 3 (Some (J_num 1))) (reply_body (handle_query_status 1 (web_server w)))
        new_page) = new_page)"
proof -
  obtain ls w j where w: "web_steps offline (new_web claude_config None) ls w"
    "lookup_job (web_server w) 1 = Some j" "job_status j = 1"
    using claude_run by blast
  have "quote \<notin> set (api_type claude_config)" by (simp add: claude_config_def)
  from result_never_shown [OF w(1) this w(2,3)] w show ?thesis by fastforce
qed

section \<open>A query that arrives in two parts\<close>

lemma no_query_in_zeros: "query_of_body (replicate n (CHR 0x00)) = []"
proof -
  have \<open>\<not> sublist ''"query":"'' (replicate n (CHR 0x00))\<close>
    by (auto dest: set_mono_sublist split: if_splits)
  then have \<open>find_sub ''"query":"'' (replicate n (CHR 0x00)) = None\<close>
    by (simp only: find_sub_None_iff) simp
  then show ?thesis by (simp add: query_of_body_def str_find_0)
qed

lemma poll_undefined_throws:
  "route page now m (request_of br h (Poll k None)) s = (Throw (Exn Invalid_argument ''stoi''), s)"
proof -
  have "stoi ''undefined'' = Throw (Exn Invalid_argument ''stoi'')" by code_simp
  then show ?thesis
    by (simp add: request_of_def request_path_def js_text_def route_def route_reading_eq route_status_def
        str_find_0)
qed

lemma new_timer:
  assumes "timers_ok p"
  shows "tick (next_timer p) (poll_job j p) = (poll_job j p, [Poll (next_timer p) j])"
proof -
  have "map_of (timers p) (next_timer p) = None"
    using assms by (auto simp: timers_ok_def map_of_eq_None_iff)
  then have "map_of (timers p @ [(next_timer p, Poll_timer j)]) (next_timer p) = Some (Poll_timer j)"
    by (simp add: map_add_def)
  then show ?thesis by (simp add: tick_def poll_job_def set_interval_def del: map_of_append)
qed

text \<open>C23: a submitted query whose body does not arrive with its head stops the server. The server
  answers that the query is missing; the page does not look at the error, selects the job
  \<open>undefined\<close> and starts polling it; and the first of these polls throws out of the accept loop.\<close>

theorem split_submission_ends_server:
  assumes "p = page_after br evs" and "web_status w = Serving" and "srv_running (web_server w)"
    and "\<forall>hd\<in>set headers. header_ok hd" and "is_int (int (length (submit_body q)))"
    and "head = request_head ''POST'' ''/api/query'' headers (length (submit_body q))"
    and "length head < 4096"
    and "parse_request (recv_buffer sent) = Ret (Some (request_of br h (Poll (next_timer p) None)))"
  shows "\<exists>rep p'. web_step out w (Answered (Some rep)) w \<and> on_body br (Submit q) (reply_body rep) p = (p', []) \<and>
    tick (next_timer p) p' = (p', [Poll (next_timer p) None]) \<and>
    web_step out w Quiet (w\<lparr>web_status := Crashed (Exn Invalid_argument ''stoi'')\<rparr>)"
proof -
  let ?s = "web_server w"
  let ?n = "length (submit_body q)"
  let ?rep = \<open>json_reply 400 ''{"error":"missing query"}''\<close>
  have word: "is_word ''POST''" "is_word ''/api/query''" by (simp_all add: is_word_def isspace_def)
  have "recv_buffer head = head" "head \<noteq> []"
    using assms(6,7) by (auto simp: recv_buffer_def request_head_def)
  moreover have "parse_request head = Ret (Some (''POST'', ''/api/query'', replicate ?n (CHR 0x00)))"
    using parse_request_split [OF word assms(4,5), of 0] assms(6) by simp
  ultimately have "handle_request (out_page out) 0 (web_metrics w) head ?s = (Ret (Some ?rep, None), ?s)"
    by (simp add: handle_request_def route_def handle_query_def no_query_in_zeros)
  then have "after_request (handle_request (out_page out) 0 (web_metrics w) head ?s) w =
      (Answered (Some ?rep), w)"
    by (simp add: after_request_def)
  then have answered: "web_step out w (Answered (Some ?rep)) w"
    by (rule web_step.request [OF assms(2,3)])
  have "json_parse (reply_body ?rep) = Some (J_obj [(''error'', J_str ''missing query'')])"
    using parse_small(2) by (simp add: json_reply_def)
  then have submitted: "on_body br (Submit q) (reply_body ?rep) p = (poll_job None (p\<lparr>selected_job := None\<rparr>), [])"
    by (simp add: on_body_parsed on_reply_def on_submitted_def)
  have "timers_ok (p\<lparr>selected_job := None\<rparr>)" using assms(1) timers_ok_after by simp
  then have fired: "tick (next_timer p) (poll_job None (p\<lparr>selected_job := None\<rparr>)) =
      (poll_job None (p\<lparr>selected_job := None\<rparr>), [Poll (next_timer p) None])"
    using new_timer by fastforce
  have "recv_buffer sent \<noteq> []" using assms(8) by (auto simp: parse_request_def getline_def)
  then have "handle_request (out_page out) 0 (web_metrics w) sent ?s = (Throw (Exn Invalid_argument ''stoi''), ?s)"
    using assms(8) poll_undefined_throws by (simp add: handle_request_def)
  then have "after_request (handle_request (out_page out) 0 (web_metrics w) sent ?s) w =
      (Quiet, w\<lparr>web_status := Crashed (Exn Invalid_argument ''stoi'')\<rparr>)"
    by (simp add: after_request_def)
  then have "web_step out w Quiet (w\<lparr>web_status := Crashed (Exn Invalid_argument ''stoi'')\<rparr>)"
    by (rule web_step.request [OF assms(2,3)])
  with answered submitted fired show ?thesis by blast
qed

definition plain_browser :: browser where
  "plain_browser = \<lparr>br_fraction = (\<lambda>r. []), br_number = (\<lambda>s. None), br_lower = lowercase,
     br_compare = (\<lambda>s t. if s < t then - 1 else if s = t then 0 else 1), br_fixed = (\<lambda>n r. []),
     br_locale = (\<lambda>v. []), br_time = (\<lambda>v. [])\<rparr>"

theorem split_submission_ends_server_witness:
  "web_step offline (new_web configuration_default None) Quiet
     ((new_web configuration_default None)\<lparr>web_status := Crashed (Exn Invalid_argument ''stoi'')\<rparr>)"
proof -
  let ?head = "request_head ''POST'' ''/api/query'' [''Host: localhost''] (length (submit_body ''Why?''))"
  let ?w = "new_web configuration_default None"
  have parsed: "parse_request (recv_buffer (''GET /api/query?job_id=undefined HTTP/1.1'' @ crlf @ crlf)) =
      Ret (Some (request_of plain_browser 24 (Poll (next_timer (page_after plain_browser [])) None)))"
    by code_simp
  have small: "is_int (int (length (submit_body ''Why?'')))" and short: "length ?head < 4096"
    by code_simp+
  have headers: "\<forall>hd\<in>set [''Host: localhost'']. header_ok hd"
    by (simp add: header_ok_def newline_def)
  have serving: "web_status ?w = Serving" "srv_running (web_server ?w)" by (simp_all add: new_web_def)
  show ?thesis
    using split_submission_ends_server [where out = offline, OF refl serving headers small refl short parsed]
    by blast
qed

section \<open>What the page asks for and never gets\<close>

fun detail_request :: "fetch \<Rightarrow> bool" where
  "detail_request (Progress_tick j) = True"
| "detail_request (Progress_first j) = True"
| "detail_request (Picture j) = True"
| "detail_request Trends = True"
| "detail_request Success_rates = True"
| "detail_request Tokens = True"
| "detail_request Models = True"
| "detail_request Timeseries = True"
| "detail_request (Percentiles q) = True"
| "detail_request f = False"

text \<open>C24: the tabs for the progress and the picture of a debate and for the detailed metrics never show
  anything, whatever the server holds: each of their requests is answered with 404 and a text that is
  not JSON, which leaves the page as it was but for the polling of the progress, which stops; the
  request of the statistics tab is never answered.\<close>

theorem detail_tabs_stay_empty:
  assumes "detail_request f"
  shows "route page now m (request_of br h f) s = (Ret (Some not_found, None), s) \<and>
    on_body br f (reply_body not_found) p =
      (case f of Progress_tick j \<Rightarrow> stop_debate_polling p | _ \<Rightarrow> p, []) \<and>
    on_percentiles (replicate 3 (reply_body not_found)) p = p \<and>
    fst (route page now m (request_of br h Stats) s) = Blocked"
proof -
  have nf: "json_parse (reply_body not_found) = None"
    using parse_small(3) by (simp add: not_found_def text_reply_def)
  then have "on_body br f (reply_body not_found) p =
      (case f of Progress_tick j \<Rightarrow> stop_debate_polling p | _ \<Rightarrow> p, [])"
    by (cases f) (simp_all add: on_body_def on_progress_tick_def)
  moreover have "on_percentiles (replicate 3 (reply_body not_found)) p = p"
    using nf by (simp add: on_percentiles_def numeral_eq_Suc)
  moreover have "route page now m (request_of br h f) s = (Ret (Some not_found, None), s)"
    using assms by (cases f) (simp_all add: request_of_def request_path_def route_def route_reading_eq Let_def)
  moreover have "fst (route page now m (request_of br h Stats) s) = Blocked"
    by (simp add: request_of_def request_path_def route_def route_reading_eq reports_block)
  ultimately show ?thesis by blast
qed

theorem detail_tabs_stay_empty_witness:
  "route [] 0 new_metrics (request_of plain_browser 24 Trends) (new_server configuration_default None) =
     (Ret (Some not_found, None), new_server configuration_default None)"
  using detail_tabs_stay_empty [of Trends] by simp

section \<open>The history on the page\<close>





end
