(* ===== verification/Main_Program.thy ===== *)
theory Main_Program
  imports Web_Service Config_Parser Config_Validator Query_Classifier
begin

text \<open>
  \<open>main.cpp\<close>: the command line, the configuration it results in, and the two modes of the
  program. What the process meets outside (files and environment, network, what the clients
  answer, whether the sockets can be opened) is the parameter record \<open>process\<close>. A run gives its
  calls of the logger, what it writes to standard error, and how it ends.
\<close>

section \<open>The command line\<close>

record options =
  config_path :: string
  opt_ollama_urls :: "string list"
  opt_rounds :: int
  opt_models :: "string list"
  opt_query :: string
  web_mode :: bool

definition options_default :: options where
  "options_default = \<lparr>config_path = ''config/council.conf'', opt_ollama_urls = [], opt_rounds = 0,
     opt_models = [], opt_query = [], web_mode = False\<rparr>"

definition print_usage :: "string \<Rightarrow> string" where \<open>
  print_usage program_name =
     line (''Usage: '' @ program_name @ '' [options] (<query> | --web)'') @ [newline] @
     line ''Options:'' @
     line ''  --web               Launch web dashboard (HTTP server on port 8080)'' @
     line ''  --ollama <url>      Ollama server URL (can be specified multiple times)'' @
     line ''                      Default: http://localhost:11434'' @
     line ''                      Multi-endpoint enables parallelism (2+ endpoints)'' @
     line ''  --rounds <n>        Number of debate rounds (default: 4)'' @
     line ''  --models <m1,m2...> Models to use (comma-separated)'' @
     line ''  --help              Show this help message'' @ [newline] @
     line ''Examples:'' @
     line (''  '' @ program_name @ '' --web'') @
     line (''  '' @ program_name @ '' "Check for security issues in this code"'') @
     line (''  '' @ program_name @
       '' --ollama http://gpu1:11434 --ollama http://gpu2:11434 "query"'')\<close>

text \<open>The loop over the commas, from position \<open>start\<close>.\<close>

function split_models :: "string \<Rightarrow> nat \<Rightarrow> string list" where
  "split_models s start =
     (case str_find s '','' start of
        None \<Rightarrow> [drop start s]
      | Some e \<Rightarrow> substr s start (e - start) # split_models s (e + 1))"
  by pat_completeness auto
termination
proof (relation "measure (\<lambda>(s, start). Suc (length s) - start)", goal_cases)
  case (2 s start e)
  then show ?case using str_find_Some(1,2) [of s "'',''" start e] by simp
qed simp

declare split_models.simps [simp del]

text \<open>The loop over \<open>argv\<close>; \<open>Ret None\<close> is \<open>return false\<close>. An option that needs a value and is
  the last argument falls through to the later tests.\<close>

function parse_args :: "string \<Rightarrow> string list \<Rightarrow> options \<Rightarrow> options option outcome \<times> string" where
  "parse_args prog [] opts = (Ret (Some opts), [])"
| "parse_args prog (a # as) opts =
     (if a = ''--config'' \<and> as \<noteq> [] then parse_args prog (tl as) (opts\<lparr>config_path := hd as\<rparr>)
      else if a = ''--web'' then parse_args prog as (opts\<lparr>web_mode := True\<rparr>)
      else if a = ''--ollama'' \<and> as \<noteq> []
      then parse_args prog (tl as) (opts\<lparr>opt_ollama_urls := opt_ollama_urls opts @ [hd as]\<rparr>)
      else if a = ''--rounds'' \<and> as \<noteq> []
      then (case stoi (hd as) of
              Ret n \<Rightarrow> parse_args prog (tl as) (opts\<lparr>opt_rounds := n\<rparr>)
            | Throw e \<Rightarrow> (Throw e, [])
            | Undef u \<Rightarrow> (Undef u, [])
            | Blocked \<Rightarrow> (Blocked, []))
      else if a = ''--models'' \<and> as \<noteq> []
      then parse_args prog (tl as) (opts\<lparr>opt_models := split_models (hd as) 0\<rparr>)
      else if a = ''--help'' then (Ret None, print_usage prog)
      else if a = [] \<or> hd a \<noteq> CHR ''-'' then parse_args prog as (opts\<lparr>opt_query := a\<rparr>)
      else (Ret None, line (''Unknown option: '' @ a)))"
  by pat_completeness auto
termination
  by (relation "measure (\<lambda>(prog, as, opts). length as)") auto

declare parse_args.simps(2) [simp del]

definition parse_arguments :: "string \<Rightarrow> string list \<Rightarrow> options option outcome \<times> string" where
  "parse_arguments prog args =
     (case parse_args prog args options_default of
        (Ret (Some opts), err) \<Rightarrow>
          if \<not> web_mode opts \<and> opt_query opts = []
          then (Ret None, err @ line ''Error: Query required (or use --web for dashboard mode)'')
          else (Ret (Some opts), err)
      | r \<Rightarrow> r)"

section \<open>The two modes\<close>

record 'w process =
  proc_env :: environment
  proc_net :: "'w network"
  proc_answers :: "client answers"
  socket_ok :: bool
  bind_ok :: bool
  listen_ok :: bool

datatype main_end = Exits int | Serves http_server

type_synonym log_calls = "(log_level \<times> string) list"

definition override_config :: "options \<Rightarrow> configuration \<Rightarrow> configuration" where
  "override_config opts c =
     c\<lparr>rounds := (if opt_rounds opts > 0 then opt_rounds opts else rounds c),
       models := (if opt_models opts \<noteq> [] then opt_models opts else models c),
       ollama_urls := (if opt_ollama_urls opts \<noteq> [] then opt_ollama_urls opts else ollama_urls c)\<rparr>"

definition with_default_url :: "configuration \<Rightarrow> configuration" where
  "with_default_url c =
     (if api_type c = ''ollama'' \<and> ollama_urls c = []
      then c\<lparr>ollama_urls := [default_ollama_url]\<rparr> else c)"

text \<open>The virtual calls \<open>is_available\<close> and \<open>get_last_error\<close>.\<close>

fun client_is_available :: "'w network \<Rightarrow> client \<times> 'w \<Rightarrow> bool outcome \<times> client \<times> 'w" where
  "client_is_available net (Ollama_client c, w) =
     (let (r, c', w') = ollama_is_available net (c, w) in (r, Ollama_client c', w'))"
| "client_is_available net (Claude_client c, w) =
     (let (r, c') = claude_is_available c in (Ret r, Claude_client c', w))"
| "client_is_available net (Google_client c, w) =
     (let (r, c') = google_is_available c in (Ret r, Google_client c', w))"

fun client_last_error :: "client \<Rightarrow> string" where
  "client_last_error (Ollama_client c) = oc_last_error c"
| "client_last_error (Claude_client c) = cc_last_error c"
| "client_last_error (Google_client c) = gc_last_error c"

text \<open>Making the client and asking whether it is available; \<open>Inl\<close> is the error logged before
  \<open>return 1\<close>.\<close>

definition ready_client ::
  "'w process \<Rightarrow> configuration \<Rightarrow> 'w \<Rightarrow> (log_calls + client) outcome" where
  "ready_client p cfg w =
     (case client_from (proc_net p) (getenv (proc_env p)) cfg w of
        Throw e \<Rightarrow> Ret (Inl [(Error, ''Failed to initialize LLM client: '' @ what e)])
      | r \<Rightarrow> obind r (\<lambda>cl.
          (case client_is_available (proc_net p) (cl, w) of
             (ok, cl', w') \<Rightarrow>
               omap (\<lambda>b. if b then Inr cl'
                         else Inl [(Error, ''LLM service unavailable: '' @ client_last_error cl')])
                 ok)))"

definition web_main ::
  "'w process \<Rightarrow> configuration \<Rightarrow> 'w \<Rightarrow> log_calls \<times> main_end outcome" where
  "web_main p cfg w =
     (let logs = [(Info, ''Starting HTTP server for web dashboard...''),
                  (Info, ''LLM Provider: '' @ api_type cfg)];
          cfg' = with_default_url cfg
      in case ready_client p cfg' w of
           Ret (Inl err) \<Rightarrow> (logs @ err, Ret (Exits 1))
         | Ret (Inr cl) \<Rightarrow>
             (let (start_logs, code, srv) =
                    start_server (socket_ok p) (bind_ok p) (listen_ok p) (new_server cfg' (Some cl))
              in (logs @ [(Info, ''LLM client ready: '' @ get_name cl)] @ start_logs,
                  Ret (case code of Some n \<Rightarrow> Exits n | None \<Rightarrow> Serves srv)))
         | Throw e \<Rightarrow> (logs @ [(Error, ''Failed to initialize LLM client: '' @ what e)], Ret (Exits 1))
         | Undef u \<Rightarrow> (logs, Undef u)
         | Blocked \<Rightarrow> (logs, Blocked))"

text \<open>How \<open>main\<close> ends after the server loop.\<close>

fun after_serving :: "web_status \<Rightarrow> log_calls \<times> main_end outcome" where
  "after_serving Closed = ([], Ret (Exits 0))"
| "after_serving (Crashed e) =
     ([(Error, ''Failed to initialize LLM client: '' @ what e)], Ret (Exits 1))"
| "after_serving (Broken u) = ([], Undef u)"
| "after_serving status = ([], Blocked)"

definition endpoint_logs :: "configuration \<Rightarrow> log_calls" where
  "endpoint_logs cfg =
     (if api_type cfg \<noteq> ''ollama'' then []
      else (case ollama_urls cfg of
              [] \<Rightarrow>
                [(Info, ''No Ollama endpoints specified; defaulting to localhost:11434''),
                 (Info, ''Parallelism: 1 (sequential) - single endpoint'')]
            | [u] \<Rightarrow>
                [(Info, ''Ollama endpoint: '' @ u),
                 (Info, ''Parallelism: 1 (sequential) - single endpoint for stability'')]
            | urls \<Rightarrow>
                (Info, ''Multi-endpoint Ollama configuration:'') #
                map (\<lambda>i. (Info, ''  Endpoint '' @ show_nat (i + 1) @ '': '' @ urls ! i))
                  [0..<length urls] @
                [(Info, ''Parallelism: '' @ show_nat (length urls) @ '' (parallel batching enabled)'')]))"

definition debate_main ::
  "'w process \<Rightarrow> options \<Rightarrow> configuration \<Rightarrow> 'w \<Rightarrow> log_calls \<times> main_end outcome" where
  "debate_main p opts cfg w =
     (let logs = [(Info, ''Starting Code-Tribunal debate system''),
                  (Info, ''Query: '' @ opt_query opts),
                  (Info, ''Rounds: '' @ show_int (rounds cfg)),
                  (Info, ''LLM Provider: '' @ api_type cfg)] @ endpoint_logs cfg @
                 [(Info, ''Query classified: '' @
                    show_int (query_type_int (primary_type (classify (opt_query opts))))),
                  (Info, ''Initializing LLM client...'')];
          cfg' = with_default_url cfg
      in case ready_client p cfg' w of
           Ret (Inl err) \<Rightarrow> (logs @ err, Ret (Exits 1))
         | Ret (Inr cl) \<Rightarrow>
             (let logs1 = logs @ [(Info, ''LLM client connected: '' @ get_name cl),
                                  (Info, ''Initializing council orchestrator...'')]
              in case initialize_analysts (Some cl) (models cfg') (new_council cfg') of
                   (False, c) \<Rightarrow>
                     (logs1 @ [(Error, ''Failed to initialize analyst pool'')], Ret (Exits 1))
                 | (True, c) \<Rightarrow>
                     (let (result, c') = run_debate (proc_answers p) (opt_query opts) (rounds cfg') c
                      in (logs1 @
                          [(Info, ''Council initialized with '' @ show_nat (length (models cfg')) @
                              '' analysts''),
                           (Info, ''Starting debate...''),
                           (Info, ''Debate complete: '' @ show_nat (length (get_election_history c')) @
                              '' election rounds''),
                           (Info, ''Winner: '' @ show_int (final_winner result))],
                          Ret (Exits 0))))
         | Throw e \<Rightarrow> (logs, Throw e)
         | Undef u \<Rightarrow> (logs, Undef u)
         | Blocked \<Rightarrow> (logs, Blocked))"

section \<open>main\<close>

text \<open>From the options to the mode; \<open>ConfigParser\<close> throws when a number in the file is malformed.\<close>

definition configured_main ::
  "'w process \<Rightarrow> options \<Rightarrow> 'w \<Rightarrow> log_calls \<times> main_end outcome" where
  "configured_main p opts w =
     (let first = (Info, ''Loading configuration from: '' @ config_path opts)
      in case load_or_default (proc_env p) (config_path opts) of
           Ret c0 \<Rightarrow>
             (let (default_logs, cfg) = apply_defaults (override_config opts c0)
              in case validate cfg of
                   Throw e \<Rightarrow> (first # default_logs @ [(Error, what e)], Ret (Exits 1))
                 | _ \<Rightarrow>
                     (let (logs, r) = (if web_mode opts then web_main p cfg w
                                       else debate_main p opts cfg w)
                      in (first # default_logs @
                          [(Info, ''Configuration validated successfully''),
                           (Info, ''Rounds='' @ show_int (rounds cfg) @ '', Models='' @
                              show_nat (length (models cfg)) @ '', Provider='' @ api_type cfg)] @
                          logs, r)))
         | Throw e \<Rightarrow> ([first], Throw e)
         | Undef u \<Rightarrow> ([first], Undef u)
         | Blocked \<Rightarrow> ([first], Blocked))"

definition main_program ::
  "'w process \<Rightarrow> string \<Rightarrow> string list \<Rightarrow> 'w \<Rightarrow> (log_calls \<times> string) \<times> main_end outcome" where
  "main_program p prog args w =
     (case parse_arguments prog args of
        (Ret (Some opts), err) \<Rightarrow>
          (let (logs, r) = configured_main p opts w in ((logs, err), r))
      | (Ret None, err) \<Rightarrow> (([], err @ print_usage prog), Ret (Exits 1))
      | (Throw e, err) \<Rightarrow> (([], err), Throw e)
      | (Undef u, err) \<Rightarrow> (([], err), Undef u)
      | (Blocked, err) \<Rightarrow> (([], err), Blocked))"

end
