(* ===== verification/Main_Properties.thy ===== *)
theory Main_Properties
  imports Main_Program Config_Properties Web_Properties
begin

text \<open>
  The command line is read back exactly as it was written, and what a run in debate mode ends
  with: its exit code, and the last line of its log.
\<close>

section \<open>Writing a command line\<close>

datatype cli_item =
  Config_item string | Web_item | Ollama_item string | Rounds_item int | Models_item "string list"
| Query_item string | Help_item | Unknown_item string

fun item_args :: "cli_item \<Rightarrow> string list" where
  "item_args (Config_item p) = [''--config'', p]"
| "item_args Web_item = [''--web'']"
| "item_args (Ollama_item u) = [''--ollama'', u]"
| "item_args (Rounds_item n) = [''--rounds'', show_int n]"
| "item_args (Models_item ms) = [''--models'', join '','' ms]"
| "item_args (Query_item q) = [q]"
| "item_args Help_item = [''--help'']"
| "item_args (Unknown_item a) = [a]"

fun item_effect :: "cli_item \<Rightarrow> options \<Rightarrow> options" where
  "item_effect (Config_item p) opts = opts\<lparr>config_path := p\<rparr>"
| "item_effect Web_item opts = opts\<lparr>web_mode := True\<rparr>"
| "item_effect (Ollama_item u) opts = opts\<lparr>opt_ollama_urls := opt_ollama_urls opts @ [u]\<rparr>"
| "item_effect (Rounds_item n) opts = opts\<lparr>opt_rounds := n\<rparr>"
| "item_effect (Models_item ms) opts = opts\<lparr>opt_models := ms\<rparr>"
| "item_effect (Query_item q) opts = opts\<lparr>opt_query := q\<rparr>"
| "item_effect it opts = opts"

text \<open>Items on which the command line is refused at once.\<close>

fun stops_parsing :: "cli_item \<Rightarrow> bool" where
  "stops_parsing Help_item = True"
| "stops_parsing (Unknown_item a) = True"
| "stops_parsing it = False"

fun cli_item_ok :: "cli_item \<Rightarrow> bool" where
  "cli_item_ok (Rounds_item n) = is_int n"
| "cli_item_ok (Models_item ms) = (ms \<noteq> [] \<and> (\<forall>m\<in>set ms. CHR '','' \<notin> set m))"
| "cli_item_ok (Query_item q) = (q = [] \<or> hd q \<noteq> CHR ''-'')"
| "cli_item_ok (Unknown_item a) = (a \<noteq> [] \<and> hd a = CHR ''-'' \<and>
     a \<notin> {''--config'', ''--web'', ''--ollama'', ''--rounds'', ''--models'', ''--help''})"
| "cli_item_ok it = True"

lemma split_models_join:
  assumes "ms \<noteq> []" and "\<forall>m\<in>set ms. CHR '','' \<notin> set m"
  shows "split_models (pre @ join '','' ms) (length pre) = ms"
  using assms
proof (induction ms arbitrary: pre rule: induct_list012)
  case (2 m)
  then show ?case
    by (subst split_models.simps) (simp add: str_find_def find_sub_char_None)
next
  case (3 m m' ms)
  have "CHR '','' \<notin> set m" using 3 by simp
  then have "str_find (pre @ join '','' (m # m' # ms)) '','' (length pre) = Some (length pre + length m)"
    by (simp add: str_find_def find_sub_char)
  moreover have "split_models ((pre @ m @ '','') @ join '','' (m' # ms)) (length (pre @ m @ '','')) = m' # ms"
    using 3 by (intro 3(2)) simp_all
  ultimately show ?case
    by (subst split_models.simps) (simp add: substr_def)
qed simp

lemma parse_item_args:
  assumes "cli_item_ok it" and "\<not> stops_parsing it"
  shows "parse_args prog (item_args it @ rest) opts = parse_args prog rest (item_effect it opts)"
  using assms
proof (cases it)
  case (Rounds_item n)
  then have "stoi (show_int n) = Ret n"
    using assms stoi_show_int [of n "[]"] by simp
  with Rounds_item show ?thesis by (simp add: parse_args.simps(2))
next
  case (Models_item ms)
  then show ?thesis
    using assms split_models_join [of ms "[]"] by (simp add: parse_args.simps(2))
next
  case (Query_item q)
  then have "q \<noteq> ''--config'' \<and> q \<noteq> ''--web'' \<and> q \<noteq> ''--ollama'' \<and> q \<noteq> ''--rounds'' \<and>
      q \<noteq> ''--models'' \<and> q \<noteq> ''--help'' \<and> (q = [] \<or> hd q \<noteq> CHR ''-'')"
    using assms by auto
  with Query_item show ?thesis by (simp add: parse_args.simps(2))
qed (use assms(2) in \<open>simp_all add: parse_args.simps(2)\<close>)

lemma parse_stopping_item:
  assumes "cli_item_ok it" and "stops_parsing it"
  shows "\<exists>err. parse_args prog (item_args it @ rest) opts = (Ret None, err)"
proof (cases it)
  case (Unknown_item a)
  then have "a \<noteq> []" "hd a = CHR ''-''" "a \<noteq> ''--config''" "a \<noteq> ''--web''" "a \<noteq> ''--ollama''"
    "a \<noteq> ''--rounds''" "a \<noteq> ''--models''" "a \<noteq> ''--help''"
    using assms(1) by simp_all
  then show ?thesis by (simp add: Unknown_item parse_args.simps(2))
qed (use assms(2) in \<open>simp_all add: parse_args.simps(2)\<close>)

lemma parse_items:
  "\<forall>it\<in>set items. cli_item_ok it \<Longrightarrow>
   \<exists>err. parse_args prog (concat (map item_args items)) opts =
     (if \<exists>it\<in>set items. stops_parsing it then (Ret None, err) else (Ret (Some (fold item_effect items opts)), []))"
proof (induction items arbitrary: opts)
  case (Cons it items)
  show ?case
  proof (cases "stops_parsing it")
    case True
    then show ?thesis
      using parse_stopping_item [of it prog "concat (map item_args items)" opts] Cons.prems by simp
  next
    case False
    obtain err where "parse_args prog (concat (map item_args items)) (item_effect it opts) =
        (if \<exists>it\<in>set items. stops_parsing it then (Ret None, err)
         else (Ret (Some (fold item_effect items (item_effect it opts))), []))"
      using Cons by auto
    then show ?thesis using False Cons.prems by (intro exI [of _ err]) (simp add: parse_item_args)
  qed
qed simp

text \<open>C34: a command line made of the options of the program, \<open>--help\<close> and unknown ones among them, in
  any order and any number, is read as exactly these options, the later of two values for the same
  one counting; it is refused exactly when it holds \<open>--help\<close> or an unknown option, or has neither a
  query nor \<open>--web\<close>. A value may begin with a dash, a query may not.\<close>

theorem arguments_roundtrip:
  assumes "\<forall>it\<in>set items. cli_item_ok it"
  shows "fst (parse_arguments prog (concat (map item_args items))) =
    Ret (let opts = fold item_effect items options_default
         in if (\<exists>it\<in>set items. stops_parsing it) \<or> \<not> web_mode opts \<and> opt_query opts = [] then None
            else Some opts)"
proof -
  obtain err where "parse_args prog (concat (map item_args items)) options_default =
     (if \<exists>it\<in>set items. stops_parsing it then (Ret None, err)
      else (Ret (Some (fold item_effect items options_default)), []))"
    using parse_items [OF assms] by blast
  then show ?thesis
    by (cases "\<exists>it\<in>set items. stops_parsing it") (simp_all add: parse_arguments_def Let_def)
qed

theorem arguments_roundtrip_witness:
  "fst (parse_arguments ''tribunal''
      [''--rounds'', show_int 7, ''--models'', ''a,b'', ''--ollama'', ''http://gpu:1'', ''check'']) =
    Ret (Some (options_default\<lparr>opt_rounds := 7, opt_models := [''a'', ''b''],
      opt_ollama_urls := [''http://gpu:1''], opt_query := ''check''\<rparr>)) \<and>
   fst (parse_arguments ''tribunal'' [''check'', ''--help'']) = Ret None"
  using arguments_roundtrip [of "[Query_item ''check'', Help_item]" "''tribunal''"] arguments_roundtrip [of "[Rounds_item 7, Models_item [''a'', ''b''], Ollama_item ''http://gpu:1'',
      Query_item ''check'']" "''tribunal''"]
  by (simp add: is_int_def INT_MIN_def INT_MAX_def options_default_def)

section \<open>The end of a debate\<close>

text \<open>The first endpoint answers the request for its models with something.\<close>

definition ollama_ready :: "'w network \<Rightarrow> string \<Rightarrow> 'w \<Rightarrow> bool" where
  "ollama_ready net url w \<longleftrightarrow> curl_init_ok net w \<and>
     (case fst (perform net \<lparr>hr_method = ''GET'', hr_url = url @ ''/api/tags'',
          hr_headers = [''Content-Type: application/json''], hr_body = [], hr_timeout = 120\<rparr> w) of
        Http_reply code body \<Rightarrow> body \<noteq> []
      | Curl_error e \<Rightarrow> False)"

definition client_ready :: "'w process \<Rightarrow> configuration \<Rightarrow> 'w \<Rightarrow> bool" where
  "client_ready p cfg w \<longleftrightarrow>
     (if api_type cfg = ''ollama'' then ollama_ready (proc_net p) (hd (ollama_urls cfg)) w else True)"

lemma lowercase_types [simp]:
  "lowercase ''ollama'' = ''ollama''" "lowercase ''claude'' = ''claude''"
  "lowercase ''google-agy'' = ''google-agy''"
  by (simp_all add: lowercase_def tolower_def)

lemma ready_ollama:
  assumes "api_type cfg = ''ollama''" and "ollama_urls cfg = url # urls"
    and "\<forall>u\<in>set (ollama_urls cfg). ollama_url u"
  shows "\<exists>x. ready_client p cfg w = Ret x \<and> (client_ready p cfg w \<longleftrightarrow> (\<exists>cl. x = Inr cl))"
proof -
  have "url \<noteq> []" using assms(2,3) by (auto simp: ollama_url_def)
  moreover obtain res w' where "perform (proc_net p) \<lparr>hr_method = ''GET'', hr_url = url @ ''/api/tags'',
      hr_headers = [''Content-Type: application/json''], hr_body = [], hr_timeout = 120\<rparr> w = (res, w')"
    by fastforce
  ultimately show ?thesis
    using assms(1,2)
    by (cases res; cases "curl_init_ok (proc_net p) w")
      (simp_all add: ready_client_def client_ready_def ollama_ready_def client_from_def
        create_from_config_def new_ollama_def ollama_is_available_def ollama_make_request_def
        ollama_http_def)
qed

lemma ready_hosted:
  assumes "api_type cfg = ''claude'' \<and> claude_api_key cfg \<noteq> [] \<or>
    api_type cfg = ''google-agy'' \<and> google_agy_api_key cfg \<noteq> [] \<and> google_agy_model cfg \<noteq> []"
  shows "\<exists>cl. ready_client p cfg w = Ret (Inr cl)"
  using assms
  by (auto simp: ready_client_def client_from_def create_from_config_def new_claude_def new_google_def
      or_env_def claude_is_available_def google_is_available_def)

lemma filled:
  "google_agy_model (fill_defaults c) \<noteq> []" "ollama_urls (fill_defaults c) \<noteq> []"
  by (simp_all add: fill_defaults_def default_claude_model_def)

lemma ready_iff:
  assumes "cfg = fill_defaults c" and "get_validation_errors cfg = []"
  shows "\<exists>x. ready_client p cfg w = Ret x \<and> (client_ready p cfg w \<longleftrightarrow> (\<exists>cl. x = Inr cl))"
proof -
  obtain url urls where u: "ollama_urls cfg = url # urls"
    using filled(2) [of c] assms(1) by (cases "ollama_urls cfg") auto
  have hosted: "\<exists>x. ready_client p cfg w = Ret x \<and> (client_ready p cfg w \<longleftrightarrow> (\<exists>cl. x = Inr cl))"
    if "api_type cfg \<noteq> ''ollama''" "\<exists>cl. ready_client p cfg w = Ret (Inr cl)"
    using that by (auto simp: client_ready_def)
  from assms(2) have "api_type cfg = ''ollama'' \<and> (\<forall>u\<in>set (ollama_urls cfg). ollama_url u) \<or>
    api_type cfg = ''claude'' \<and> claude_api_key cfg \<noteq> [] \<or>
    api_type cfg = ''google-agy'' \<and> google_agy_api_key cfg \<noteq> []"
    unfolding no_validation_errors by (elim conjE)
  then show ?thesis
  proof (elim disjE conjE)
    assume a: "api_type cfg = ''ollama''" "\<forall>u\<in>set (ollama_urls cfg). ollama_url u"
    show ?thesis by (rule ready_ollama [OF a(1) u a(2)])
  next
    assume a: "api_type cfg = ''claude''" "claude_api_key cfg \<noteq> []"
    show ?thesis by (rule hosted [OF _ ready_hosted]) (simp_all add: a)
  next
    assume a: "api_type cfg = ''google-agy''" "google_agy_api_key cfg \<noteq> []"
    show ?thesis
      by (rule hosted [OF _ ready_hosted]) (use a filled(1) [of c] assms(1) in simp_all)
  qed
qed

lemma with_default_url_filled: "ollama_urls cfg \<noteq> [] \<Longrightarrow> with_default_url cfg = cfg"
  by (simp add: with_default_url_def)

lemma debate_main_ends:
  assumes "models cfg \<noteq> []" and "ollama_urls cfg \<noteq> []" and "ready_client p cfg w = Ret x"
  shows "snd (debate_main p opts cfg w) = Ret (Exits (if \<exists>cl. x = Inr cl then 0 else 1))"
    and "x = Inr cl \<Longrightarrow> fst (debate_main p opts cfg w) \<noteq> [] \<and>
      last (fst (debate_main p opts cfg w)) = (Info, ''Winner: 0'')"
proof -
  show "snd (debate_main p opts cfg w) = Ret (Exits (if \<exists>cl. x = Inr cl then 0 else 1))"
    using assms by (cases x)
      (simp_all add: debate_main_def with_default_url_filled initialize_analysts_def split: prod.split)
  assume x: "x = Inr cl"
  define c where "c = snd (initialize_analysts (Some cl) (models cfg) (new_council cfg))"
  have init: "initialize_analysts (Some cl) (models cfg) (new_council cfg) = (True, c)"
    using assms(1) by (simp add: c_def initialize_analysts_def)
  obtain result c' where r: "run_debate (proc_answers p) (opt_query opts) (rounds cfg) c = (result, c')"
    by (cases "run_debate (proc_answers p) (opt_query opts) (rounds cfg) c")
  have "final_winner result = 0"
    using fresh_result [OF init, of "proc_answers p" "opt_query opts" "rounds cfg"] r by simp
  then show "fst (debate_main p opts cfg w) \<noteq> [] \<and>
      last (fst (debate_main p opts cfg w)) = (Info, ''Winner: 0'')"
    using assms(2,3) x init r
    by (simp add: debate_main_def with_default_url_filled show_int_0)
qed

text \<open>C25: a run in debate mode whose configuration could be read exits with 0 exactly when the
  configuration is valid and, for Ollama, the first of the configured endpoints answers the
  request for its models; otherwise it exits with 1. Whenever it exits with 0, the last line of
  its log declares analyst 0 the winner, whatever the analysts answered.\<close>

theorem debate_run_outcome:
  assumes "fst (parse_arguments prog args) = Ret (Some opts)" and "\<not> web_mode opts"
    and "load (proc_env p) (config_path opts) = Ret c0"
    and "cfg = fill_defaults (override_config opts c0)"
  shows "if get_validation_errors cfg = [] \<and> client_ready p cfg w
    then snd (main_program p prog args w) = Ret (Exits 0) \<and>
      last (fst (fst (main_program p prog args w))) = (Info, ''Winner: 0'')
    else snd (main_program p prog args w) = Ret (Exits 1)"
proof -
  obtain err where pa: "parse_arguments prog args = (Ret (Some opts), err)"
    using assms(1) by (cases "parse_arguments prog args") simp
  have ad: "snd (apply_defaults (override_config opts c0)) = cfg"
    by (simp add: apply_defaults_def Let_def assms(4))
  obtain dl where adp: "apply_defaults (override_config opts c0) = (dl, cfg)"
    using ad by (cases "apply_defaults (override_config opts c0)") simp
  have main: "snd (main_program p prog args w) = snd (configured_main p opts w)"
    "fst (fst (main_program p prog args w)) = fst (configured_main p opts w)"
    using pa by (simp_all add: main_program_def split: prod.split)
  show ?thesis
  proof (cases "get_validation_errors cfg = []")
    case True
    then have v: "validate cfg = Ret True" by (simp add: validate_Ret)
    have "2 \<le> length (models cfg)" using True unfolding no_validation_errors by (elim conjE)
    then have m1: "models cfg \<noteq> []" by (metis list.size(3) not_numeral_le_zero)
    have m2: "ollama_urls cfg \<noteq> []" unfolding assms(4) by (rule filled(2))
    obtain x where x: "ready_client p cfg w = Ret x" "client_ready p cfg w \<longleftrightarrow> (\<exists>cl. x = Inr cl)"
      using ready_iff [OF assms(4) True, of p w] by (elim exE conjE) (rule that)
    note ends = debate_main_ends [OF m1 m2 x(1)]
    obtain dlogs r where d: "debate_main p opts cfg w = (dlogs, r)"
      by (cases "debate_main p opts cfg w")
    obtain first where c: "configured_main p opts w = (first @ dlogs, r)"
      using assms(2,3) adp v d
      by (simp add: configured_main_def load_or_default_def)
    show ?thesis
    proof (cases x)
      case (Inl e)
      with ends(1) [of opts] x(2) d c show ?thesis by (simp add: main)
    next
      case (Inr cl)
      with Inr ends(1) [of opts] ends(2) [OF Inr, of opts] x(2) d c show ?thesis
        by (simp add: main True)
    qed
  next
    case False
    then obtain msg where "validate cfg = Throw (Exn Config_validation_error msg)"
      by (auto simp: validate_def Let_def validation_error_def)
    with False assms(3) adp show ?thesis
      by (simp add: main configured_main_def load_or_default_def)
  qed
qed

text \<open>A process with no files and no environment, whose only endpoint answers.\<close>

definition local_process :: "unit process" where
  "local_process = \<lparr>proc_env = \<lparr>getenv = (\<lambda>_. None), read_file = (\<lambda>_. None), gcloud_output = None\<rparr>,
     proc_net = \<lparr>curl_init_ok = (\<lambda>_. True), perform = (\<lambda>_ w. (Http_reply 200 ''x'', w))\<rparr>,
     proc_answers = (\<lambda>_ _ _ _. Inr (text_response ''fine'')),
     socket_ok = True, bind_ok = True, listen_ok = True\<rparr>"

theorem debate_run_outcome_witness:
  "snd (main_program local_process ''tribunal'' [''check''] ()) = Ret (Exits 0)"
proof -
  let ?opts = "options_default\<lparr>opt_query := ''check''\<rparr>"
  let ?cfg = "fill_defaults (override_config ?opts configuration_default)"
  have "fst (parse_arguments ''tribunal'' [''check'']) = Ret (Some ?opts)"
    by (simp add: parse_arguments_def parse_args.simps(2) options_default_def)
  moreover have "load (proc_env local_process) (config_path ?opts) = Ret configuration_default"
    by (simp add: load_def local_process_def apply_env_overrides_def claude_key_from_env_def
        nonempty_env_def read_claude_cli_credentials_def google_key_from_env_def
        read_gcloud_credentials_def read_gcloud_project_def configuration_default_def Let_def)
  moreover have "get_validation_errors ?cfg = []"
    unfolding no_validation_errors
    by (simp add: fill_defaults_def override_config_def configuration_default_def default_models_def
        options_default_def localhost_url)
  moreover have "client_ready local_process ?cfg ()"
    by (simp add: client_ready_def ollama_ready_def local_process_def)
  ultimately show ?thesis
    using debate_run_outcome [of "''tribunal''" "[''check'']" ?opts local_process configuration_default
        ?cfg "()"] by (simp add: options_default_def)
qed

end
