(* ===== verification/C_Text.thy ===== *)
theory C_Text
  imports Cpp_Numbers
begin

text \<open>
  Text as the C part of the program (\<open>tribunal_http.c\<close>) handles it: byte arrays closed by a NUL,
  what \<open>strstr\<close> and \<open>sscanf\<close> take out of them, \<open>snprintf\<close> into a bounded array, and
  \<open>escape_json_string\<close> with its two bounds: the target it may fill and the array it may read.
\<close>

section \<open>Arrays and scanning\<close>

abbreviation NUL :: char where
  "NUL \<equiv> CHR 0x00"

definition c_str :: "string \<Rightarrow> string" where
  "c_str buf = takeWhile (\<lambda>c. c \<noteq> NUL) buf"

text \<open>\<open>strstr(s, key) + strlen(key)\<close>.\<close>

definition after_text :: "string \<Rightarrow> string \<Rightarrow> string option" where
  "after_text key s = map_option (\<lambda>i. drop (i + length key) s) (find_sub key s)"

text \<open>\<open>sscanf(s, "\"%n[^\"]\"", v)\<close>; \<open>None\<close> leaves \<open>v\<close> as it was.\<close>

fun scan_quoted :: "nat \<Rightarrow> string \<Rightarrow> string option" where
  "scan_quoted n [] = None"
| "scan_quoted n (c # s) =
     (let v = take n (takeWhile (\<lambda>c. c \<noteq> quote) s)
      in if c = quote \<and> v \<noteq> [] then Some v else None)"

text \<open>A field of a JSON body, as every handler looks for it.\<close>

definition scan_field :: "nat \<Rightarrow> string \<Rightarrow> string \<Rightarrow> string \<Rightarrow> string" where
  "scan_field n key old body =
     (case Option.bind (after_text key body) (scan_quoted n) of None \<Rightarrow> old | Some v \<Rightarrow> v)"

text \<open>\<open>%d\<close>: \<open>None\<close> when there is no number; a number that does not fit is undefined in C.\<close>

definition scan_int :: "string \<Rightarrow> int option outcome" where
  "scan_int s =
     (case strtol 10 s of
        None \<Rightarrow> Ret None
      | Some v \<Rightarrow> if is_int v then Ret (Some v) else Undef ''number out of range in sscanf'')"

definition scan_int_field :: "string \<Rightarrow> int \<Rightarrow> string \<Rightarrow> int outcome" where
  "scan_int_field key old body =
     (case after_text key body of
        None \<Rightarrow> Ret old
      | Some r \<Rightarrow> omap (\<lambda>v. case v of None \<Rightarrow> old | Some i \<Rightarrow> i) (scan_int r))"

text \<open>\<open>%ns\<close>: skip blanks, take at most \<open>n\<close> other characters.\<close>

definition scan_word :: "nat \<Rightarrow> string \<Rightarrow> (string \<times> string) option" where
  "scan_word n s =
     (let r = dropWhile isspace s; w = take n (takeWhile (\<lambda>c. \<not> isspace c) r)
      in if w = [] then None else Some (w, drop (length w) r))"

definition snprintf :: "nat \<Rightarrow> string \<Rightarrow> string" where
  "snprintf cap s = take (cap - 1) s"

text \<open>\<open>%.2f\<close>.\<close>

definition show_fixed2 :: "rat \<Rightarrow> string" where
  "show_fixed2 r =
     (let n = nat (round_half_even (\<bar>r\<bar> * 100))
      in (if r < 0 then ''-'' else []) @ show_nat (n div 100) @ ''.'' @ pad_zeros 2 (show_nat (n mod 100)))"

lemma scan_quoted_bounded: "scan_quoted n s = Some v \<Longrightarrow> length v \<le> n \<and> v \<noteq> [] \<and> quote \<notin> set v"
  by (cases s) (auto simp: Let_def split: if_splits dest!: in_set_takeD set_takeWhileD)

lemma scan_field_bounded: "length old \<le> n \<Longrightarrow> length (scan_field n key old body) \<le> n"
  by (auto simp: scan_field_def bind_eq_Some_conv dest: scan_quoted_bounded split: option.split)

lemma scan_word_bounded: "scan_word n s = Some (w, r) \<Longrightarrow> length w \<le> n \<and> w \<noteq> []"
  by (auto simp: scan_word_def Let_def split: if_splits)

lemma length_snprintf: "length (snprintf cap s) \<le> cap - 1"
  by (simp add: snprintf_def)

lemma snprintf_fits: "length s < cap \<Longrightarrow> snprintf cap s = s"
  by (simp add: snprintf_def)

section \<open>escape_json_string\<close>

abbreviation ESC :: char where
  "ESC \<equiv> CHR 0x1B"

abbreviation backslash :: char where
  "backslash \<equiv> CHR 0x5C"

definition escape_char :: "char \<Rightarrow> string" where
  "escape_char c =
     (if c = quote then [backslash, quote]
      else if c = backslash then [backslash, backslash]
      else if c = newline then [backslash, CHR ''n'']
      else if c = CHR 0x09 then [backslash, CHR ''t'']
      else if c = CHR 0x0D then [backslash, CHR ''r'']
      else [c])"

text \<open>One character into a target of \<open>cap\<close> bytes: an escape is skipped when it does not fit.\<close>

definition put_escaped :: "nat \<Rightarrow> string \<Rightarrow> string \<Rightarrow> string" where
  "put_escaped cap e out = (if length e = 1 \<or> length out + 2 < cap then out @ e else out)"

text \<open>
  The array \<open>src\<close> from the current index on, and the text written. The index steps over the NUL
  when an ANSI sequence is not closed by an \<open>m\<close>, and then goes on reading; behind the end of
  the array this is undefined.
\<close>

function escape_loop :: "nat \<Rightarrow> string \<Rightarrow> string \<Rightarrow> string outcome" where
  "escape_loop cap [] out = Undef ''read behind the array''"
| "escape_loop cap (c # s) out =
     (if c = NUL \<or> cap \<le> length out + 1 then Ret out
      else if c = ESC \<and> s = [] then Undef ''read behind the array''
      else if c = ESC \<and> hd s = CHR ''[''
      then (case dropWhile (\<lambda>c. c \<noteq> NUL \<and> c \<noteq> CHR ''m'') (tl s) of
              [] \<Rightarrow> Undef ''read behind the array''
            | _ # r \<Rightarrow> escape_loop cap r out)
      else escape_loop cap s (put_escaped cap (escape_char c) out))"
  by pat_completeness auto
termination
proof (relation "measure (\<lambda>(cap, src, out). length src)")
  fix cap :: nat and c d :: char and s r out :: string
  assume "dropWhile (\<lambda>c. c \<noteq> NUL \<and> c \<noteq> CHR ''m'') (tl s) = d # r"
  then have "length (d # r) \<le> length (tl s)" using length_dropWhile_le by metis
  then show "((cap, r, out), cap, c # s, out) \<in> measure (\<lambda>(cap, src, out). length src)" by simp
qed simp_all

declare escape_loop.simps [simp del]

definition escape_json_string :: "nat \<Rightarrow> string \<Rightarrow> string outcome" where
  "escape_json_string cap src = escape_loop cap src []"

text \<open>What it means to produce: the text without its ANSI sequences, escaped.\<close>

function strip_ansi :: "string \<Rightarrow> string" where
  "strip_ansi [] = []"
| "strip_ansi (c # s) =
     (if c = ESC \<and> s \<noteq> [] \<and> hd s = CHR ''[''
      then strip_ansi (drop 1 (dropWhile (\<lambda>c. c \<noteq> CHR ''m'') (tl s)))
      else c # strip_ansi s)"
  by pat_completeness auto
termination
proof (relation "measure length")
  fix c :: char and s :: string
  have "length (dropWhile (\<lambda>c. c \<noteq> CHR ''m'') (tl s)) \<le> length (tl s)" by (rule length_dropWhile_le)
  then show "(drop 1 (dropWhile (\<lambda>c. c \<noteq> CHR ''m'') (tl s)), c # s) \<in> measure length" by simp
qed simp_all

function ansi_closed :: "string \<Rightarrow> bool" where
  "ansi_closed [] = True"
| "ansi_closed (c # s) =
     (if c = ESC \<and> s \<noteq> [] \<and> hd s = CHR ''[''
      then CHR ''m'' \<in> set (tl s) \<and> ansi_closed (drop 1 (dropWhile (\<lambda>c. c \<noteq> CHR ''m'') (tl s)))
      else ansi_closed s)"
  by pat_completeness auto
termination
proof (relation "measure length")
  fix c :: char and s :: string
  have "length (dropWhile (\<lambda>c. c \<noteq> CHR ''m'') (tl s)) \<le> length (tl s)" by (rule length_dropWhile_le)
  then show "(drop 1 (dropWhile (\<lambda>c. c \<noteq> CHR ''m'') (tl s)), c # s) \<in> measure length" by simp
qed simp_all

declare strip_ansi.simps(2) [simp del] ansi_closed.simps(2) [simp del]

definition escape_text :: "string \<Rightarrow> string" where
  "escape_text s = concat (map escape_char s)"

text \<open>Both stop on an empty text; the target is never overrun and always has room for its NUL.\<close>

lemma length_escape_char: "length (escape_char c) = 1 \<or> length (escape_char c) = 2"
  by (simp add: escape_char_def)

lemma put_escaped_bounded:
  "\<not> cap \<le> length out + 1 \<Longrightarrow> length (put_escaped cap (escape_char c) out) < cap"
  using length_escape_char [of c] by (auto simp: put_escaped_def)

lemma escape_loop_invariant:
  assumes "escape_loop cap src out = Ret r" and "P out"
    and "\<And>c t. c \<noteq> NUL \<Longrightarrow> \<not> cap \<le> length t + 1 \<Longrightarrow> P t \<Longrightarrow> P (put_escaped cap (escape_char c) t)"
  shows "P r"
  using assms
proof (induction cap src out rule: escape_loop.induct)
  case (2 cap c s out)
  consider "c = NUL \<or> cap \<le> length out + 1"
    | d r' where "\<not> (c = NUL \<or> cap \<le> length out + 1)" "c = ESC" "s \<noteq> []" "hd s = CHR ''[''"
        "dropWhile (\<lambda>c. c \<noteq> NUL \<and> c \<noteq> CHR ''m'') (tl s) = d # r'" "escape_loop cap r' out = Ret r"
    | "\<not> (c = NUL \<or> cap \<le> length out + 1)" "\<not> (c = ESC \<and> s = [])" "\<not> (c = ESC \<and> hd s = CHR ''['')"
        "escape_loop cap s (put_escaped cap (escape_char c) out) = Ret r"
    using "2.prems"(1) by (subst (asm) escape_loop.simps) (auto split: if_splits list.splits)
  then show ?case
  proof cases
    case 1
    then show ?thesis using "2.prems" by (subst (asm) escape_loop.simps) auto
  next
    case 2
    then show ?thesis using "2.IH"(1) "2.prems"(2,3) by auto
  next
    case 3
    then have "c \<noteq> NUL" and "\<not> cap \<le> length out + 1" by blast+
    then have "P (put_escaped cap (escape_char c) out)" by (rule "2.prems"(3) [OF _ _ "2.prems"(2)])
    then show ?thesis by (rule "2.IH"(2) [OF 3]) (rule "2.prems"(3))
  qed
qed (simp add: escape_loop.simps)

lemma escape_loop_bounded:
  "escape_loop cap src out = Ret r \<Longrightarrow> length out < cap \<Longrightarrow> length r < cap"
  by (erule escape_loop_invariant [where P = "\<lambda>t. length t < cap"]) (auto intro: put_escaped_bounded)

lemma escape_json_bounded: "escape_json_string cap src = Ret r \<Longrightarrow> 0 < cap \<Longrightarrow> length r < cap"
  using escape_loop_bounded [of cap src "[]" r] by (simp add: escape_json_string_def)

lemma escape_loop_outcome: "(\<exists>r. escape_loop cap src out = Ret r) \<or> (\<exists>u. escape_loop cap src out = Undef u)"
proof (induction cap src out rule: escape_loop.induct)
  case (2 cap c s out)
  then show ?case
    by (subst (1 2) escape_loop.simps) (auto split: list.split)
qed (simp add: escape_loop.simps)

lemma escape_char_no_NUL: "c \<noteq> NUL \<Longrightarrow> NUL \<notin> set (escape_char c)"
  by (auto simp: escape_char_def)

lemma escape_loop_no_NUL:
  "escape_loop cap src out = Ret r \<Longrightarrow> NUL \<notin> set out \<Longrightarrow> NUL \<notin> set r"
  by (rule escape_loop_invariant [where P = "\<lambda>t. NUL \<notin> set t"])
    (simp_all add: put_escaped_def escape_char_no_NUL)

lemma closing_m:
  "x \<in> set b \<Longrightarrow> b = takeWhile (\<lambda>c. c \<noteq> x) b @ x # drop 1 (dropWhile (\<lambda>c. c \<noteq> x) b)"
  by (induction b) auto

lemma escape_loop_correct:
  "NUL \<notin> set s \<Longrightarrow> ansi_closed s \<Longrightarrow> length out + length (escape_text (strip_ansi s)) < cap \<Longrightarrow>
   escape_loop cap (s @ NUL # rest) out = Ret (out @ escape_text (strip_ansi s))"
proof (induction s arbitrary: out rule: strip_ansi.induct)
  case 1
  show ?case by (simp add: escape_loop.simps escape_text_def)
next
  case (2 c s)
  show ?case
  proof (cases "c = ESC \<and> s \<noteq> [] \<and> hd s = CHR ''[''")
    case True
    then obtain b where s: "s = CHR ''['' # b" by (cases s) auto
    define r where "r = drop 1 (dropWhile (\<lambda>c. c \<noteq> CHR ''m'') b)"
    from "2.prems"(2) True have m: "CHR ''m'' \<in> set b" and closed: "ansi_closed r"
      by (simp_all add: s r_def ansi_closed.simps)
    have b: "b = takeWhile (\<lambda>c. c \<noteq> CHR ''m'') b @ CHR ''m'' # r"
      using closing_m [OF m] by (simp add: r_def)
    have skip: "dropWhile (\<lambda>c. c \<noteq> NUL \<and> c \<noteq> CHR ''m'') (b @ NUL # rest) = CHR ''m'' # r @ NUL # rest"
      using "2.prems"(1) set_takeWhileD
      by (subst b, subst append_assoc, subst dropWhile_append2) (fastforce simp: s)+
    have "NUL \<notin> set r" using "2.prems"(1) b s by (metis UnCI list.set_intros(2) set_append)
    moreover have "strip_ansi (c # s) = strip_ansi r" using True by (simp add: r_def s strip_ansi.simps)
    ultimately have "escape_loop cap (r @ NUL # rest) out = Ret (out @ escape_text (strip_ansi (c # s)))"
      using "2.IH"(1) [OF True] "2.prems"(3) closed by (simp add: r_def s)
    moreover have "escape_loop cap ((c # s) @ NUL # rest) out = escape_loop cap (r @ NUL # rest) out"
      if "length out + 1 < cap"
      unfolding append_Cons by (subst escape_loop.simps) (use True that skip in \<open>simp add: s\<close>)
    moreover have "escape_loop cap ((c # s) @ NUL # rest) out = Ret out" if "\<not> length out + 1 < cap"
      unfolding append_Cons by (subst escape_loop.simps) (use that in simp)
    moreover have "escape_text (strip_ansi (c # s)) = []" if "\<not> length out + 1 < cap"
      using "2.prems"(3) that by (cases "escape_text (strip_ansi (c # s))") simp_all
    ultimately show ?thesis by (cases "length out + 1 < cap") simp_all
  next
    case False
    then have eq: "strip_ansi (c # s) = c # strip_ansi s" and closed: "ansi_closed s"
      using "2.prems"(2) by (auto simp: strip_ansi.simps ansi_closed.simps)
    have room: "length out + length (escape_char c) + length (escape_text (strip_ansi s)) < cap"
      using "2.prems"(3) by (simp add: eq escape_text_def)
    then have "length out + 1 < cap" and put: "put_escaped cap (escape_char c) out = out @ escape_char c"
      using length_escape_char [of c] by (auto simp: put_escaped_def)
    moreover have "escape_loop cap (s @ NUL # rest) (out @ escape_char c) =
        Ret (out @ escape_char c @ escape_text (strip_ansi s))"
      using "2.IH"(2) [OF False] "2.prems"(1) closed room by simp
    moreover have "hd (s @ NUL # rest) = CHR ''['' \<Longrightarrow> s \<noteq> [] \<and> hd s = CHR ''[''" by (cases s) auto
    moreover have "escape_text (strip_ansi (c # s)) = escape_char c @ escape_text (strip_ansi s)"
      by (simp add: eq escape_text_def)
    ultimately show ?thesis unfolding append_Cons
      by (subst escape_loop.simps) (use False "2.prems"(1) in auto)
  qed
qed

text \<open>Behind an ANSI sequence that is not closed the loop goes on after the NUL.\<close>

lemma escape_loop_leaks:
  assumes "NUL \<notin> set b" "CHR ''m'' \<notin> set b" "length out + 1 < cap"
  shows "escape_loop cap (ESC # CHR ''['' # b @ NUL # rest) out = escape_loop cap rest out"
proof -
  have "dropWhile (\<lambda>c. c \<noteq> NUL \<and> c \<noteq> CHR ''m'') (b @ NUL # rest) = NUL # rest"
    using assms(1,2) by (subst dropWhile_append2) auto
  with assms(3) show ?thesis by (subst escape_loop.simps) simp
qed

section \<open>Reading escapes back\<close>

text \<open>The escapes of a JSON string that the server writes.\<close>

fun unescape :: "string \<Rightarrow> string option" where
  "unescape [] = Some []"
| "unescape [c] = (if c = backslash \<or> c = quote then None else Some [c])"
| "unescape (c # d # s) =
     (if c = quote then None
      else if c = backslash
      then map_option ((#) (if d = CHR ''n'' then newline else if d = CHR ''t'' then CHR 0x09
             else if d = CHR ''r'' then CHR 0x0D else d)) (unescape s)
      else map_option ((#) c) (unescape (d # s)))"

lemma unescape_plain: "c \<noteq> backslash \<Longrightarrow> c \<noteq> quote \<Longrightarrow> unescape (c # s) = map_option ((#) c) (unescape s)"
  by (cases s) simp_all

lemma unescape_escape_char: "unescape (escape_char c @ s) = map_option ((#) c) (unescape s)"
  by (auto simp: escape_char_def newline_def unescape_plain)

lemma unescape_escape_text: "unescape (escape_text s) = Some s"
  by (induction s) (simp_all add: escape_text_def unescape_escape_char)

end
