(* ===== verification/Task_Jobs.thy ===== *)
theory Task_Jobs
  imports C_Text Job_Store
begin

text \<open>
  The jobs of \<open>tribunal_http.c\<close>: an array of 32 slots, taken under \<open>jobs_mutex\<close>, and filled by
  the thread that runs the command of the job. A pointer to a job is the index of its slot.
  Only the bytes of \<open>output\<close> below \<open>output_size\<close> are kept, for nothing else is read.
\<close>

record exec_job =
  ej_id :: int
  ej_task :: int
  ej_command :: string
  ej_output :: string
  ej_status :: int
  ej_success :: int
  ej_duration :: int
  ej_memory :: int
  ej_start :: int

record job_table =
  jt_slots :: "exec_job list"
  jt_next :: int

definition MAX_JOBS :: nat where
  "MAX_JOBS = 32"

definition OUTPUT_SIZE :: nat where
  "OUTPUT_SIZE = 16384"

definition free_slot :: exec_job where
  "free_slot = \<lparr>ej_id = - 1, ej_task = 0, ej_command = [], ej_output = [], ej_status = 0,
     ej_success = 0, ej_duration = 0, ej_memory = 0, ej_start = 0\<rparr>"

text \<open>The initial value of \<open>next_job_id\<close> is that of the static variable.\<close>

definition init_jobs :: job_table where
  "init_jobs = \<lparr>jt_slots = replicate MAX_JOBS free_slot, jt_next = 1\<rparr>"

section \<open>Operations\<close>

definition find_slot :: "int \<Rightarrow> job_table \<Rightarrow> nat option" where
  "find_slot i t = find (\<lambda>k. ej_id (jt_slots t ! k) = i) [0..<length (jt_slots t)]"

definition take_slot :: "int \<Rightarrow> int \<Rightarrow> string \<Rightarrow> job_table \<Rightarrow> nat option \<times> job_table" where
  "take_slot now task command t =
     (case find_slot (- 1) t of
        None \<Rightarrow> (None, t)
      | Some k \<Rightarrow>
          (Some k,
           t\<lparr>jt_slots := (jt_slots t)[k := (jt_slots t ! k)
                \<lparr>ej_id := jt_next t, ej_task := task, ej_status := 0, ej_output := [],
                 ej_start := now, ej_command := take 511 command\<rparr>],
             jt_next := jt_next t + 1\<rparr>))"

text \<open>What the thread of a job does to it: the callback of the sandbox for each piece of output, and
  the end of the command.\<close>

datatype job_event = Chunk string | Finished int int int

definition append_output :: "string \<Rightarrow> exec_job \<Rightarrow> exec_job" where
  "append_output d j =
     (if length (ej_output j) + length d < OUTPUT_SIZE - 1
      then j\<lparr>ej_output := ej_output j @ d\<rparr> else j)"

fun apply_event :: "job_event \<Rightarrow> exec_job \<Rightarrow> exec_job" where
  "apply_event (Chunk d) j = append_output d j"
| "apply_event (Finished success duration memory) j =
     j\<lparr>ej_status := 1, ej_success := success, ej_duration := duration, ej_memory := memory\<rparr>"

definition slot_event :: "nat \<Rightarrow> job_event \<Rightarrow> job_table \<Rightarrow> job_table" where
  "slot_event k e t = t\<lparr>jt_slots := (jt_slots t)[k := apply_event e (jt_slots t ! k)]\<rparr>"

definition get_slot :: "job_table \<Rightarrow> nat \<Rightarrow> exec_job option" where
  "get_slot t k = (if k < length (jt_slots t) then Some (jt_slots t ! k) else None)"

interpretation cj: job_store get_slot slot_event apply_event "\<lambda>t. True"
  by unfold_locales (auto simp: get_slot_def slot_event_def)

section \<open>The table\<close>

text \<open>The slots that are in use come first and carry the numbers 1, 2, 3 and so on.\<close>

definition used_slots :: "job_table \<Rightarrow> nat" where
  "used_slots t = nat (jt_next t - 1)"

definition slot_ok :: "nat \<Rightarrow> nat \<Rightarrow> exec_job \<Rightarrow> bool" where
  "slot_ok n k j \<longleftrightarrow>
     (if k < n then ej_id j = int k + 1 else j = free_slot) \<and>
     length (ej_output j) < OUTPUT_SIZE - 1 \<and> length (ej_command j) \<le> 511 \<and> ej_status j \<in> {0, 1}"

definition slots_ok :: "job_table \<Rightarrow> bool" where
  "slots_ok t \<longleftrightarrow>
     length (jt_slots t) = MAX_JOBS \<and> 1 \<le> jt_next t \<and> jt_next t \<le> int MAX_JOBS + 1 \<and>
     (\<forall>k<MAX_JOBS. slot_ok (used_slots t) k (jt_slots t ! k))"

lemma slots_ok_init: "slots_ok init_jobs"
  by (simp add: slots_ok_def init_jobs_def used_slots_def slot_ok_def free_slot_def MAX_JOBS_def
      OUTPUT_SIZE_def)

lemma table_slot: "slots_ok t \<Longrightarrow> k < MAX_JOBS \<Longrightarrow> slot_ok (used_slots t) k (jt_slots t ! k)"
  by (simp add: slots_ok_def)

lemma find_upt: "m < n \<Longrightarrow> P m \<Longrightarrow> (\<And>i. i < m \<Longrightarrow> \<not> P i) \<Longrightarrow> find P [0..<n] = Some m"
  by (auto simp: find_Some_iff intro!: exI [of _ m])

lemma find_upt_None: "(\<And>i. i < n \<Longrightarrow> \<not> P i) \<Longrightarrow> find P [0..<n] = None"
  by (simp add: find_None_iff)

lemma find_slot_used:
  assumes ok: "slots_ok t"
  shows "find_slot i t = (if 1 \<le> i \<and> i < jt_next t then Some (nat i - 1)
           else if i = - 1 \<and> used_slots t < MAX_JOBS then Some (used_slots t) else None)"
proof -
  have len: "length (jt_slots t) = MAX_JOBS" and le: "used_slots t \<le> MAX_JOBS"
    and nxt: "jt_next t = int (used_slots t) + 1"
    using ok by (auto simp: slots_ok_def used_slots_def)
  have id: "ej_id (jt_slots t ! k) = (if k < used_slots t then int k + 1 else - 1)" if "k < MAX_JOBS" for k
    using table_slot [OF ok that] by (auto simp: slot_ok_def free_slot_def split: if_splits)
  consider "1 \<le> i \<and> i < jt_next t" | "i = - 1" | "\<not> (1 \<le> i \<and> i < jt_next t)" "i \<noteq> - 1" by blast
  then show ?thesis
  proof cases
    case 1
    have "ej_id (jt_slots t ! (nat i - 1)) = i"
      using 1 le nxt by (subst id) auto
    moreover have "ej_id (jt_slots t ! m) \<noteq> i" if "m < nat i - 1" for m
      using 1 le nxt that by (subst id) auto
    moreover have "nat i - 1 < MAX_JOBS" using 1 le nxt by auto
    ultimately have "find_slot i t = Some (nat i - 1)"
      unfolding find_slot_def len by (intro find_upt) simp_all
    with 1 show ?thesis by simp
  next
    case 2
    show ?thesis
    proof (cases "used_slots t < MAX_JOBS")
      case True
      have "find_slot i t = Some (used_slots t)"
        unfolding find_slot_def len by (rule find_upt) (use 2 True in \<open>auto simp: id\<close>)
      with True 2 show ?thesis by simp
    next
      case False
      have "find_slot i t = None"
        unfolding find_slot_def len by (rule find_upt_None) (use 2 False in \<open>auto simp: id\<close>)
      with False 2 show ?thesis by simp
    qed
  next
    case 3
    have "find_slot i t = None"
      unfolding find_slot_def len by (rule find_upt_None) (use 3 nxt in \<open>auto simp: id\<close>)
    with 3 show ?thesis by auto
  qed
qed

lemma take_slot_full:
  "slots_ok t \<Longrightarrow> used_slots t = MAX_JOBS \<Longrightarrow> take_slot now task command t = (None, t)"
  by (simp add: take_slot_def find_slot_used)

lemma take_slot_next:
  assumes ok: "slots_ok t" and room: "used_slots t < MAX_JOBS"
  shows "\<exists>t'. take_slot now task command t = (Some (used_slots t), t') \<and> slots_ok t' \<and>
           used_slots t' = Suc (used_slots t)"
proof -
  define t' where "t' = snd (take_slot now task command t)"
  have nxt: "1 \<le> jt_next t" "jt_next t = int (used_slots t) + 1" and len: "length (jt_slots t) = MAX_JOBS"
    using ok by (auto simp: slots_ok_def used_slots_def)
  have eq: "take_slot now task command t = (Some (used_slots t), t')"
    using room nxt by (simp add: t'_def take_slot_def find_slot_used [OF ok])
  have next': "jt_next t' = jt_next t + 1"
    using room nxt by (simp add: t'_def take_slot_def find_slot_used [OF ok])
  then have used: "used_slots t' = Suc (used_slots t)"
    using nxt(1) unfolding used_slots_def by simp
  have slots: "jt_slots t' = (jt_slots t)[used_slots t := (jt_slots t ! used_slots t)
      \<lparr>ej_id := jt_next t, ej_task := task, ej_status := 0, ej_output := [],
       ej_start := now, ej_command := take 511 command\<rparr>]"
    using room nxt by (simp add: t'_def take_slot_def find_slot_used [OF ok])
  have "slot_ok (Suc (used_slots t)) k (jt_slots t' ! k)" if k: "k < MAX_JOBS" for k
  proof (cases "k = used_slots t")
    case True
    have "jt_next t = int k + 1" using nxt(2) True by simp
    then show ?thesis using room len by (simp add: slots slot_ok_def OUTPUT_SIZE_def True)
  next
    case False
    then have "jt_slots t' ! k = jt_slots t ! k" by (simp add: slots)
    moreover have "k < Suc (used_slots t) \<longleftrightarrow> k < used_slots t" using False by auto
    ultimately show ?thesis using table_slot [OF ok k] by (simp add: slot_ok_def)
  qed
  moreover have "length (jt_slots t') = MAX_JOBS" using len by (simp add: slots)
  ultimately have "slots_ok t'" using room nxt next' by (simp add: slots_ok_def used)
  with eq used show ?thesis by blast
qed

lemma take_slot_ok: "slots_ok t \<Longrightarrow> take_slot now task command t = (r, t') \<Longrightarrow> slots_ok t'"
proof (cases "used_slots t < MAX_JOBS")
  case False
  assume "slots_ok t" "take_slot now task command t = (r, t')"
  moreover from this False have "used_slots t = MAX_JOBS" by (auto simp: slots_ok_def used_slots_def)
  ultimately show ?thesis using take_slot_full by simp
next
  case True
  assume "slots_ok t" "take_slot now task command t = (r, t')"
  with take_slot_next [OF this(1) True, of now task command] show ?thesis by auto
qed

lemma slot_event_ok:
  assumes ok: "slots_ok t" and k: "k < used_slots t"
  shows "slots_ok (slot_event k e t)" and "used_slots (slot_event k e t) = used_slots t"
proof -
  show used: "used_slots (slot_event k e t) = used_slots t" by (simp add: used_slots_def slot_event_def)
  have le: "used_slots t \<le> MAX_JOBS" using ok by (auto simp: slots_ok_def used_slots_def)
  have "slot_ok (used_slots t) k (apply_event e (jt_slots t ! k))"
    using table_slot [OF ok, of k] k le
    by (cases e) (auto simp: slot_ok_def append_output_def)
  then show "slots_ok (slot_event k e t)"
    using ok k le unfolding slots_ok_def used by (auto simp: slot_event_def nth_list_update)
qed

section \<open>Output\<close>

text \<open>The output of a job is what its thread delivered when all of it fits; a piece that does not fit
  is lost as a whole and the following ones may still be stored.\<close>

definition chunks :: "job_event list \<Rightarrow> string" where
  "chunks es = concat (map (\<lambda>e. case e of Chunk d \<Rightarrow> d | _ \<Rightarrow> []) es)"

lemma output_complete:
  "length (ej_output j) + length (chunks es) < OUTPUT_SIZE - 1 \<Longrightarrow>
   ej_output (fold apply_event es j) = ej_output j @ chunks es"
proof (induction es arbitrary: j)
  case (Cons e es)
  then show ?case by (cases e) (simp_all add: chunks_def append_output_def)
qed (simp add: chunks_def)

lemma output_subseq: "subseq (ej_output (fold apply_event es j)) (ej_output j @ chunks es)"
proof (induction es arbitrary: j)
  case (Cons e es)
  have "subseq (ej_output (apply_event e j) @ chunks es) (ej_output j @ chunks (e # es))"
    by (cases e) (auto simp: chunks_def append_output_def subseq_append' intro: list_emb_append2)
  with Cons.IH [of "apply_event e j"] show ?case by (auto intro: subseq_order.trans)
qed (simp add: chunks_def)

lemma output_bounded:
  "length (ej_output j) < OUTPUT_SIZE - 1 \<Longrightarrow> length (ej_output (fold apply_event es j)) < OUTPUT_SIZE - 1"
proof (induction es arbitrary: j)
  case (Cons e es)
  then show ?case by (cases e) (simp_all add: append_output_def)
qed simp

end
