(* ===== verification/Task_Server.thy ===== *)
theory Task_Server
  imports Task_Jobs Http_Messages
begin

text \<open>
  The task server of \<open>tribunal_http.c\<close>: its handlers and its routing. The task list, the query and
  patch functions and the sandbox are declared in \<open>tribunal_tasks.h\<close>, \<open>tribunal_query.h\<close>,
  \<open>tribunal_response.h\<close>, \<open>tribunal_patcher.h\<close> and \<open>tribunal_sandbox.h\<close> and defined elsewhere; they
  are the record \<open>task_library\<close> that the handlers take, and act on a world of their own. A
  handler gives the message it sends and the state it leaves.
\<close>

section \<open>Data of the headers\<close>

datatype task_status = TASK_PENDING | TASK_RUNNING | TASK_DONE | TASK_FAILED | TASK_PAUSED

record c_task =
  ct_id :: int
  ct_name :: string
  ct_status :: task_status
  ct_created_at :: int
  ct_started_at :: int
  ct_completed_at :: int
  ct_progress_percent :: int
  ct_details :: string
  ct_priority :: int

record task_list =
  tl_tasks :: "c_task list"
  tl_count :: int

datatype query_intent =
  QUERY_STATUS | QUERY_PROGRESS | QUERY_METRICS | QUERY_RECOMMENDATIONS | QUERY_ROADMAP | QUERY_HELP
| QUERY_HISTORY | QUERY_CACHE | QUERY_COMPLEXITY | QUERY_DEADCODE | QUERY_EXPLAIN | QUERY_PLAN
| QUERY_TASKS | QUERY_TASK_ACTION | QUERY_UNKNOWN

fun intent_number :: "query_intent \<Rightarrow> int" where
  "intent_number QUERY_STATUS = 0"
| "intent_number QUERY_PROGRESS = 1"
| "intent_number QUERY_METRICS = 2"
| "intent_number QUERY_RECOMMENDATIONS = 3"
| "intent_number QUERY_ROADMAP = 4"
| "intent_number QUERY_HELP = 5"
| "intent_number QUERY_HISTORY = 6"
| "intent_number QUERY_CACHE = 7"
| "intent_number QUERY_COMPLEXITY = 8"
| "intent_number QUERY_DEADCODE = 9"
| "intent_number QUERY_EXPLAIN = 10"
| "intent_number QUERY_PLAN = 11"
| "intent_number QUERY_TASKS = 12"
| "intent_number QUERY_TASK_ACTION = 13"
| "intent_number QUERY_UNKNOWN = 14"

record c_query =
  cq_intent :: query_intent
  cq_query :: string
  cq_context :: string
  cq_metric :: string
  cq_subject :: string
  cq_week :: int
  cq_round :: int
  cq_confidence :: int
  cq_debug_info :: string

text \<open>The arrays that \<open>escape_json_string\<close> reads are kept whole, with what is behind their NUL.\<close>

record c_response =
  cr_content :: string
  cr_source :: string
  cr_confidence :: rat
  cr_execution_time :: int

record patch_result =
  pr_file_path :: string
  pr_original_content :: string
  pr_patched_content :: string
  pr_diff :: string
  pr_success :: int
  pr_error_message :: string

record apply_result =
  ar_patch_content :: string
  ar_file_path :: string
  ar_test_passed :: int
  ar_test_output :: string
  ar_git_commit :: string

record 'w task_library =
  lib_task_create :: "task_list \<Rightarrow> string \<Rightarrow> int \<Rightarrow> 'w \<Rightarrow> int \<times> task_list \<times> 'w"
  lib_task_get :: "task_list \<Rightarrow> int \<Rightarrow> bool"
  lib_task_start :: "task_list \<Rightarrow> int \<Rightarrow> 'w \<Rightarrow> task_list \<times> 'w"
  lib_task_set_progress :: "task_list \<Rightarrow> int \<Rightarrow> int \<Rightarrow> 'w \<Rightarrow> task_list \<times> 'w"
  lib_parse_query :: "string \<Rightarrow> 'w \<Rightarrow> c_query \<times> 'w"
  lib_generate_response :: "c_query \<Rightarrow> 'w \<Rightarrow> c_response option \<times> 'w"
  lib_patch_generate :: "string \<Rightarrow> string \<Rightarrow> 'w \<Rightarrow> patch_result \<times> 'w"
  lib_patch_apply :: "string \<Rightarrow> string \<Rightarrow> 'w \<Rightarrow> apply_result \<times> 'w"
  lib_patch_rollback :: "string \<Rightarrow> 'w \<Rightarrow> 'w"
  lib_patch_run_tests :: "nat \<Rightarrow> 'w \<Rightarrow> int \<times> string \<times> 'w"
  lib_patch_commit :: "string \<Rightarrow> string \<Rightarrow> 'w \<Rightarrow> int \<times> 'w"
  lib_app_js :: string

record 'w task_server =
  ts_jobs :: job_table
  ts_tasks :: task_list
  ts_world :: 'w

section \<open>Messages\<close>

text \<open>\<open>http_response\<close>: the length is that of the body, also when the message is cut at 32767 bytes.\<close>

definition c_message :: "int \<Rightarrow> string \<Rightarrow> string \<Rightarrow> string" where
  "c_message status content_type body = snprintf 32768
     (''HTTP/1.1 '' @ show_int status @ '' OK'' @ crlf @
      ''Content-Type: '' @ content_type @ crlf @
      ''Content-Length: '' @ show_nat (length body) @ crlf @
      ''Access-Control-Allow-Origin: *'' @ crlf @
      ''Access-Control-Allow-Methods: GET, POST, OPTIONS'' @ crlf @
      ''Access-Control-Allow-Headers: Content-Type'' @ crlf @
      ''Connection: close'' @ crlf @ crlf @ body)"

definition options_message :: string where
  "options_message =
     ''HTTP/1.1 200 OK'' @ crlf @
     ''Access-Control-Allow-Origin: *'' @ crlf @
     ''Access-Control-Allow-Methods: GET, POST, OPTIONS'' @ crlf @
     ''Access-Control-Allow-Headers: Content-Type'' @ crlf @
     ''Connection: close'' @ crlf @ crlf"

definition json_error :: "int \<Rightarrow> string \<Rightarrow> string" where
  \<open>json_error status m = c_message status ''application/json'' (''{"error":"'' @ m @ ''"}'')\<close>

text \<open>A key with its colon, as the handlers look for it in a body.\<close>

definition json_key :: "string \<Rightarrow> string" where
  "json_key k = quote # k @ [quote, CHR '':'']"

text \<open>
  \<open>JsonBuilder\<close>: the position and the bytes written. Like the list of tasks below it goes on where
  \<open>snprintf\<close> wanted to be. No handler uses it.
\<close>

type_synonym json_builder = "nat \<times> string"

definition json_start :: json_builder where
  "json_start = (1, ''{'')"

definition json_add :: "string \<Rightarrow> json_builder \<Rightarrow> json_builder outcome" where
  "json_add item j =
     (case j of (pos, buf) \<Rightarrow>
        if 1 < pos \<and> 16384 \<le> pos then Undef ''write behind the array''
        else let pos1 = (if 1 < pos then pos + 1 else pos);
                 buf1 = (if 1 < pos then buf @ '','' else buf)
             in Ret (pos1 + length item, buf1 @ snprintf (16384 - pos1) item))"

definition json_add_string :: "string \<Rightarrow> string \<Rightarrow> json_builder \<Rightarrow> json_builder outcome" where
  "json_add_string key val = json_add (json_key key @ quote # val @ [quote])"

definition json_add_int :: "string \<Rightarrow> int \<Rightarrow> json_builder \<Rightarrow> json_builder outcome" where
  "json_add_int key val = json_add (json_key key @ show_int val)"

section \<open>Tasks\<close>

definition task_status_text :: "task_status \<Rightarrow> string" where
  "task_status_text st =
     (if st = TASK_RUNNING then ''running'' else if st = TASK_DONE then ''done''
      else if st = TASK_FAILED then ''failed'' else if st = TASK_PAUSED then ''paused''
      else ''pending'')"

definition c_task_entry :: "bool \<Rightarrow> c_task \<Rightarrow> string" where
  \<open>c_task_entry is_last t =
     ''{"id":'' @ show_int (ct_id t) @ '',"name":"'' @ ct_name t @ ''","status":"'' @
     task_status_text (ct_status t) @ ''","progress":'' @ show_int (ct_progress_percent t) @
     '',"priority":'' @ show_int (ct_priority t) @ ''}'' @ (if is_last then [] else '','')\<close>

text \<open>
  The loop over the tasks with its position in the array of 16384 bytes. \<open>snprintf\<close> returns the
  length it wanted, so the position may leave the array; \<open>sizeof(response) - pos\<close> is then a
  huge number and the next write is outside.
\<close>

fun tasks_loop :: "nat \<Rightarrow> string \<Rightarrow> c_task list \<Rightarrow> (nat \<times> string) outcome" where
  "tasks_loop pos buf [] = Ret (pos, buf)"
| "tasks_loop pos buf (t # ts) =
     (if 16384 < pos then Undef ''write behind the array''
      else let e = c_task_entry (ts = []) t
           in tasks_loop (pos + length e) (buf @ snprintf (16384 - pos) e) ts)"

definition handle_get_tasks :: "task_list \<Rightarrow> string outcome" where
  "handle_get_tasks tasks =
     (if int (length (tl_tasks tasks)) < tl_count tasks then Undef ''read behind the array''
      else obind (tasks_loop 1 ''['' (take (nat (tl_count tasks)) (tl_tasks tasks)))
        (\<lambda>(pos, buf). if 16384 \<le> pos + 1 then Undef ''write behind the array''
                     else Ret (c_message 200 ''application/json'' (buf @ '']''))))"

definition handle_create_task ::
  "'w task_library \<Rightarrow> string \<Rightarrow> 'w task_server \<Rightarrow> (string \<times> 'w task_server) outcome" where
  \<open>handle_create_task lib body s =
     (let name = scan_field 255 (json_key ''name'') ''New Task'' body;
          command = scan_field 511 (json_key ''command'') [] body
      in omap (\<lambda>p0.
           let p = (if p0 < 1 \<or> p0 > 10 then 5 else p0);
               (i, tasks, w) = lib_task_create lib (ts_tasks s) name p (ts_world s)
           in (c_message 201 ''application/json''
                 (snprintf 1024 (''{"id":'' @ show_int i @ '',"name":"'' @ name @ ''","command":"'' @
                    command @ ''","priority":'' @ show_int p @ '',"status":"pending"}'')),
               s\<lparr>ts_tasks := tasks, ts_world := w\<rparr>))
         (scan_int_field (json_key ''priority'') 5 body))\<close>

definition handle_set_progress ::
  "'w task_library \<Rightarrow> int \<Rightarrow> string \<Rightarrow> 'w task_server \<Rightarrow> (string \<times> 'w task_server) outcome" where
  \<open>handle_set_progress lib task_id body s =
     omap (\<lambda>progress.
         let (tasks, w) = lib_task_set_progress lib (ts_tasks s) task_id progress (ts_world s)
         in (c_message 200 ''application/json''
               (snprintf 256 (''{"id":'' @ show_int task_id @ '',"progress":'' @ show_int progress @ ''}'')),
             s\<lparr>ts_tasks := tasks, ts_world := w\<rparr>))
       (scan_int_field (json_key ''progress'') 0 body)\<close>

section \<open>Jobs\<close>

text \<open>
  \<open>handle_run_task\<close>, given whether \<open>pthread_create\<close> succeeds: the message, the slot of the job
  whose thread was started, and the state.
\<close>

definition handle_run_task ::
  "'w task_library \<Rightarrow> int \<Rightarrow> bool \<Rightarrow> int \<Rightarrow> string \<Rightarrow> 'w task_server \<Rightarrow>
   string \<times> nat option \<times> 'w task_server" where
  \<open>handle_run_task lib now thread_ok task_id body s =
     (let command = scan_field 511 (json_key ''command'') [] body
      in if command = [] then (json_error 400 ''No command provided'', None, s)
         else if \<not> lib_task_get lib (ts_tasks s) task_id then (json_error 404 ''Task not found'', None, s)
         else let (tasks, w) = lib_task_start lib (ts_tasks s) task_id (ts_world s);
                  s1 = s\<lparr>ts_tasks := tasks, ts_world := w\<rparr>;
                  (slot, jobs) = take_slot now task_id command (ts_jobs s1);
                  s2 = s1\<lparr>ts_jobs := jobs\<rparr>
              in case slot of
                   None \<Rightarrow> (json_error 500 ''Too many running jobs'', None, s2)
                 | Some k \<Rightarrow>
                     if \<not> thread_ok then (json_error 500 ''Failed to start execution thread'', None, s2)
                     else (c_message 202 ''application/json''
                             (snprintf 256 (''{"job_id":'' @ show_int (ej_id (jt_slots jobs ! k)) @
                                '',"status":"running","message":"Command started"}'')),
                           Some k, s2))\<close>

text \<open>The escapes of \<open>handle_get_task_output\<close>, without tabs and ANSI sequences.\<close>

definition escape_output_char :: "char \<Rightarrow> string" where
  "escape_output_char c = (if c = CHR 0x09 then [c] else escape_char c)"

fun escape_output :: "nat \<Rightarrow> string \<Rightarrow> string \<Rightarrow> string" where
  "escape_output cap [] out = out"
| "escape_output cap (c # s) out =
     (if length out + 1 < cap then escape_output cap s (put_escaped cap (escape_output_char c) out)
      else out)"

definition job_reply :: "exec_job \<Rightarrow> string" where
  \<open>job_reply j = snprintf 20480
     (''{"job_id":'' @ show_int (ej_id j) @ '',"status":"'' @
      (if ej_status j = 0 then ''running'' else if ej_status j = 1 then ''complete'' else ''failed'') @
      ''","output":"'' @ c_str (escape_output 16384 (ej_output j) []) @
      ''","success":'' @ show_int (ej_success j) @ '',"duration":'' @ show_int (ej_duration j) @
      '',"memory":'' @ show_int (ej_memory j) @ ''}'')\<close>

definition query_job_id :: "string option \<Rightarrow> int outcome" where
  "query_job_id q =
     (case q of
        None \<Rightarrow> Ret (- 1)
      | Some s \<Rightarrow>
          if take 7 s = ''job_id=''
          then omap (\<lambda>v. case v of None \<Rightarrow> - 1 | Some i \<Rightarrow> i) (scan_int (drop 7 s))
          else Ret (- 1))"

definition handle_get_task_output :: "string option \<Rightarrow> job_table \<Rightarrow> string outcome" where
  "handle_get_task_output q t =
     omap (\<lambda>i. if i = - 1 then json_error 400 ''No job_id provided''
              else case find_slot i t of
                     None \<Rightarrow> json_error 404 ''Job not found''
                   | Some k \<Rightarrow> c_message 200 ''application/json'' (job_reply (jt_slots t ! k)))
       (query_job_id q)"

section \<open>Queries and patches\<close>

definition handle_ask ::
  "'w task_library \<Rightarrow> string \<Rightarrow> 'w task_server \<Rightarrow> (string \<times> 'w task_server) outcome" where
  \<open>handle_ask lib body s =
     (let q = scan_field 511 (json_key ''query'') [] body
      in if q = [] then Ret (json_error 400 ''No query provided'', s)
         else let (parsed, w1) = lib_parse_query lib q (ts_world s);
                  (resp, w2) = lib_generate_response lib parsed w1;
                  s2 = s\<lparr>ts_world := w2\<rparr>
              in case resp of
                   None \<Rightarrow> Ret (json_error 500 ''Failed to generate response'', s2)
                 | Some r \<Rightarrow>
                     omap (\<lambda>escaped.
                         (c_message 200 ''application/json''
                            (snprintf 8192 (''{"response":"'' @ escaped @ ''","source":"'' @
                               c_str (cr_source r) @ ''","confidence":'' @ show_fixed2 (cr_confidence r) @
                               '',"intent":'' @ show_int (intent_number (cq_intent parsed)) @
                               '',"execution_time_ms":'' @ show_int (cr_execution_time r) @ ''}'')),
                          s2))
                       (escape_json_string 4096 (cr_content r)))\<close>

definition handle_code_suggest ::
  "'w task_library \<Rightarrow> string \<Rightarrow> 'w task_server \<Rightarrow> (string \<times> 'w task_server) outcome" where
  \<open>handle_code_suggest lib body s =
     (let file_path = scan_field 511 (json_key ''file_path'') [] body;
          modification = scan_field 511 (json_key ''modification'') [] body
      in if file_path = [] then Ret (json_error 400 ''No file_path provided'', s)
         else let (r, w) = lib_patch_generate lib file_path modification (ts_world s);
                  s1 = s\<lparr>ts_world := w\<rparr>
              in if pr_success r = 0
                 then Ret (c_message 500 ''application/json''
                        (snprintf 1024 (''{"error":"'' @ c_str (pr_error_message r) @ ''"}'')), s1)
                 else omap (\<lambda>escaped.
                          (c_message 200 ''application/json''
                             (snprintf 40960 (''{"file_path":"'' @ file_path @ ''","diff":"'' @ escaped @
                                ''","success":true}'')), s1))
                        (escape_json_string 32768 (pr_diff r)))\<close>

definition tests_failed_message :: "string \<Rightarrow> string \<Rightarrow> string" where
  \<open>tests_failed_message reason escaped =
     c_message 400 ''application/json''
       (snprintf 4096 (''{"success":false,"error":"'' @ reason @ ''","test_output":"'' @ escaped @
          ''","rolled_back":true}''))\<close>

definition handle_code_apply ::
  "'w task_library \<Rightarrow> string \<Rightarrow> 'w task_server \<Rightarrow> (string \<times> 'w task_server) outcome" where
  \<open>handle_code_apply lib body s =
     (let file_path = scan_field 511 (json_key ''file_path'') [] body;
          patch = scan_field 32767 (json_key ''patch'') [] body
      in if file_path = [] \<or> patch = [] then Ret (json_error 400 ''Missing file_path or patch'', s)
         else let (r, w1) = lib_patch_apply lib file_path patch (ts_world s)
              in if ar_test_passed r = 0
                 then omap (\<lambda>escaped. (tests_failed_message ''Tests failed'' escaped,
                                      s\<lparr>ts_world := lib_patch_rollback lib file_path w1\<rparr>))
                        (escape_json_string 2048 (ar_test_output r))
                 else let (passed, test_output, w2) = lib_patch_run_tests lib 16384 w1
                      in if passed = 0
                         then omap (\<lambda>escaped. (tests_failed_message ''Tests failed after patch'' escaped,
                                              s\<lparr>ts_world := lib_patch_rollback lib file_path w2\<rparr>))
                                (escape_json_string 2048 test_output)
                         else let (git, w3) = lib_patch_commit lib file_path
                                    (snprintf 256 (''Apply code modification to '' @ file_path)) w2
                              in Ret (c_message 200 ''application/json''
                                   (snprintf 2048 (''{"success":true,"file_path":"'' @ file_path @
                                      ''","tests_passed":true,"committed":'' @ show_bool (git = 0) @ ''}'')),
                                   s\<lparr>ts_world := w3\<rparr>))\<close>

section \<open>Pages\<close>

definition root_page :: string where
  "root_page =
     ''<!DOCTYPE html>'' @
     ''<html>'' @
     ''<head>'' @
     ''<meta charset='utf-8'>'' @
     ''<meta name='viewport' content='width=device-width, initial-scale=1'>'' @
     ''<title>Tribunal Dashboard</title>'' @
     ''<style>'' @
     ''body { margin: 0; font-family: -apple-system, BlinkMacSystemFont, 'Segoe UI', sans-serif; background: #121212; color: #e0e0e0; }'' @
     ''#root { height: 100vh; }'' @
     ''.loading { display: flex; align-items: center; justify-content: center; height: 100vh; font-size: 24px; }'' @
     ''</style>'' @
     ''</head>'' @
     ''<body>'' @
     ''<div id='root'><div class='loading'>Loading React...</div></div>'' @
     ''<script crossorigin src='https://unpkg.com/react@18/umd/react.production.min.js'></script>'' @
     ''<script crossorigin src='https://unpkg.com/react-dom@18/umd/react-dom.production.min.js'></script>'' @
     ''<script src='/app.js'></script>'' @
     ''</body>'' @
     ''</html>''"

section \<open>Routing\<close>

text \<open>\<open>sscanf(path, "/api/tasks/%d/...")\<close> counts the number it has read; what follows the \<open>%d\<close> in the
  format has no influence on the count.\<close>

definition path_number :: "string \<Rightarrow> int option outcome" where
  "path_number path =
     (if take 11 path = ''/api/tasks/'' then scan_int (drop 11 path) else Ret None)"

definition c_get ::
  "'w task_library \<Rightarrow> string \<Rightarrow> string \<Rightarrow> 'w task_server \<Rightarrow> string outcome" where
  "c_get lib text path s =
     (if path = ''/api/tasks'' then handle_get_tasks (ts_tasks s)
      else obind (path_number path)
        (\<lambda>n. if n \<noteq> None then handle_get_task_output (after_text ''?'' text) (ts_jobs s)
             else if path = ''/'' \<or> path = ''/index.html''
             then Ret (c_message 200 ''text/html; charset=utf-8'' root_page)
             else if path = ''/app.js''
             then Ret (c_message 200 ''application/javascript'' (lib_app_js lib))
             else Ret (c_message 404 ''text/plain'' ''Not Found'')))"

definition c_post ::
  "'w task_library \<Rightarrow> int \<Rightarrow> bool \<Rightarrow> string \<Rightarrow> string \<Rightarrow> 'w task_server \<Rightarrow>
   (string \<times> nat option \<times> 'w task_server) outcome" where
  "c_post lib now thread_ok body path s =
     (if path = ''/api/tasks'' then omap (\<lambda>(m, s1). (m, None, s1)) (handle_create_task lib body s)
      else if path = ''/api/query'' then omap (\<lambda>(m, s1). (m, None, s1)) (handle_ask lib body s)
      else if path = ''/api/code/suggest''
      then omap (\<lambda>(m, s1). (m, None, s1)) (handle_code_suggest lib body s)
      else if path = ''/api/code/apply''
      then omap (\<lambda>(m, s1). (m, None, s1)) (handle_code_apply lib body s)
      else obind (path_number path)
        (\<lambda>n. case n of
               Some i \<Rightarrow> Ret (handle_run_task lib now thread_ok i body s)
             | None \<Rightarrow> obind (path_number path)
                 (\<lambda>n. case n of
                        Some i \<Rightarrow> omap (\<lambda>(m, s1). (m, None, s1)) (handle_set_progress lib i body s)
                      | None \<Rightarrow> Ret (c_message 400 ''text/plain'' ''Bad Request'', None, s))))"

text \<open>
  One connection: the bytes that the one \<open>recv\<close> gives, at most 8191. The message that is sent, if
  any, the slot of a job whose thread was started, and the state.
\<close>

definition serve_request ::
  "'w task_library \<Rightarrow> int \<Rightarrow> bool \<Rightarrow> string \<Rightarrow> 'w task_server \<Rightarrow>
   (string option \<times> nat option \<times> 'w task_server) outcome" where
  "serve_request lib now thread_ok received s =
     (if received = [] then Ret (None, None, s)
      else
        let text = c_str (take 8191 received);
            body = (case after_text (crlf @ crlf) text of None \<Rightarrow> [] | Some b \<Rightarrow> take 2047 b)
        in case scan_word 15 text of
             None \<Rightarrow> Undef ''method not read''
           | Some (verb, rest) \<Rightarrow>
               if verb = ''OPTIONS'' then Ret (Some options_message, None, s)
               else if verb \<noteq> ''GET'' \<and> verb \<noteq> ''POST''
               then Ret (Some (c_message 405 ''text/plain'' ''Method Not Allowed''), None, s)
               else
                 (case scan_word 255 rest of
                    None \<Rightarrow> Undef ''path not read''
                  | Some (path, _) \<Rightarrow>
                      if verb = ''GET'' then omap (\<lambda>m. (Some m, None, s)) (c_get lib text path s)
                      else omap (\<lambda>(m, k, s1). (Some m, k, s1)) (c_post lib now thread_ok body path s)))"

section \<open>The server thread\<close>

text \<open>\<open>http_server_thread\<close> up to its loop, given whether \<open>socket\<close>, \<open>bind\<close> and \<open>listen\<close> succeed:
  what it prints on standard error or standard output, and whether it serves.\<close>

definition server_thread :: "bool \<Rightarrow> bool \<Rightarrow> bool \<Rightarrow> string \<times> bool" where
  "server_thread socket_ok bind_ok listen_ok =
     (if \<not> socket_ok then (''socket'', False)
      else if \<not> bind_ok then (''bind'', False)
      else if \<not> listen_ok then (''listen'', False)
      else ([CHR 0xE2, CHR 0x9C, CHR 0x93] @ '' HTTP server listening on http://localhost:8080'', True))"

definition new_task_server :: "task_list \<Rightarrow> 'w \<Rightarrow> 'w task_server" where
  "new_task_server tasks w = \<lparr>ts_jobs = init_jobs, ts_tasks = tasks, ts_world = w\<rparr>"

end
