(* ===== verification/Task_Server_Properties.thy ===== *)
theory Task_Server_Properties
  imports Task_Server
begin

text \<open>
  The running task server: connections, the threads of the jobs and the rest of the program, which
  shares the task list, take steps in any order. What holds of the job table in every reachable
  state, what becomes of requests when its slots are used up, and what the replies contain.
\<close>

section \<open>Steps\<close>

datatype 'w task_process = Running "'w task_server" "nat list" | Broken_run string

datatype task_label = Sent "string option" | Silent

inductive task_step ::
  "'w task_library \<Rightarrow> 'w task_process \<Rightarrow> task_label \<Rightarrow> 'w task_process \<Rightarrow> bool" for lib where
  connection:
    "serve_request lib now thread_ok received s = Ret (m, k, s') \<Longrightarrow>
     task_step lib (Running s ks) (Sent m) (Running s' (ks @ (case k of None \<Rightarrow> [] | Some i \<Rightarrow> [i])))"
| breaks:
    "serve_request lib now thread_ok received s = Undef r \<Longrightarrow>
     task_step lib (Running s ks) Silent (Broken_run r)"
| chunk:
    "k \<in> set ks \<Longrightarrow>
     task_step lib (Running s ks) Silent
       (Running (s\<lparr>ts_jobs := slot_event k (Chunk d) (ts_jobs s)\<rparr>) ks)"
| finished:
    "k \<in> set ks \<Longrightarrow>
     task_step lib (Running s ks) Silent
       (Running (s\<lparr>ts_jobs := slot_event k (Finished success duration memory) (ts_jobs s)\<rparr>) (remove1 k ks))"
| elsewhere:
    "task_step lib (Running s ks) Silent (Running (s\<lparr>ts_tasks := tasks, ts_world := w\<rparr>) ks)"

inductive_cases task_stepE: "task_step lib (Running s ks) l p"

inductive task_steps :: "'w task_library \<Rightarrow> 'w task_process \<Rightarrow> 'w task_process \<Rightarrow> bool" for lib where
  stay: "task_steps lib p p"
| go: "task_steps lib p p' \<Longrightarrow> task_step lib p' l p'' \<Longrightarrow> task_steps lib p p''"

section \<open>What a request does to the job table\<close>

lemma handle_run_jobs:
  assumes "handle_run_task lib now thread_ok i body s = (m, k, s')"
  shows "(ts_jobs s' = ts_jobs s \<and> k = None) \<or>
    (\<exists>slot command. take_slot now i command (ts_jobs s) = (Some slot, ts_jobs s') \<and> (k = None \<or> k = Some slot))"
proof -
  obtain tasks w where start: "lib_task_start lib (ts_tasks s) i (ts_world s) = (tasks, w)" by force
  define command where "command = scan_field 511 (json_key ''command'') [] body"
  obtain slot jobs where slot: "take_slot now i command (ts_jobs s) = (slot, jobs)" by force
  have same: "slot = None \<Longrightarrow> jobs = ts_jobs s"
    using slot by (auto simp: take_slot_def split: option.splits)
  from assms start slot same show ?thesis
    by (auto simp: handle_run_task_def Let_def command_def [symmetric] split: if_splits option.splits)
qed

text \<open>Only \<open>handle_run_task\<close> touches the job table.\<close>

lemma handler_jobs:
  "handle_create_task lib body s = Ret (m, s') \<Longrightarrow> ts_jobs s' = ts_jobs s"
  "handle_ask lib body s = Ret (m, s') \<Longrightarrow> ts_jobs s' = ts_jobs s"
  "handle_code_suggest lib body s = Ret (m, s') \<Longrightarrow> ts_jobs s' = ts_jobs s"
  "handle_code_apply lib body s = Ret (m, s') \<Longrightarrow> ts_jobs s' = ts_jobs s"
  "handle_set_progress lib i body s = Ret (m, s') \<Longrightarrow> ts_jobs s' = ts_jobs s"
  by (auto simp: handle_create_task_def handle_ask_def handle_code_suggest_def handle_code_apply_def
      handle_set_progress_def omap_Ret_iff Let_def case_prod_unfold split: if_splits option.splits)

lemma post_jobs:
  assumes "c_post lib now thread_ok body path s = Ret (m, k, s')"
  shows "(ts_jobs s' = ts_jobs s \<and> k = None) \<or>
    (\<exists>i. handle_run_task lib now thread_ok i body s = (m, k, s'))"
  using assms
  by (auto simp: c_post_def omap_Ret_iff obind_Ret_iff handler_jobs split: if_splits option.splits
      dest: handler_jobs)

lemma request_jobs:
  assumes "serve_request lib now thread_ok received s = Ret (m, k, s')"
  shows "(ts_jobs s' = ts_jobs s \<and> k = None) \<or>
    (\<exists>i slot command. take_slot now i command (ts_jobs s) = (Some slot, ts_jobs s') \<and>
       (k = None \<or> k = Some slot))"
proof -
  have "(ts_jobs s' = ts_jobs s \<and> k = None) \<or>
    (\<exists>i body m'. handle_run_task lib now thread_ok i body s = (m', k, s'))"
    using assms by (auto simp: serve_request_def Let_def omap_Ret_iff split: if_splits option.splits prod.splits
        dest: post_jobs)
  then show ?thesis using handle_run_jobs by blast
qed

section \<open>The job table in every reachable state\<close>

definition process_ok :: "'w task_server \<Rightarrow> nat list \<Rightarrow> bool" where
  "process_ok s ks \<longleftrightarrow> slots_ok (ts_jobs s) \<and> distinct ks \<and> (\<forall>k\<in>set ks. k < used_slots (ts_jobs s))"

fun consistent :: "'w task_process \<Rightarrow> bool" where
  "consistent (Running s ks) = process_ok s ks"
| "consistent (Broken_run r) = True"

lemma used_take_slot:
  assumes "slots_ok t" and "take_slot now i command t = (Some slot, t')"
  shows "slots_ok t'" "slot = used_slots t" "used_slots t' = Suc (used_slots t)"
proof -
  have "used_slots t < MAX_JOBS"
    using assms take_slot_full [of t now i command] by (cases "used_slots t = MAX_JOBS") (auto simp: slots_ok_def used_slots_def)
  with take_slot_next [OF assms(1) this, of now i command] assms(2)
  show "slots_ok t'" "slot = used_slots t" "used_slots t' = Suc (used_slots t)" by auto
qed

lemma process_ok_request:
  assumes ok: "process_ok s ks" and req: "serve_request lib now thread_ok received s = Ret (m, k, s')"
  shows "process_ok s' (ks @ (case k of None \<Rightarrow> [] | Some i \<Rightarrow> [i]))"
proof -
  consider "ts_jobs s' = ts_jobs s" "k = None"
    | i slot command where "take_slot now i command (ts_jobs s) = (Some slot, ts_jobs s')"
        "k = None \<or> k = Some slot"
    using request_jobs [OF req] by blast
  then show ?thesis
  proof cases
    case 1
    then show ?thesis using ok by (simp add: process_ok_def)
  next
    case 2
    have "slots_ok (ts_jobs s)" using ok by (simp add: process_ok_def)
    note used = used_take_slot [OF this 2(1)]
    show ?thesis using ok 2(2) by (auto simp: process_ok_def used split: option.split intro: less_SucI)
  qed
qed

lemma process_ok_event:
  assumes ok: "process_ok s ks" and k: "k \<in> set ks"
  shows "process_ok (s\<lparr>ts_jobs := slot_event k e (ts_jobs s)\<rparr>) ks"
    and "process_ok (s\<lparr>ts_jobs := slot_event k e (ts_jobs s)\<rparr>) (remove1 k ks)"
  using ok k slot_event_ok [of "ts_jobs s" k e] by (auto simp: process_ok_def)

lemma consistent_step: "task_step lib p l p' \<Longrightarrow> consistent p \<Longrightarrow> consistent p'"
proof (induction rule: task_step.induct)
  case (elsewhere s ks tasks w)
  then show ?case by (simp add: process_ok_def)
qed (simp_all add: process_ok_request process_ok_event)

lemma consistent_steps: "task_steps lib p p' \<Longrightarrow> consistent p \<Longrightarrow> consistent p'"
  by (induction rule: task_steps.induct) (auto dest: consistent_step)

lemma consistent_start: "consistent (Running (new_task_server tasks w) [])"
  by (simp add: process_ok_def new_task_server_def slots_ok_init)

text \<open>Slots are never given back.\<close>

lemma used_slots_step:
  "task_step lib (Running s ks) l (Running s' ks') \<Longrightarrow> process_ok s ks \<Longrightarrow>
   used_slots (ts_jobs s) \<le> used_slots (ts_jobs s')"
proof (erule task_stepE; clarsimp)
  fix now thread_ok received m k
  assume ok: "process_ok s ks" and req: "serve_request lib now thread_ok received s = Ret (m, k, s')"
  consider "ts_jobs s' = ts_jobs s"
    | i slot command where "take_slot now i command (ts_jobs s) = (Some slot, ts_jobs s')"
    using request_jobs [OF req] by blast
  then show "used_slots (ts_jobs s) \<le> used_slots (ts_jobs s')"
    using used_take_slot(3) ok by cases (auto simp: process_ok_def)
qed (simp_all add: used_slots_def slot_event_def)

lemma used_slots_steps:
  assumes "task_steps lib p p'" and "p = Running s ks" and "process_ok s ks" and "p' = Running s' ks'"
  shows "used_slots (ts_jobs s) \<le> used_slots (ts_jobs s')"
  using assms
proof (induction arbitrary: s' ks' rule: task_steps.induct)
  case (go p p1 l p2)
  obtain s1 ks1 where p1: "p1 = Running s1 ks1"
    using go.hyps(2) go.prems(3) by (cases rule: task_step.cases) auto
  have "process_ok s1 ks1" using consistent_steps [OF go.hyps(1)] go.prems p1 by simp
  with go.IH [OF go.prems(1,2) p1] used_slots_step go.hyps(2) go.prems(3) p1 show ?case by (metis le_trans)
qed simp

lemma run_request_full:
  assumes ok: "process_ok s ks" and full: "used_slots (ts_jobs s) = MAX_JOBS"
    and command: "scan_field 511 (json_key ''command'') [] body \<noteq> []" and "lib_task_get lib (ts_tasks s) i"
  shows "handle_run_task lib now thread_ok i body s =
    (let (tasks, w) = lib_task_start lib (ts_tasks s) i (ts_world s)
     in (json_error 500 ''Too many running jobs'', None, s\<lparr>ts_tasks := tasks, ts_world := w\<rparr>))"
  using assms take_slot_full [OF _ full]
  by (simp add: handle_run_task_def process_ok_def Let_def case_prod_unfold)

section \<open>A request for each slot\<close>

text \<open>A library that knows task 1 and otherwise answers plainly, and a client that always asks to run
  the command \<open>ls\<close> for it.\<close>

definition demo_library :: "unit task_library" where
  "demo_library =
     \<lparr>lib_task_create = (\<lambda>l name p w. (tl_count l + 1, l, w)),
      lib_task_get = (\<lambda>l i. i = 1),
      lib_task_start = (\<lambda>l i w. (l, w)),
      lib_task_set_progress = (\<lambda>l i p w. (l, w)),
      lib_parse_query = (\<lambda>q w. (\<lparr>cq_intent = QUERY_HELP, cq_query = q, cq_context = [], cq_metric = [],
         cq_subject = [], cq_week = - 1, cq_round = - 1, cq_confidence = 100, cq_debug_info = []\<rparr>, w)),
      lib_generate_response = (\<lambda>q w. (None, w)),
      lib_patch_generate = (\<lambda>f m w. (\<lparr>pr_file_path = f, pr_original_content = [], pr_patched_content = [],
         pr_diff = [NUL], pr_success = 1, pr_error_message = [NUL]\<rparr>, w)),
      lib_patch_apply = (\<lambda>f p w. (\<lparr>ar_patch_content = p, ar_file_path = f, ar_test_passed = 1,
         ar_test_output = [NUL], ar_git_commit = []\<rparr>, w)),
      lib_patch_rollback = (\<lambda>f w. w),
      lib_patch_run_tests = (\<lambda>n w. (1, [NUL], w)),
      lib_patch_commit = (\<lambda>f m w. (0, w)),
      lib_app_js = []\<rparr>"

definition no_tasks :: task_list where
  "no_tasks = \<lparr>tl_tasks = [], tl_count = 0\<rparr>"

definition ls_body :: string where
  \<open>ls_body = ''{"command":"ls"}''\<close>

definition ls_request :: string where
  "ls_request = ''POST /api/tasks/1/run HTTP/1.1'' @ crlf @ crlf @ ls_body"

lemma ls_request_text: "c_str (take 8191 ls_request) = ls_request" "take 2047 ls_body = ls_body"
  by (simp_all add: ls_request_def ls_body_def c_str_def crlf_def CR_def newline_def)

lemma ls_request_words:
  "scan_word 15 ls_request = Some (''POST'', drop 4 ls_request)"
  "scan_word 255 (drop 4 ls_request) = Some (''/api/tasks/1/run'', drop 21 ls_request)"
  "after_text (crlf @ crlf) ls_request = Some ls_body" "ls_request \<noteq> []"
  by code_simp+

lemma ls_request_fields:
  "path_number ''/api/tasks/1/run'' = Ret (Some 1)"
  "scan_field 511 (json_key ''command'') [] ls_body = ''ls''"
  by code_simp+

lemma ls_request_served:
  "serve_request lib now thread_ok ls_request s =
     (case handle_run_task lib now thread_ok 1 ls_body s of (m, k, s') \<Rightarrow> Ret (Some m, k, s'))"
  using ls_request_words ls_request_text ls_request_fields
  by (simp add: serve_request_def c_post_def Let_def del: take_all_iff split: prod.split)

lemma ls_request_starts:
  assumes ok: "process_ok s ks" and room: "used_slots (ts_jobs s) < MAX_JOBS"
  shows "\<exists>m s'. task_step demo_library (Running s ks) (Sent m) (Running s' (ks @ [used_slots (ts_jobs s)])) \<and>
    used_slots (ts_jobs s') = Suc (used_slots (ts_jobs s))"
proof -
  obtain t' where slot: "take_slot 0 1 ''ls'' (ts_jobs s) = (Some (used_slots (ts_jobs s)), t')"
    and used: "used_slots t' = Suc (used_slots (ts_jobs s))"
    using take_slot_next [OF _ room] ok unfolding process_ok_def by blast
  have "\<exists>m. serve_request demo_library 0 True ls_request s =
      Ret (Some m, Some (used_slots (ts_jobs s)), s\<lparr>ts_jobs := t'\<rparr>)"
    by (simp add: ls_request_served handle_run_task_def ls_request_fields slot demo_library_def Let_def)
  then obtain m where "serve_request demo_library 0 True ls_request s =
      Ret (Some m, Some (used_slots (ts_jobs s)), s\<lparr>ts_jobs := t'\<rparr>)" by blast
  from task_step.connection [OF this, of ks] used show ?thesis
    by (intro exI [of _ "Some m"] exI [of _ "s\<lparr>ts_jobs := t'\<rparr>"]) simp
qed

lemma ls_requests_fill:
  "n \<le> MAX_JOBS \<Longrightarrow>
   \<exists>s ks. task_steps demo_library (Running (new_task_server tasks ()) []) (Running s ks) \<and>
     used_slots (ts_jobs s) = n"
proof (induction n)
  case 0
  have "used_slots (ts_jobs (new_task_server tasks ())) = 0"
    by (simp add: new_task_server_def init_jobs_def used_slots_def)
  then show ?case using task_steps.stay by blast
next
  case (Suc n)
  then obtain s ks where steps: "task_steps demo_library (Running (new_task_server tasks ()) []) (Running s ks)"
    and n: "used_slots (ts_jobs s) = n" by auto
  have "process_ok s ks" using consistent_steps [OF steps consistent_start] by simp
  from ls_request_starts [OF this] Suc.prems n
  obtain m s' where "task_step demo_library (Running s ks) (Sent m) (Running s' (ks @ [n]))"
    and "used_slots (ts_jobs s') = Suc n" by auto
  with task_steps.go [OF steps] show ?case by blast
qed

section \<open>Requests about progress\<close>

lemma set_progress_others:
  "lib_task_create (lib\<lparr>lib_task_set_progress := f\<rparr>) = lib_task_create lib"
  "lib_task_get (lib\<lparr>lib_task_set_progress := f\<rparr>) = lib_task_get lib"
  "lib_task_start (lib\<lparr>lib_task_set_progress := f\<rparr>) = lib_task_start lib"
  "lib_parse_query (lib\<lparr>lib_task_set_progress := f\<rparr>) = lib_parse_query lib"
  "lib_generate_response (lib\<lparr>lib_task_set_progress := f\<rparr>) = lib_generate_response lib"
  "lib_patch_generate (lib\<lparr>lib_task_set_progress := f\<rparr>) = lib_patch_generate lib"
  "lib_patch_apply (lib\<lparr>lib_task_set_progress := f\<rparr>) = lib_patch_apply lib"
  "lib_patch_rollback (lib\<lparr>lib_task_set_progress := f\<rparr>) = lib_patch_rollback lib"
  "lib_patch_run_tests (lib\<lparr>lib_task_set_progress := f\<rparr>) = lib_patch_run_tests lib"
  "lib_patch_commit (lib\<lparr>lib_task_set_progress := f\<rparr>) = lib_patch_commit lib"
  "lib_app_js (lib\<lparr>lib_task_set_progress := f\<rparr>) = lib_app_js lib"
  by simp_all

lemma c_post_set_progress:
  "c_post (lib\<lparr>lib_task_set_progress := f\<rparr>) now thread_ok body path s = c_post lib now thread_ok body path s"
proof -
  have "handle_create_task (lib\<lparr>lib_task_set_progress := f\<rparr>) body s = handle_create_task lib body s"
    "handle_ask (lib\<lparr>lib_task_set_progress := f\<rparr>) body s = handle_ask lib body s"
    "handle_code_suggest (lib\<lparr>lib_task_set_progress := f\<rparr>) body s = handle_code_suggest lib body s"
    "handle_code_apply (lib\<lparr>lib_task_set_progress := f\<rparr>) body s = handle_code_apply lib body s"
    "handle_run_task (lib\<lparr>lib_task_set_progress := f\<rparr>) now thread_ok i body s =
       handle_run_task lib now thread_ok i body s" for i
    unfolding handle_create_task_def handle_ask_def handle_code_suggest_def handle_code_apply_def
      handle_run_task_def set_progress_others by (rule refl)+
  then show ?thesis
    by (cases "path_number path") (auto simp: c_post_def split: option.split)
qed

lemma c_get_set_progress:
  "c_get (lib\<lparr>lib_task_set_progress := f\<rparr>) text path s = c_get lib text path s"
  unfolding c_get_def set_progress_others by (rule refl)

lemma path_number_show:
  assumes "is_int i" and "leading_digits 10 rest = []"
  shows "path_number (''/api/tasks/'' @ show_int i @ rest) = Ret (Some i)"
proof -
  have "strtol 10 (show_int i @ rest) = Some i"
    using strtol_show_nat [OF assms(2), of "nat i"] strtol_show_nat [OF assms(2), of "nat (- i)"]
    by (auto simp: show_int_def)
  then show ?thesis using assms(1) by (simp add: path_number_def scan_int_def)
qed

section \<open>Properties\<close>

text \<open>
  In every reachable state of the task server the slots in use come first and are numbered
  1, 2, 3 and so on, the others are as \<open>init_jobs\<close> left them; no output exceeds 16382 bytes, and
  the slots whose threads run are different slots in use.
\<close>

theorem task_jobs_consistent:
  assumes "task_steps lib (Running (new_task_server tasks w) []) (Running s ks)"
  shows "length (jt_slots (ts_jobs s)) = 32 \<and> used_slots (ts_jobs s) \<le> 32 \<and>
    (\<forall>k<32. (if k < used_slots (ts_jobs s) then ej_id (jt_slots (ts_jobs s) ! k) = int k + 1
             else jt_slots (ts_jobs s) ! k = free_slot) \<and>
       length (ej_output (jt_slots (ts_jobs s) ! k)) \<le> 16382 \<and> ej_status (jt_slots (ts_jobs s) ! k) \<in> {0, 1}) \<and>
    distinct ks \<and> (\<forall>k\<in>set ks. k < used_slots (ts_jobs s))"
proof -
  have ok: "process_ok s ks" using consistent_steps [OF assms consistent_start] by simp
  then have t: "slots_ok (ts_jobs s)" by (simp add: process_ok_def)
  then have "used_slots (ts_jobs s) \<le> 32" by (auto simp: slots_ok_def used_slots_def MAX_JOBS_def)
  moreover have "slot_ok (used_slots (ts_jobs s)) k (jt_slots (ts_jobs s) ! k)" if "k < 32" for k
    using table_slot [OF t] that by (simp add: MAX_JOBS_def)
  ultimately show ?thesis using ok
    by (fastforce simp: process_ok_def slots_ok_def slot_ok_def MAX_JOBS_def OUTPUT_SIZE_def)
qed

theorem task_jobs_consistent_witness:
  "\<exists>s ks. task_steps demo_library (Running (new_task_server no_tasks ()) []) (Running s ks) \<and>
     used_slots (ts_jobs s) = 7 \<and> ej_id (jt_slots (ts_jobs s) ! 6) = 7 \<and> jt_slots (ts_jobs s) ! 7 = free_slot"
proof -
  obtain s ks where
    steps: "task_steps demo_library (Running (new_task_server no_tasks ()) []) (Running s ks)"
    and used: "used_slots (ts_jobs s) = 7"
    using ls_requests_fill [of 7 no_tasks] by (auto simp: MAX_JOBS_def)
  from task_jobs_consistent [OF steps] have
    "\<forall>k<32. (if k < 7 then ej_id (jt_slots (ts_jobs s) ! k) = int k + 1 else jt_slots (ts_jobs s) ! k = free_slot)"
    unfolding used by blast
  from spec [OF this, of 6] spec [OF this, of 7] steps used show ?thesis by auto
qed

text \<open>
  C37: A slot is never given back: once 32 jobs have been started, the server refuses every further
  run of a known task as one job too many, however many of the jobs have finished; but it has
  marked the task as started before it refuses.
\<close>

theorem job_slots_never_released:
  assumes "task_steps lib (Running (new_task_server tasks w) []) (Running s ks)"
    and "used_slots (ts_jobs s) = 32"
    and "task_steps lib (Running s ks) (Running s' ks')"
    and "scan_field 511 (json_key ''command'') [] body \<noteq> []" and "lib_task_get lib (ts_tasks s') i"
  shows "handle_run_task lib now thread_ok i body s' =
    (let (tasks', w') = lib_task_start lib (ts_tasks s') i (ts_world s')
     in (json_error 500 ''Too many running jobs'', None, s'\<lparr>ts_tasks := tasks', ts_world := w'\<rparr>))"
proof -
  have ok: "process_ok s ks" using consistent_steps [OF assms(1) consistent_start] by simp
  have ok': "process_ok s' ks'" using consistent_steps [OF assms(3)] ok by simp
  have "32 \<le> used_slots (ts_jobs s')" using used_slots_steps [OF assms(3) refl ok refl] assms(2) by simp
  then have "used_slots (ts_jobs s') = MAX_JOBS"
    using ok' by (auto simp: process_ok_def slots_ok_def used_slots_def MAX_JOBS_def)
  from run_request_full [OF ok' this assms(4,5)] show ?thesis .
qed

theorem job_slots_never_released_witness:
  "\<exists>s ks. task_steps demo_library (Running (new_task_server no_tasks ()) []) (Running s ks) \<and>
     handle_run_task demo_library 0 True 1 ls_body s = (json_error 500 ''Too many running jobs'', None, s)"
proof -
  obtain s ks where
    steps: "task_steps demo_library (Running (new_task_server no_tasks ()) []) (Running s ks)"
    and used: "used_slots (ts_jobs s) = 32"
    using ls_requests_fill [of 32 no_tasks] by (auto simp: MAX_JOBS_def)
  have "scan_field 511 (json_key ''command'') [] ls_body \<noteq> []" "lib_task_get demo_library (ts_tasks s) 1"
    by (simp_all add: ls_request_fields, simp add: demo_library_def)
  from job_slots_never_released [OF steps used task_steps.stay this, of 0 True] steps
  show ?thesis by (auto simp: demo_library_def)
qed

text \<open>
  The progress of a task cannot be set over HTTP: no reply and no state depends on what
  \<open>task_set_progress\<close> does, for \<open>sscanf\<close> counts the number of \<open>/api/tasks/%d/run\<close> as read also for
  the path of the progress request, which therefore runs a command.
\<close>

theorem progress_endpoint_dead:
  assumes "is_int i"
  shows "serve_request (lib\<lparr>lib_task_set_progress := f\<rparr>) now thread_ok received s =
      serve_request lib now thread_ok received s \<and>
    c_post lib now thread_ok body (''/api/tasks/'' @ show_int i @ ''/progress'') s =
      Ret (handle_run_task lib now thread_ok i body s)"
proof -
  have "leading_digits 10 ''/progress'' = []" by (simp add: digit_value_def)
  from path_number_show [OF assms this]
  have "c_post lib now thread_ok body (''/api/tasks/'' @ show_int i @ ''/progress'') s =
      Ret (handle_run_task lib now thread_ok i body s)" by (simp add: c_post_def)
  then show ?thesis unfolding serve_request_def c_post_set_progress c_get_set_progress by simp
qed

theorem progress_endpoint_dead_witness:
  "c_post demo_library 0 True [] ''/api/tasks/1/progress'' (new_task_server no_tasks ()) =
     Ret (json_error 400 ''No command provided'', None, new_task_server no_tasks ())"
proof -
  have "scan_field 511 (json_key ''command'') [] [] = []" by code_simp
  moreover have "is_int 1" "show_int 1 = ''1''" by code_simp+
  ultimately show ?thesis
    using progress_endpoint_dead [where i = 1 and lib = demo_library and now = 0 and thread_ok = True
      and body = "[]" and s = "new_task_server no_tasks ()"]
    by (simp add: handle_run_task_def)
qed

end
