(* ===== verification/Task_Reply_Properties.thy ===== *)
theory Task_Reply_Properties
  imports Task_Server_Properties
begin

text \<open>
  What the replies of the task server say: the escaped texts, the list of tasks with the array it
  is built in, the output that a poll shows, and which calls a request to apply a patch makes.
\<close>

section \<open>Escaped texts\<close>

lemma escape_text_append: "escape_text (s @ t) = escape_text s @ escape_text t"
  by (simp add: escape_text_def)

lemma put_escaped_char:
  "put_escaped cap (escape_char c) out = out @ escape_char c \<or> put_escaped cap (escape_char c) out = out"
  by (simp add: put_escaped_def)

lemma subseq_dropWhile: "dropWhile P s = d # r \<Longrightarrow> subseq r s"
proof -
  assume "dropWhile P s = d # r"
  then have "suffix (d # r) s" by (metis suffix_dropWhile)
  then show ?thesis by (metis suffix_ConsD suffix_imp_subseq)
qed

lemma escape_loop_sound:
  "escape_loop cap src out = Ret r \<Longrightarrow> \<exists>t. r = out @ escape_text t \<and> subseq t src"
proof (induction cap src out arbitrary: r rule: escape_loop.induct)
  case (1 cap out)
  then show ?case by (simp add: escape_loop.simps)
next
  case (2 cap c s out)
  consider "r = out"
    | d r' where "\<not> (c = NUL \<or> cap \<le> length out + 1)" "\<not> (c = ESC \<and> s = [])" "c = ESC \<and> hd s = CHR ''[''"
        "dropWhile (\<lambda>c. c \<noteq> NUL \<and> c \<noteq> CHR ''m'') (tl s) = d # r'" "escape_loop cap r' out = Ret r"
    | "\<not> (c = NUL \<or> cap \<le> length out + 1)" "\<not> (c = ESC \<and> s = [])" "\<not> (c = ESC \<and> hd s = CHR ''['')"
        "escape_loop cap s (put_escaped cap (escape_char c) out) = Ret r"
    using "2.prems" by (subst (asm) escape_loop.simps) (auto split: if_splits list.splits)
  then show ?case
  proof cases
    case 1
    then show ?thesis by (intro exI [of _ "[]"]) (simp add: escape_text_def)
  next
    case (2 d r')
    from "2.IH"(1) [OF 2] obtain t where "r = out @ escape_text t" "subseq t r'" by blast
    moreover have "subseq r' (c # s)"
      using subseq_dropWhile [OF 2(4)] by (cases s) (auto intro: subseq_order.trans)
    ultimately show ?thesis by (blast intro: subseq_order.trans)
  next
    case 3
    from "2.IH"(2) [OF 3] obtain t where
      t: "r = put_escaped cap (escape_char c) out @ escape_text t" "subseq t s" by blast
    from put_escaped_char [of cap c out] show ?thesis
    proof
      assume "put_escaped cap (escape_char c) out = out @ escape_char c"
      then show ?thesis using t by (intro exI [of _ "c # t"]) (simp add: escape_text_def)
    qed (use t in auto)
  qed
qed

text \<open>On a text that is closed by a NUL and whose ANSI sequences are closed the loop stays in the array.\<close>

lemma escape_loop_returns:
  "NUL \<notin> set s \<Longrightarrow> ansi_closed s \<Longrightarrow> \<exists>r. escape_loop cap (s @ NUL # rest) out = Ret r"
proof (induction s arbitrary: out rule: strip_ansi.induct)
  case 1
  show ?case by (simp add: escape_loop.simps)
next
  case (2 c s)
  show ?case
  proof (cases "c = ESC \<and> s \<noteq> [] \<and> hd s = CHR ''[''")
    case True
    then obtain b where s: "s = CHR ''['' # b" by (cases s) auto
    define r where "r = drop 1 (dropWhile (\<lambda>c. c \<noteq> CHR ''m'') b)"
    from "2.prems"(2) True have m: "CHR ''m'' \<in> set b" and closed: "ansi_closed r"
      by (simp_all add: s r_def ansi_closed.simps)
    have b: "b = takeWhile (\<lambda>c. c \<noteq> CHR ''m'') b @ CHR ''m'' # r"
      using closing_m [OF m] by (simp add: r_def)
    have skip: "dropWhile (\<lambda>c. c \<noteq> NUL \<and> c \<noteq> CHR ''m'') (b @ NUL # rest) = CHR ''m'' # r @ NUL # rest"
      using "2.prems"(1) set_takeWhileD
      by (subst b, subst append_assoc, subst dropWhile_append2) (fastforce simp: s)+
    have "NUL \<notin> set r" using "2.prems"(1) b s by (metis UnCI list.set_intros(2) set_append)
    then have "\<exists>t. escape_loop cap (r @ NUL # rest) out = Ret t"
      using "2.IH"(1) [OF True] closed by (simp add: r_def s)
    then show ?thesis
      unfolding append_Cons by (subst escape_loop.simps) (use True skip in \<open>simp add: s\<close>)
  next
    case False
    then have "ansi_closed s" using "2.prems"(2) by (auto simp: ansi_closed.simps)
    then have "\<exists>t. escape_loop cap (s @ NUL # rest) (put_escaped cap (escape_char c) out) = Ret t"
      using "2.IH"(2) [OF False] "2.prems"(1) by simp
    moreover have "hd (s @ NUL # rest) = CHR ''['' \<Longrightarrow> s \<noteq> [] \<and> hd s = CHR ''[''" by (cases s) auto
    ultimately show ?thesis unfolding append_Cons
      by (subst escape_loop.simps) (use False in auto)
  qed
qed

lemma escape_loop_undef: "escape_loop cap src out = Undef u \<Longrightarrow> u = ''read behind the array''"
proof (induction cap src out rule: escape_loop.induct)
  case (2 cap c s out)
  show ?case
    using "2.prems" by (subst (asm) escape_loop.simps) (auto split: if_splits list.splits intro: "2.IH")
qed (simp add: escape_loop.simps)

text \<open>
  C40: \<open>escape_json_string\<close> on an array with any bytes. When the call stays within the array, it has
  written fewer bytes than the target has and left no NUL among them, and the text is well escaped: it
  reads back as some of the bytes of the array in their order. It leaves the array, which is
  undefined, only when the array does not begin with a text closed by a NUL in which every ANSI
  sequence \<open>ESC [\<close> has its \<open>m\<close>.
\<close>

theorem escape_json_string_bounded:
  assumes "0 < cap"
  shows "(\<exists>r. escape_json_string cap src = Ret r \<and>
      length r < cap \<and> NUL \<notin> set r \<and> (\<exists>t. unescape r = Some t \<and> subseq t src)) \<or>
    escape_json_string cap src = Undef ''read behind the array'' \<and>
      (\<nexists>s rest. src = s @ NUL # rest \<and> NUL \<notin> set s \<and> ansi_closed s)"
proof (cases "\<exists>r. escape_json_string cap src = Ret r")
  case True
  then obtain r where r: "escape_json_string cap src = Ret r" ..
  obtain t where "r = escape_text t" "subseq t src"
    using escape_loop_sound r by (fastforce simp: escape_json_string_def)
  moreover have "NUL \<notin> set r" using escape_loop_no_NUL r by (fastforce simp: escape_json_string_def)
  ultimately show ?thesis using escape_json_bounded [OF r assms] unescape_escape_text r by blast
next
  case False
  then have "\<nexists>s rest. src = s @ NUL # rest \<and> NUL \<notin> set s \<and> ansi_closed s"
    using escape_loop_returns by (metis escape_json_string_def)
  moreover obtain u where "escape_json_string cap src = Undef u"
    using False escape_loop_outcome [of cap src "[]"] by (auto simp: escape_json_string_def)
  then have "escape_json_string cap src = Undef ''read behind the array''"
    using escape_loop_undef [of cap src "[]"] by (simp add: escape_json_string_def)
  ultimately show ?thesis by blast
qed

theorem escape_json_string_bounded_witness:
  "escape_json_string 4 [CHR ''a'', quote, CHR ''b'', CHR ''c'', NUL] = Ret [CHR ''a'', backslash, quote] \<and>
   (\<exists>t. unescape [CHR ''a'', backslash, quote] = Some t \<and> subseq t [CHR ''a'', quote, CHR ''b'', CHR ''c'', NUL])"
proof -
  have e: "escape_json_string 4 [CHR ''a'', quote, CHR ''b'', CHR ''c'', NUL] = Ret [CHR ''a'', backslash, quote]"
    by code_simp
  from escape_json_string_bounded [of 4 "[CHR ''a'', quote, CHR ''b'', CHR ''c'', NUL]"] e show ?thesis by simp
qed

text \<open>
  A text whose ANSI sequences are closed and whose escaped form fits is sent complete: the client
  reads back exactly the text without its ANSI sequences, whatever the array holds behind the NUL.
\<close>

theorem escape_json_string_roundtrip:
  assumes "NUL \<notin> set s" and "ansi_closed s" and "length (escape_text (strip_ansi s)) < cap"
  shows "\<exists>r. escape_json_string cap (s @ NUL # rest) = Ret r \<and> unescape r = Some (strip_ansi s)"
  using escape_loop_correct [of s "[]" cap rest] assms unescape_escape_text
  by (simp add: escape_json_string_def)

theorem escape_json_string_roundtrip_witness:
  "\<exists>r. escape_json_string 64 ((ESC # ''[31mred'' @ [ESC] @ ''[0m line'' @ [newline]) @ NUL # ''old'') = Ret r \<and>
     unescape r = Some (''red line'' @ [newline])"
proof -
  have "strip_ansi (ESC # ''[31mred'' @ [ESC] @ ''[0m line'' @ [newline]) = ''red line'' @ [newline]"
    by code_simp
  moreover have "NUL \<notin> set (ESC # ''[31mred'' @ [ESC] @ ''[0m line'' @ [newline])" by code_simp
  moreover have "ansi_closed (ESC # ''[31mred'' @ [ESC] @ ''[0m line'' @ [newline])" by code_simp
  moreover have "length (escape_text (''red line'' @ [newline])) < 64" by code_simp
  ultimately show ?thesis
    using escape_json_string_roundtrip [of "ESC # ''[31mred'' @ [ESC] @ ''[0m line'' @ [newline]" 64 "''old''"]
    by simp
qed

text \<open>A sequence that is not closed makes the bytes behind the NUL a part of the reply.\<close>

theorem escape_json_string_leaks:
  "escape_json_string 64 (ESC # ''[31'' @ NUL # ''secret'' @ [NUL]) = Ret ''secret''"
  by code_simp

section \<open>The list of tasks\<close>

fun tasks_text :: "c_task list \<Rightarrow> string" where
  "tasks_text [] = []"
| "tasks_text (t # ts) = c_task_entry (ts = []) t @ tasks_text ts"

lemma tasks_loop_position: "tasks_loop pos buf ts = Ret (p, b) \<Longrightarrow> p = pos + length (tasks_text ts)"
proof (induction ts arbitrary: pos buf)
  case (Cons t ts)
  from Cons.prems Cons.IH show ?case by (fastforce simp: Let_def split: if_splits)
qed simp

lemma tasks_loop_fits:
  "pos + length (tasks_text ts) < 16384 \<Longrightarrow>
   tasks_loop pos buf ts = Ret (pos + length (tasks_text ts), buf @ tasks_text ts)"
proof (induction ts arbitrary: pos buf)
  case (Cons t ts)
  then have "snprintf (16384 - pos) (c_task_entry (ts = []) t) = c_task_entry (ts = []) t"
    by (intro snprintf_fits) simp
  with Cons show ?case by (simp add: Let_def)
qed simp

lemma tasks_loop_outcome: "(\<exists>p b. tasks_loop pos buf ts = Ret (p, b)) \<or> (\<exists>r. tasks_loop pos buf ts = Undef r)"
  by (induction ts arbitrary: pos buf) (auto simp: Let_def)

text \<open>
  The list of tasks is sent complete when all entries together need at most 16381 bytes; with
  one more the handler writes behind its array.
\<close>

theorem task_list_reply_exact:
  "handle_get_tasks l =
     (let text = tasks_text (take (nat (tl_count l)) (tl_tasks l))
      in if int (length (tl_tasks l)) < tl_count l then Undef ''read behind the array''
         else if length text \<le> 16381 then Ret (c_message 200 ''application/json'' (''['' @ text @ '']''))
         else Undef ''write behind the array'')"
proof -
  define ts where "ts = take (nat (tl_count l)) (tl_tasks l)"
  have "tasks_loop 1 ''['' ts = Undef ''write behind the array'' \<or> (\<exists>b. tasks_loop 1 ''['' ts = Ret (Suc (length (tasks_text ts)), b))"
  proof -
    have "tasks_loop pos buf us = Undef r \<Longrightarrow> r = ''write behind the array''" for pos buf us r
      by (induction us arbitrary: pos buf) (auto simp: Let_def split: if_splits)
    then show ?thesis using tasks_loop_outcome [of 1 "''[''" ts] tasks_loop_position [of 1 "''[''" ts] by fastforce
  qed
  moreover have "length (tasks_text ts) \<le> 16381 \<Longrightarrow>
      tasks_loop 1 ''['' ts = Ret (Suc (length (tasks_text ts)), ''['' @ tasks_text ts)"
    using tasks_loop_fits [of 1 ts "''[''"] by simp
  ultimately show ?thesis
    by (auto simp: handle_get_tasks_def ts_def [symmetric] Let_def)
qed

text \<open>The task list of \<open>tribunal_tasks.h\<close> can hold more than the array: 100 tasks, names of 255 bytes.\<close>

lemma c_task_entry_name: "length (ct_name t) \<le> length (c_task_entry b t)"
  by (simp add: c_task_entry_def)

lemma tasks_text_long: "(\<And>t. t \<in> set ts \<Longrightarrow> n \<le> length (ct_name t)) \<Longrightarrow> length ts * n \<le> length (tasks_text ts)"
proof (induction ts)
  case (Cons t ts)
  have "n \<le> length (c_task_entry (ts = []) t)"
    using Cons.prems [of t] c_task_entry_name [of t "ts = []"] by simp
  moreover have "length ts * n \<le> length (tasks_text ts)" using Cons.prems by (intro Cons.IH) simp
  ultimately show ?case by simp
qed simp

theorem task_list_overflow:
  "handle_get_tasks
     \<lparr>tl_tasks = replicate 100 \<lparr>ct_id = 1, ct_name = replicate 255 CHR ''x'', ct_status = TASK_PENDING,
        ct_created_at = 0, ct_started_at = 0, ct_completed_at = 0, ct_progress_percent = 0,
        ct_details = [], ct_priority = 5\<rparr>, tl_count = 100\<rparr> = Undef ''write behind the array''"
proof -
  define t where "t = \<lparr>ct_id = 1, ct_name = replicate 255 CHR ''x'', ct_status = TASK_PENDING,
        ct_created_at = 0, ct_started_at = 0, ct_completed_at = 0, ct_progress_percent = 0,
        ct_details = [], ct_priority = 5\<rparr>"
  have "length (replicate 100 t) * 255 \<le> length (tasks_text (replicate 100 t))"
    by (rule tasks_text_long) (simp add: t_def)
  then show ?thesis unfolding t_def [symmetric]
    using task_list_reply_exact [of "\<lparr>tl_tasks = replicate 100 t, tl_count = 100\<rparr>"]
    by (simp add: Let_def)
qed

section \<open>The output of a job\<close>

text \<open>
  In whatever order the threads of all jobs deliver, the output of a job holds pieces of its
  own thread only, in their order, within the bound, and all of them when they fit together.
\<close>

theorem job_output_of_schedule:
  assumes "k < length (jt_slots t)" and "length (ej_output (jt_slots t ! k)) \<le> 16382"
  shows "let out = ej_output (jt_slots t ! k);
             own = chunks (map snd (filter (\<lambda>u. fst u = k) us));
             out' = ej_output (jt_slots (fold (\<lambda>(i, e). slot_event i e) us t) ! k)
         in subseq out' (out @ own) \<and> length out' \<le> 16382 \<and>
            (if length out + length own \<le> 16382 then out' = out @ own else True)"
proof -
  define own where "own = map snd (filter (\<lambda>u. fst u = k) us)"
  have "get_slot (cj.put_all us t) k = map_option (fold apply_event own) (get_slot t k)"
    unfolding own_def by (rule cj.lookup_put_all) simp
  then have "jt_slots (fold (\<lambda>(i, e). slot_event i e) us t) ! k = fold apply_event own (jt_slots t ! k)"
    using assms(1) by (simp add: get_slot_def cj.put_all_def split: if_splits)
  then show ?thesis
    using output_subseq [of own "jt_slots t ! k"] output_bounded [of "jt_slots t ! k" own]
      output_complete [of "jt_slots t ! k" own] assms(2)
    by (simp add: Let_def own_def [symmetric] OUTPUT_SIZE_def)
qed

theorem job_output_of_schedule_witness:
  "let t = init_jobs\<lparr>jt_next := 3\<rparr>;
       us = [(0, Chunk ''a''), (1, Chunk ''x''), (0, Chunk ''b''), (1, Finished 1 5 9), (0, Chunk ''c'')];
       out' = ej_output (jt_slots (fold (\<lambda>(i, e). slot_event i e) us t) ! 0)
   in subseq out' ''abc'' \<and> length out' \<le> 16382 \<and> out' = ''abc''"
proof -
  define us where "us = [(0::nat, Chunk ''a''), (1, Chunk ''x''), (0, Chunk ''b''), (1, Finished 1 5 9), (0, Chunk ''c'')]"
  have t: "0 < length (jt_slots (init_jobs\<lparr>jt_next := 3\<rparr>))"
    "ej_output (jt_slots (init_jobs\<lparr>jt_next := 3\<rparr>) ! 0) = []"
    by (simp_all add: init_jobs_def MAX_JOBS_def free_slot_def)
  moreover have "chunks (map snd (filter (\<lambda>u. fst u = 0) us)) = ''abc''"
    by (simp add: us_def chunks_def)
  ultimately show ?thesis
    using job_output_of_schedule [OF t(1), of us] unfolding us_def [symmetric] by (simp add: Let_def)
qed

section \<open>Finished jobs\<close>

lemma slot_kept_step:
  assumes "task_step lib (Running s ks) l (Running s' ks')" and "process_ok s ks"
    and "k < used_slots (ts_jobs s)" and "k \<notin> set ks"
  shows "jt_slots (ts_jobs s') ! k = jt_slots (ts_jobs s) ! k \<and> k \<notin> set ks'"
  using assms(1)
proof (cases rule: task_step.cases)
  case (connection now thread_ok received m slot)
  consider "ts_jobs s' = ts_jobs s" "slot = None"
    | i new command where "take_slot now i command (ts_jobs s) = (Some new, ts_jobs s')"
        "slot = None \<or> slot = Some new"
    using request_jobs [OF connection(3)] by blast
  then show ?thesis
  proof cases
    case 1
    then show ?thesis using connection(2) assms(4) by simp
  next
    case (2 i new command)
    have ok: "slots_ok (ts_jobs s)" using assms(2) by (simp add: process_ok_def)
    have new: "new = used_slots (ts_jobs s)" by (rule used_take_slot(2) [OF ok 2(1)])
    have "jt_slots (ts_jobs s') ! k = jt_slots (ts_jobs s) ! k"
      using 2(1) assms(3) new
      by (auto simp: take_slot_def split: option.splits dest!: sym [where t = "ts_jobs s'"])
    then show ?thesis using connection(2) assms(3,4) 2(2) new by auto
  qed
next
  case (chunk j d)
  then have "j \<noteq> k" using assms(4) by auto
  with chunk show ?thesis using assms(4) by (simp add: slot_event_def)
next
  case (finished j a b c)
  then have "j \<noteq> k" using assms(4) by auto
  with finished show ?thesis using assms(4) notin_set_remove1 [of k ks j] by (simp add: slot_event_def)
qed (use assms in auto)

lemma slot_kept_steps:
  assumes "task_steps lib p p'" and "p = Running s ks" and "p' = Running s' ks'" and "process_ok s ks"
    and "k < used_slots (ts_jobs s)" and "k \<notin> set ks"
  shows "jt_slots (ts_jobs s') ! k = jt_slots (ts_jobs s) ! k \<and> k \<notin> set ks'"
  using assms
proof (induction arbitrary: s' ks' rule: task_steps.induct)
  case (go p p1 l p2)
  obtain s1 ks1 where p1: "p1 = Running s1 ks1"
    using go.hyps(2) go.prems(2) by (cases rule: task_step.cases) auto
  have ok: "process_ok s1 ks1" using consistent_steps [OF go.hyps(1)] go.prems p1 by simp
  have "k < used_slots (ts_jobs s1)"
    using used_slots_steps [OF go.hyps(1) go.prems(1) go.prems(3) p1] go.prems(4) by simp
  with go.IH [OF go.prems(1) p1 go.prems(3-5)] slot_kept_step [OF go.hyps(2) [unfolded p1 go.prems(2)] ok]
  show ?case by simp
qed simp

text \<open>The request of a poll, as a browser sends it, and what the server reads in it.\<close>

definition poll_head :: "int \<Rightarrow> int \<Rightarrow> string" where
  "poll_head i n = ''GET /api/tasks/'' @ show_int i @ ''/output?job_id='' @ show_int n @ '' ''"

lemma show_int_codes: "c \<in> set (show_int i) \<Longrightarrow> 45 \<le> (of_char c :: nat) \<and> of_char c \<le> (57 :: nat)"
proof -
  have "45 \<le> (of_char c :: nat) \<and> of_char c \<le> (57 :: nat)" if "c \<in> set (show_nat n)" for n
    using show_nat_digits [OF that] by (auto simp: digit_char_def)
  then show "c \<in> set (show_int i) \<Longrightarrow> 45 \<le> (of_char c :: nat) \<and> of_char c \<le> (57 :: nat)"
    by (auto simp: show_int_def split: if_splits)
qed

lemma show_int_plain:
  assumes "c \<in> set (show_int i)"
  shows "\<not> isspace c" and "c \<noteq> CHR ''?''" and "c \<noteq> NUL"
  using show_int_codes [OF assms] by (auto simp: isspace_def)

lemma length_show_nat: "n < 10 ^ Suc k \<Longrightarrow> length (show_nat n) \<le> Suc k"
proof (induction k arbitrary: n)
  case 0
  then show ?case by (simp add: show_nat.simps [of n])
next
  case (Suc k)
  have "n div 10 < 10 ^ Suc k" using Suc.prems by (simp add: less_mult_imp_div_less)
  then show ?case using Suc.IH [of "n div 10"] by (simp add: show_nat.simps [of n])
qed

lemma length_show_int:
  assumes "is_int i"
  shows "length (show_int i) \<le> 11"
proof -
  have "nat i < 10 ^ Suc 9" "nat (- i) < 10 ^ Suc 9"
    using assms unfolding is_int_def INT_MIN_def INT_MAX_def power_numeral by (simp_all, arith+)
  then show ?thesis
    using length_show_nat [of "nat i" 9] length_show_nat [of "nat (- i)" 9] by (simp add: show_int_def)
qed

lemma scan_int_show:
  assumes "is_int i" and "leading_digits 10 rest = []"
  shows "scan_int (show_int i @ rest) = Ret (Some i)"
  using assms strtol_show_nat [OF assms(2), of "nat i"] strtol_show_nat [OF assms(2), of "nat (- i)"]
  by (auto simp: scan_int_def show_int_def)

lemma scan_word_found:
  assumes "w \<noteq> []" and "\<And>c. c \<in> set w \<Longrightarrow> \<not> isspace c" and "length w \<le> n"
  shows "scan_word n (w @ CHR '' '' # r) = Some (w, CHR '' '' # r)"
    and "scan_word n (CHR '' '' # w @ CHR '' '' # r) = Some (w, CHR '' '' # r)"
proof -
  have sp: "isspace (CHR '' '')" by (simp add: isspace_def)
  obtain c cs where w: "w = c # cs" using assms(1) by (cases w) auto
  have "dropWhile isspace (w @ CHR '' '' # r) = w @ CHR '' '' # r" using assms(2) by (simp add: w)
  moreover have "takeWhile (\<lambda>c. \<not> isspace c) (w @ CHR '' '' # r) = w"
    using assms(2) sp by (subst takeWhile_append2) auto
  moreover have "0 < n" using assms(1,3) by (cases n) auto
  ultimately show "scan_word n (w @ CHR '' '' # r) = Some (w, CHR '' '' # r)"
    and "scan_word n (CHR '' '' # w @ CHR '' '' # r) = Some (w, CHR '' '' # r)"
    using assms(1,3) sp by (simp_all add: scan_word_def Let_def)
qed

lemma poll_head_text:
  assumes "is_int i" and "is_int n"
  shows "c_str (take 8191 (poll_head i n @ rest)) =
    poll_head i n @ c_str (take (8191 - length (poll_head i n)) rest)"
proof -
  have "length (poll_head i n) \<le> 8191"
    using length_show_int [OF assms(1)] length_show_int [OF assms(2)] by (simp add: poll_head_def)
  moreover have "c \<noteq> NUL" if "c \<in> set (poll_head i n)" for c
    using that show_int_plain(3) by (auto simp: poll_head_def)
  then have "takeWhile (\<lambda>c. c \<noteq> NUL) (poll_head i n @ r) = poll_head i n @ takeWhile (\<lambda>c. c \<noteq> NUL) r" for r
    by (intro takeWhile_append2) blast
  ultimately show ?thesis by (simp add: c_str_def)
qed

lemma poll_served:
  assumes "is_int i" and "is_int n"
  shows "\<exists>r. serve_request lib now thread_ok (poll_head i n @ rest) s =
    omap (\<lambda>m. (Some m, None, s)) (handle_get_task_output (Some (''job_id='' @ show_int n @ CHR '' '' # r)) (ts_jobs s))"
proof -
  define path where "path = ''/api/tasks/'' @ show_int i @ ''/output?job_id='' @ show_int n"
  define r where "r = c_str (take (8191 - length (poll_head i n)) rest)"
  have "c_str (take 8191 (poll_head i n @ rest)) = ''GET'' @ CHR '' '' # path @ CHR '' '' # r"
    unfolding poll_head_text [OF assms] r_def [symmetric] by (simp add: poll_head_def path_def)
  moreover have verb: "scan_word 15 (''GET'' @ CHR '' '' # path @ CHR '' '' # r) =
      Some (''GET'', CHR '' '' # path @ CHR '' '' # r)"
    by (rule scan_word_found) (auto simp: isspace_def)
  moreover have "scan_word 255 (CHR '' '' # path @ CHR '' '' # r) = Some (path, CHR '' '' # r)"
  proof (rule scan_word_found(2))
    show "\<not> isspace c" if "c \<in> set path" for c
      using that show_int_plain(1) by (auto simp: path_def isspace_def)
    show "length path \<le> 255"
      using length_show_int [OF assms(1)] length_show_int [OF assms(2)] by (simp add: path_def)
  qed (simp add: path_def)
  moreover have "path \<noteq> ''/api/tasks''" by (simp add: path_def)
  moreover have "path_number path = Ret (Some i)"
  proof -
    have "leading_digits 10 (''/output?job_id='' @ show_int n) = []" by (simp add: digit_value_def Let_def)
    from scan_int_show [OF assms(1) this] show ?thesis by (simp add: path_number_def path_def)
  qed
  moreover have "after_text ''?'' (''GET'' @ CHR '' '' # path @ CHR '' '' # r) =
      Some (''job_id='' @ show_int n @ CHR '' '' # r)"
  proof -
    have "CHR ''?'' \<notin> set (''GET /api/tasks/'' @ show_int i @ ''/output'')"
      using show_int_plain(2) [of "CHR ''?''" i] by auto
    from find_sub_char [OF this, of "''job_id='' @ show_int n @ CHR '' '' # r"]
    show ?thesis by (simp add: after_text_def path_def)
  qed
  moreover have "poll_head i n \<noteq> []" by (simp add: poll_head_def)
  ultimately have "serve_request lib now thread_ok (poll_head i n @ rest) s =
    omap (\<lambda>m. (Some m, None, s)) (handle_get_task_output (Some (''job_id='' @ show_int n @ CHR '' '' # r)) (ts_jobs s))"
    by (simp add: serve_request_def c_get_def Let_def)
  then show ?thesis ..
qed

text \<open>
  C38: Once the thread of a job has ended, every poll of its number gets the same reply, whatever
  requests, threads and other parts of the program do in between. A poll is a request \<open>GET\<close> for the
  output of any task with \<open>job_id=\<close> and the number, followed by a blank and anything (the version of
  HTTP, headers, a body); the number of the task does not matter.
\<close>

theorem finished_job_poll_constant:
  assumes "task_steps lib (Running (new_task_server tasks w) []) (Running s ks)"
    and "task_steps lib (Running s ks) (Running s' ks')"
    and "k < used_slots (ts_jobs s)" and "k \<notin> set ks" and "is_int i"
  shows "serve_request lib now thread_ok (poll_head i (int k + 1) @ rest) s' =
    Ret (Some (c_message 200 ''application/json'' (job_reply (jt_slots (ts_jobs s) ! k))), None, s')"
proof -
  have ok: "process_ok s ks" using consistent_steps [OF assms(1) consistent_start] by simp
  have "process_ok s' ks'" using consistent_steps [OF assms(2)] ok by simp
  then have t: "slots_ok (ts_jobs s')" by (simp add: process_ok_def)
  have kept: "jt_slots (ts_jobs s') ! k = jt_slots (ts_jobs s) ! k"
    using slot_kept_steps [OF assms(2) refl refl ok assms(3,4)] by simp
  have "used_slots (ts_jobs s) \<le> used_slots (ts_jobs s')"
    by (rule used_slots_steps [OF assms(2) refl ok refl])
  then have used: "int k + 1 < jt_next (ts_jobs s')" "k < MAX_JOBS"
    using assms(3) t by (auto simp: used_slots_def slots_ok_def)
  then have n: "is_int (int k + 1)" by (simp add: is_int_def INT_MIN_def INT_MAX_def MAX_JOBS_def)
  obtain r where r: "serve_request lib now thread_ok (poll_head i (int k + 1) @ rest) s' =
      omap (\<lambda>m. (Some m, None, s'))
        (handle_get_task_output (Some (''job_id='' @ show_int (int k + 1) @ CHR '' '' # r)) (ts_jobs s'))"
    using poll_served [OF assms(5) n] by blast
  have "leading_digits 10 (CHR '' '' # r) = []" by (simp add: digit_value_def Let_def)
  from scan_int_show [OF n this]
  have "query_job_id (Some (''job_id='' @ show_int (int k + 1) @ CHR '' '' # r)) = Ret (int k + 1)"
    by (simp add: query_job_id_def)
  moreover have "find_slot (int k + 1) (ts_jobs s') = Some k"
    using used by (simp add: find_slot_used [OF t] nat_add_distrib)
  ultimately show ?thesis by (simp add: r handle_get_task_output_def kept)
qed

theorem finished_job_poll_constant_witness:
  "\<exists>s. task_steps demo_library (Running (new_task_server no_tasks ()) []) (Running s []) \<and>
     ej_duration (jt_slots (ts_jobs s) ! 0) = 5 \<and>
     serve_request demo_library 7 True (poll_head 1 1 @ ''HTTP/1.1'' @ crlf @ ''Host: localhost'' @ crlf @ crlf) s =
       Ret (Some (c_message 200 ''application/json'' (job_reply (jt_slots (ts_jobs s) ! 0))), None, s)"
proof -
  define s0 where "s0 = new_task_server no_tasks ()"
  have ok: "process_ok s0 []" using consistent_start [of no_tasks "()"] by (simp add: s0_def)
  have u0: "used_slots (ts_jobs s0) = 0" by (simp add: s0_def new_task_server_def init_jobs_def used_slots_def)
  obtain m s1 where step: "task_step demo_library (Running s0 []) (Sent m) (Running s1 [0])"
    and u1: "used_slots (ts_jobs s1) = 1"
    using ls_request_starts [OF ok] u0 by (auto simp: MAX_JOBS_def)
  define s where "s = s1\<lparr>ts_jobs := slot_event 0 (Finished 1 5 9) (ts_jobs s1)\<rparr>"
  have "task_step demo_library (Running s1 [0]) Silent (Running s [])"
    using task_step.finished [of 0 "[0]" demo_library s1 1 5 9] by (simp add: s_def)
  with step have steps: "task_steps demo_library (Running s0 []) (Running s [])"
    using task_steps.intros by metis
  have used: "0 < used_slots (ts_jobs s)" using u1 by (simp add: s_def slot_event_def used_slots_def)
  have "process_ok s1 [0]" using consistent_step [OF step] ok by simp
  then have "0 < length (jt_slots (ts_jobs s1))" by (simp add: process_ok_def slots_ok_def MAX_JOBS_def)
  then have "ej_duration (jt_slots (ts_jobs s) ! 0) = 5" by (simp add: s_def slot_event_def)
  moreover have "is_int 1" by (simp add: is_int_def INT_MIN_def INT_MAX_def)
  ultimately show ?thesis
    using finished_job_poll_constant [OF steps [unfolded s0_def] task_steps.stay used, of 1] steps
    by (auto simp: s0_def)
qed

section \<open>Patches\<close>

text \<open>The calls that change files, for a library whose world records them; of the call for a commit also
  the result, which is 0 when it has succeeded.\<close>

datatype patch_call =
  Apply_call string string | Rollback_call string | Test_call | Commit_call string string int

definition records_calls :: "patch_call list task_library \<Rightarrow> bool" where
  "records_calls lib \<longleftrightarrow>
     (\<forall>f p w. snd (lib_patch_apply lib f p w) = w @ [Apply_call f p]) \<and>
     (\<forall>f w. lib_patch_rollback lib f w = w @ [Rollback_call f]) \<and>
     (\<forall>n w. snd (snd (lib_patch_run_tests lib n w)) = w @ [Test_call]) \<and>
     (\<forall>f m w. snd (lib_patch_commit lib f m w) = w @ [Commit_call f m (fst (lib_patch_commit lib f m w))])"

lemma scan_field_no_quote: "quote \<notin> set old \<Longrightarrow> quote \<notin> set (scan_field n key old body)"
  by (auto simp: scan_field_def bind_eq_Some_conv dest: scan_quoted_bounded split: option.split)

text \<open>What a request that has reached the commit is answered with; \<open>git\<close> is the result of the commit.\<close>

definition commit_message :: "string \<Rightarrow> int \<Rightarrow> string" where \<open>
  commit_message f git = c_message 200 ''application/json''
     (snprintf 2048 (''{"success":true,"file_path":"'' @ f @
        ''","tests_passed":true,"committed":'' @ show_bool (git = 0) @ ''}''))\<close>

text \<open>
  C39: The calls a request to apply a patch makes, and its answer, on every branch. A request without a
  path or a patch makes none. A patch whose tests fail, when it is applied or in the second run, is
  handed to \<open>patch_rollback\<close> and answered with 400; one that has passed both is handed to git. A commit
  that fails is not followed by a rollback: the patched file stays as it is, neither committed nor
  rolled back, and the answer has status 200 and \<open>"success":true\<close>, with \<open>"committed":false\<close>.
\<close>

theorem patch_committed_or_rolled_back:
  assumes "records_calls lib" and "handle_code_apply lib body s = Ret (m, s')"
  shows "\<exists>calls. ts_world s' = ts_world s @ calls \<and>
    (calls = [] \<and> m = json_error 400 ''Missing file_path or patch'' \<or>
     (\<exists>f p. f \<noteq> [] \<and> p \<noteq> [] \<and> length f \<le> 511 \<and> quote \<notin> set p \<and>
        (if ar_test_passed (fst (lib_patch_apply lib f p (ts_world s))) = 0
         then calls = [Apply_call f p, Rollback_call f] \<and> (\<exists>e. m = tests_failed_message ''Tests failed'' e)
         else if fst (lib_patch_run_tests lib 16384 (ts_world s @ [Apply_call f p])) = 0
         then calls = [Apply_call f p, Test_call, Rollback_call f] \<and>
           (\<exists>e. m = tests_failed_message ''Tests failed after patch'' e)
         else (\<exists>msg git. calls = [Apply_call f p, Test_call, Commit_call f msg git] \<and>
           m = commit_message f git))))"
proof -
  define f where "f = scan_field 511 (json_key ''file_path'') [] body"
  define p where "p = scan_field 32767 (json_key ''patch'') [] body"
  obtain r w1 where r: "lib_patch_apply lib f p (ts_world s) = (r, w1)" by force
  obtain passed log w2 where t: "lib_patch_run_tests lib 16384 w1 = (passed, log, w2)"
    by (metis prod_cases3)
  obtain git w3 where g: "lib_patch_commit lib f (snprintf 256 (''Apply code modification to '' @ f)) w2 = (git, w3)"
    by force
  have w: "w1 = ts_world s @ [Apply_call f p]" "w2 = w1 @ [Test_call]"
      "w3 = w2 @ [Commit_call f (snprintf 256 (''Apply code modification to '' @ f)) git]"
      "\<And>w. lib_patch_rollback lib f w = w @ [Rollback_call f]"
    using assms(1) r t g unfolding records_calls_def by (metis fst_conv snd_conv)+
  show ?thesis
  proof (cases "f = [] \<or> p = []")
    case True
    then show ?thesis using assms(2) unfolding handle_code_apply_def f_def [symmetric] p_def [symmetric] Let_def
      by auto
  next
    case False
    have fields: "length f \<le> 511" "quote \<notin> set p"
      using scan_field_bounded [of "[]" 511] by (simp_all add: f_def p_def scan_field_no_quote)
    have run: "fst (lib_patch_run_tests lib 16384 (ts_world s @ [Apply_call f p])) = passed" using t w(1) by simp
    define calls where "calls = drop (length (ts_world s)) (ts_world s')"
    have world: "ts_world s' = ts_world s @ calls"
      using assms(2) False w unfolding calls_def handle_code_apply_def f_def [symmetric] p_def [symmetric]
        Let_def r t g prod.case by (auto simp: omap_Ret_iff split: if_splits)
    have outcome: "if ar_test_passed (fst (lib_patch_apply lib f p (ts_world s))) = 0
        then calls = [Apply_call f p, Rollback_call f] \<and> (\<exists>e. m = tests_failed_message ''Tests failed'' e)
        else if fst (lib_patch_run_tests lib 16384 (ts_world s @ [Apply_call f p])) = 0
        then calls = [Apply_call f p, Test_call, Rollback_call f] \<and>
          (\<exists>e. m = tests_failed_message ''Tests failed after patch'' e)
        else (\<exists>msg git. calls = [Apply_call f p, Test_call, Commit_call f msg git] \<and> m = commit_message f git)"
      using assms(2) False w unfolding run commit_message_def calls_def handle_code_apply_def f_def [symmetric] p_def [symmetric]
        Let_def r t g prod.case by (auto simp: omap_Ret_iff split: if_splits)
    have "f \<noteq> []" "p \<noteq> []" using False by simp_all
    note all = conjI [OF this(1) conjI [OF this(2) conjI [OF fields(1) conjI [OF fields(2) outcome]]]]
    show ?thesis
      by (rule exI, rule conjI, rule world, rule disjI2, rule exI, rule exI, rule all)
  qed
qed

definition recording_library :: "patch_call list task_library" where
  "recording_library =
     \<lparr>lib_task_create = (\<lambda>l name p w. (0, l, w)), lib_task_get = (\<lambda>l i. False),
      lib_task_start = (\<lambda>l i w. (l, w)), lib_task_set_progress = (\<lambda>l i p w. (l, w)),
      lib_parse_query = (\<lambda>q w. (\<lparr>cq_intent = QUERY_HELP, cq_query = q, cq_context = [], cq_metric = [],
         cq_subject = [], cq_week = - 1, cq_round = - 1, cq_confidence = 100, cq_debug_info = []\<rparr>, w)),
      lib_generate_response = (\<lambda>q w. (None, w)),
      lib_patch_generate = (\<lambda>f m w. (\<lparr>pr_file_path = f, pr_original_content = [], pr_patched_content = [],
         pr_diff = [NUL], pr_success = 0, pr_error_message = [NUL]\<rparr>, w)),
      lib_patch_apply = (\<lambda>f p w. (\<lparr>ar_patch_content = p, ar_file_path = f, ar_test_passed = 1,
         ar_test_output = [NUL], ar_git_commit = []\<rparr>, w @ [Apply_call f p])),
      lib_patch_rollback = (\<lambda>f w. w @ [Rollback_call f]),
      lib_patch_run_tests = (\<lambda>n w. (0, ''1 failed'' @ [NUL], w @ [Test_call])),
      lib_patch_commit = (\<lambda>f m w. (0, w @ [Commit_call f m 0])),
      lib_app_js = []\<rparr>"

theorem patch_committed_or_rolled_back_witness:
  \<open>let body = ''{"file_path":"a.c","patch":"-x"}'';
       s = new_task_server no_tasks [];
       m = tests_failed_message ''Tests failed after patch'' ''1 failed''
   in handle_code_apply recording_library body s =
        Ret (m, s\<lparr>ts_world := [Apply_call ''a.c'' ''-x'', Test_call, Rollback_call ''a.c'']\<rparr>) \<and>
      (\<exists>f p. f \<noteq> [] \<and> quote \<notin> set p \<and> [Apply_call ''a.c'' ''-x'', Test_call, Rollback_call ''a.c''] = [Apply_call f p, Test_call, Rollback_call f])\<close>
proof -
  define s :: "patch_call list task_server" where "s = new_task_server no_tasks []"
  define m where "m = tests_failed_message ''Tests failed after patch'' ''1 failed''"
  define s' where "s' = s\<lparr>ts_world := [Apply_call ''a.c'' ''-x'', Test_call, Rollback_call ''a.c'']\<rparr>"
  define body where \<open>body = ''{"file_path":"a.c","patch":"-x"}''\<close>
  have found: \<open>after_text (json_key ''file_path'') body = Some ''"a.c","patch":"-x"}''\<close>
    \<open>after_text (json_key ''patch'') body = Some ''"-x"}''\<close>
    unfolding body_def by code_simp+
  have fields: "scan_field 511 (json_key ''file_path'') [] body = ''a.c''"
    "scan_field 32767 (json_key ''patch'') [] body = ''-x''"
    by (simp_all add: scan_field_def found Let_def)
  have esc: "escape_json_string 2048 (''1 failed'' @ [NUL]) = Ret ''1 failed''"
    using escape_loop_correct [of "''1 failed''" "[]" 2048 "[]"]
    by (simp add: escape_json_string_def strip_ansi.simps ansi_closed.simps escape_text_def escape_char_def newline_def)
  have run: "handle_code_apply recording_library body s = Ret (m, s')"
    using esc by (simp add: handle_code_apply_def fields s_def s'_def m_def recording_library_def new_task_server_def Let_def)
  have "records_calls recording_library" by (simp add: records_calls_def recording_library_def)
  from patch_committed_or_rolled_back [OF this run]
  have "\<exists>f p. f \<noteq> [] \<and> quote \<notin> set p \<and>
      [Apply_call ''a.c'' ''-x'', Test_call, Rollback_call ''a.c''] = [Apply_call f p, Test_call, Rollback_call f]"
    by (fastforce simp: s'_def s_def new_task_server_def recording_library_def)
  from conjI [OF run this] show ?thesis
    unfolding body_def s_def m_def s'_def Let_def .
qed

end
