(* ===== verification/Shared_Council.thy ===== *)
theory Shared_Council
  imports Council_Properties
begin

text \<open>
  The one council of the web server under several job threads (\<open>HttpServer::execute_query_async\<close>
  with \<open>CouncilOrchestrator::initialize_analysts\<close> and \<open>run_debate\<close>). A debate is taken apart at the
  places where another thread can act: before and after each round and before the result is
  collected. A round works on the pool, the client and the voting system for a long time without a
  lock; replacing these objects meanwhile, or working on them as well, is undefined. When two
  threads never do that at the same time, the steps are as in the model of the council.
\<close>

section \<open>Debates in steps\<close>

text \<open>What a job thread brings along: its client, its query and its rounds.\<close>

record 'c debate_job =
  dj_client :: "'c option"
  dj_query :: string
  dj_rounds :: int

text \<open>\<open>Between r\<close> is at the test of the loop with \<open>r\<close> rounds completed, \<open>Inside r\<close> in \<open>run_round\<close>.\<close>

datatype debate_phase =
  Waiting | Between int | Inside int | Closing | Done "debate_result option"

datatype 'c shared_council = Going "'c council" "debate_phase list" | Torn string

definition busy :: "nat \<Rightarrow> debate_phase list \<Rightarrow> bool" where
  "busy k ph \<longleftrightarrow> (\<exists>i < length ph. i \<noteq> k \<and> (\<exists>r. ph ! i = Inside r))"

text \<open>One step of thread \<open>k\<close>.\<close>

definition debate_step ::
  "'c answers \<Rightarrow> string list \<Rightarrow> 'c debate_job list \<Rightarrow> nat \<Rightarrow> 'c council \<Rightarrow> debate_phase list \<Rightarrow>
   'c shared_council" where
  "debate_step answer ms js k c ph =
     (let j = js ! k
      in case ph ! k of
           Waiting \<Rightarrow>
             if dj_client j = None \<or> ms = [] then Going c (ph[k := Done None])
             else if busy k ph then Torn ''use after free''
             else Going (snd (initialize_analysts (dj_client j) ms c)) (ph[k := Between 0])
         | Between r \<Rightarrow>
             if r < dj_rounds j
             then if busy k ph then Torn ''data race'' else Going c (ph[k := Inside r])
             else Going c (ph[k := Closing])
         | Inside r \<Rightarrow>
             (case run_round answer (dj_query j) r c of
                (True, c') \<Rightarrow> Going c' (ph[k := Between (r + 1)])
              | (False, c') \<Rightarrow> Going c' (ph[k := Closing]))
         | Closing \<Rightarrow>
             if busy k ph then Torn ''data race''
             else Going c (ph[k := Done (Some (finalize_results c))])
         | Done res \<Rightarrow> Going c ph)"

fun debate_steps ::
  "'c answers \<Rightarrow> string list \<Rightarrow> 'c debate_job list \<Rightarrow> nat list \<Rightarrow> 'c shared_council \<Rightarrow>
   'c shared_council" where
  "debate_steps answer ms js [] s = s"
| "debate_steps answer ms js (k # ks) (Going c ph) =
     debate_steps answer ms js ks (debate_step answer ms js k c ph)"
| "debate_steps answer ms js (k # ks) (Torn r) = Torn r"

section \<open>A thread alone\<close>

lemma busy_update: "busy k (ph[k := p]) = busy k ph"
  by (auto simp: busy_def nth_list_update)

text \<open>What remains to be done gives the result of the whole debate.\<close>

fun on_course :: "'c answers \<Rightarrow> string \<Rightarrow> int \<Rightarrow> 'c council \<Rightarrow> 'c council \<Rightarrow> debate_phase \<Rightarrow> bool" where
  "on_course answer q n c0 c Waiting = False"
| "on_course answer q n c0 c (Between r) =
     (0 \<le> r \<and> run_rounds answer q n 0 0 c0 = run_rounds answer q n r r c)"
| "on_course answer q n c0 c (Inside r) =
     (0 \<le> r \<and> r < n \<and> run_rounds answer q n 0 0 c0 = run_rounds answer q n r r c)"
| "on_course answer q n c0 c Closing = (snd (run_rounds answer q n 0 0 c0) = c)"
| "on_course answer q n c0 c (Done res) =
     (snd (run_rounds answer q n 0 0 c0) = c \<and> res = Some (finalize_results c))"

lemma on_course_step:
  assumes "on_course answer (dj_query (js ! k)) (dj_rounds (js ! k)) c0 c (ph ! k)"
    and "\<not> busy k ph" and "k < length ph"
  shows "\<exists>c' p. debate_step answer ms js k c ph = Going c' (ph[k := p]) \<and>
    on_course answer (dj_query (js ! k)) (dj_rounds (js ! k)) c0 c' p"
proof (cases "ph ! k")
  case (Between r)
  then show ?thesis using assms
    by (cases "r < dj_rounds (js ! k)") (auto simp: debate_step_def Let_def run_rounds.simps [of _ _ _ r])
next
  case (Inside r)
  then show ?thesis using assms(1)
    by (auto simp: debate_step_def Let_def run_rounds.simps [of _ _ _ r] split: prod.split bool.split)
next
  case (Done res)
  then have "ph[k := Done res] = ph" by (metis list_update_id)
  then show ?thesis using assms Done
    by (intro exI [of _ c] exI [of _ "Done res"]) (simp add: debate_step_def)
qed (use assms in \<open>auto simp: debate_step_def\<close>)

lemma on_course_steps:
  assumes "on_course answer (dj_query (js ! k)) (dj_rounds (js ! k)) c0 c (ph ! k)"
    and "\<not> busy k ph" and "k < length ph"
  shows "\<exists>c' p. debate_steps answer ms js (replicate m k) (Going c ph) = Going c' (ph[k := p]) \<and>
    on_course answer (dj_query (js ! k)) (dj_rounds (js ! k)) c0 c' p"
  using assms
proof (induction m arbitrary: c ph)
  case 0
  then show ?case by (intro exI [of _ c] exI [of _ "ph ! k"]) simp
next
  case (Suc m)
  obtain c1 p1 where s: "debate_step answer ms js k c ph = Going c1 (ph[k := p1])"
    and on: "on_course answer (dj_query (js ! k)) (dj_rounds (js ! k)) c0 c1 p1"
    using on_course_step [OF Suc.prems] by blast
  from Suc.IH [of c1 "ph[k := p1]"] Suc.prems on show ?case by (simp add: s busy_update)
qed


text \<open>Steps a thread still needs.\<close>

fun steps_left :: "int \<Rightarrow> debate_phase \<Rightarrow> nat" where
  "steps_left n Waiting = 2 * nat n + 3"
| "steps_left n (Between r) = 2 * nat (n - r) + 2"
| "steps_left n (Inside r) = 2 * nat (n - r) + 1"
| "steps_left n Closing = 1"
| "steps_left n (Done res) = 0"

lemma steps_left_decreases:
  assumes "on_course answer (dj_query (js ! k)) (dj_rounds (js ! k)) c0 c (ph ! k)"
    and "debate_step answer ms js k c ph = Going c' ph'" and "k < length ph" and "\<forall>res. ph ! k \<noteq> Done res"
  shows "steps_left (dj_rounds (js ! k)) (ph' ! k) < steps_left (dj_rounds (js ! k)) (ph ! k)"
  using assms
  by (cases "ph ! k") (auto simp: debate_step_def Let_def split: if_splits prod.splits bool.splits)

lemma steps_left_0: "steps_left n p = 0 \<longleftrightarrow> (\<exists>res. p = Done res)"
  by (cases p) simp_all

lemma on_course_finishes:
  assumes "on_course answer (dj_query (js ! k)) (dj_rounds (js ! k)) c0 c (ph ! k)"
    and "\<not> busy k ph" and "k < length ph" and "steps_left (dj_rounds (js ! k)) (ph ! k) \<le> m"
  shows "debate_steps answer ms js (replicate m k) (Going c ph) =
    (let c' = snd (run_rounds answer (dj_query (js ! k)) (dj_rounds (js ! k)) 0 0 c0)
     in Going c' (ph[k := Done (Some (finalize_results c'))]))"
  using assms
proof (induction m arbitrary: c ph)
  case 0
  then obtain res where "ph ! k = Done res" using steps_left_0 by auto
  moreover from this have "ph[k := Done res] = ph" by (metis list_update_id)
  ultimately show ?case using 0 by (auto simp: Let_def)
next
  case (Suc m)
  obtain c1 p1 where s: "debate_step answer ms js k c ph = Going c1 (ph[k := p1])"
    and on: "on_course answer (dj_query (js ! k)) (dj_rounds (js ! k)) c0 c1 p1"
    using on_course_step [OF Suc.prems(1-3)] by blast
  have "steps_left (dj_rounds (js ! k)) p1 \<le> m"
  proof (cases "\<exists>res. ph ! k = Done res")
    case True
    then have "ph[k := p1] = ph" using s by (auto simp: debate_step_def)
    then have "p1 = ph ! k" using Suc.prems(3) by (metis nth_list_update_eq)
    then show ?thesis using True by auto
  next
    case False
    with steps_left_decreases [OF Suc.prems(1) s Suc.prems(3)] Suc.prems(3,4) show ?thesis by simp
  qed
  with Suc.IH [of c1 "ph[k := p1]"] Suc.prems on show ?case by (simp add: s busy_update Let_def)
qed

lemma start_step:
  assumes "ph ! k = Waiting" and "\<not> busy k ph" and "dj_client (js ! k) = Some cl" and "ms \<noteq> []"
  shows "debate_step answer ms js k c ph =
    Going (snd (initialize_analysts (Some cl) ms c)) (ph[k := Between 0])"
  using assms by (simp add: debate_step_def)

text \<open>
  C12: A debate during which no other thread takes a step, begun while no other thread is inside a
  round, is the debate of the council: from a waiting thread, 2 n + 3 steps of its own for n rounds,
  and any number of further ones, lead to the council and the result of \<open>run_debate\<close> on a freshly
  initialised council. (That no other thread is inside a round would not be enough: see the third
  schedule of C13, in which the other thread only initialises the council.)
\<close>

theorem debate_alone_refines_run_debate:
  assumes "k < length ph" and "ph ! k = Waiting" and "\<not> busy k ph"
    and "dj_client (js ! k) = Some cl" and "ms \<noteq> []" and "2 * nat (dj_rounds (js ! k)) + 3 \<le> m"
  shows "debate_steps answer ms js (replicate m k) (Going c ph) =
    (let (res, c') = run_debate answer (dj_query (js ! k)) (dj_rounds (js ! k))
           (snd (initialize_analysts (Some cl) ms c))
     in Going c' (ph[k := Done (Some res)]))"
proof -
  define c0 where "c0 = snd (initialize_analysts (Some cl) ms c)"
  have "is_initialized c0" using assms(5) by (simp add: c0_def initialize_analysts_def is_initialized_def)
  then have run: "run_debate answer (dj_query (js ! k)) (dj_rounds (js ! k)) c0 =
      (let c' = snd (run_rounds answer (dj_query (js ! k)) (dj_rounds (js ! k)) 0 0 c0)
       in (finalize_results c', c'))"
    by (simp add: run_debate_def case_prod_beta Let_def)
  obtain m' where m: "m = Suc m'" using assms(6) by (cases m) auto
  have "debate_steps answer ms js (replicate m k) (Going c ph) =
      debate_steps answer ms js (replicate m' k) (Going c0 (ph[k := Between 0]))"
    by (simp add: m start_step [OF assms(2-5)] c0_def)
  also have "\<dots> = (let c' = snd (run_rounds answer (dj_query (js ! k)) (dj_rounds (js ! k)) 0 0 c0)
      in Going c' (ph[k := Between 0, k := Done (Some (finalize_results c'))]))"
    using assms(1,3,6) m by (intro on_course_finishes) (simp_all add: busy_update)
  finally show ?thesis by (simp add: run c0_def [symmetric] Let_def)
qed

definition two_jobs :: "unit debate_job list" where
  "two_jobs = [\<lparr>dj_client = Some (), dj_query = ''q'', dj_rounds = 1\<rparr>,
               \<lparr>dj_client = Some (), dj_query = ''p'', dj_rounds = 1\<rparr>]"

lemma two_jobs_idle: "\<not> busy k [Waiting, Waiting]"
  by (auto simp: busy_def nth_Cons split: nat.splits)

theorem debate_alone_refines_run_debate_witness:
  "debate_steps fading_answers [''m1'', ''m2''] two_jobs (replicate 5 0)
     (Going (new_council configuration_default) [Waiting, Waiting]) =
   (let (res, c') = run_debate fading_answers ''q'' 1 demo_council in Going c' [Done (Some res), Waiting])"
  using debate_alone_refines_run_debate [where k = 0 and ph = "[Waiting, Waiting]" and js = two_jobs
      and ms = "[''m1'', ''m2'']" and cl = "()" and m = 5 and answer = fading_answers
      and c = "new_council configuration_default"]
  by (simp add: two_jobs_idle two_jobs_def demo_council_def)

section \<open>Two threads at once\<close>

lemma busy_with: "i \<noteq> j \<Longrightarrow> i < length ph \<Longrightarrow> busy j (ph[i := Inside r])"
  by (auto simp: busy_def intro!: exI [of _ i])

lemma not_busy_with: "\<not> busy j ph \<Longrightarrow> (\<And>r. p \<noteq> Inside r) \<Longrightarrow> \<not> busy j (ph[i := p])"
  by (auto simp: busy_def) (metis nth_list_update_eq nth_list_update_neq)

lemma busy_other: "ph ! i = Waiting \<Longrightarrow> \<not> busy i ph \<Longrightarrow> \<not> busy j ph"
  by (auto simp: busy_def)

lemma update_again: "i \<noteq> j \<Longrightarrow> xs[i := a, j := b, i := c] = xs[i := c, j := b]"
  by (metis list_update_overwrite list_update_swap)

text \<open>The result that is collected after another thread has started: the winner of the new pool, who has
  not said anything yet.\<close>

lemma fresh_pool_responses:
  assumes "council_pool c = Some (new_pool ms)"
  shows "winner_responses (finalize_results c) = []"
proof -
  have silent: "get_response a r = []" if "a \<in> set (analysts (new_pool ms))" for a r
    using that by (auto simp: new_pool_def new_analyst_def get_response_def)
  have "collect_responses a n = []" if "get_analyst (new_pool ms) i = Some a" for a n i
  proof -
    have "a \<in> set (analysts (new_pool ms))"
      using that by (auto simp: get_analyst_def analyst_count_def split: if_splits)
    then show ?thesis by (simp add: collect_responses_def silent filter_empty_conv)
  qed
  then show ?thesis
    using assms by (auto simp: finalize_results_def Let_def debate_result_default_def split: option.split)
qed

text \<open>Running alone, a debate reaches the point before its result is collected.\<close>

lemma debate_steps_append:
  "debate_steps answer ms js (xs @ ys) s = debate_steps answer ms js ys (debate_steps answer ms js xs s)"
proof (induction xs arbitrary: s)
  case (Cons x xs)
  then show ?case by (cases s) (simp_all, cases ys, simp_all)
qed simp

lemma on_course_closes:
  assumes "on_course answer (dj_query (js ! k)) (dj_rounds (js ! k)) c0 c (ph ! k)"
    and "\<not> busy k ph" and "k < length ph" and "\<And>res. ph ! k \<noteq> Done res"
  shows "\<exists>m c'. m < steps_left (dj_rounds (js ! k)) (ph ! k) \<and>
    debate_steps answer ms js (replicate m k) (Going c ph) = Going c' (ph[k := Closing])"
  using assms
proof (induction "steps_left (dj_rounds (js ! k)) (ph ! k)" arbitrary: c ph rule: less_induct)
  case less
  show ?case
  proof (cases "ph ! k = Closing")
    case True
    then have "ph[k := Closing] = ph" by (metis list_update_id)
    with True show ?thesis by (intro exI [of _ 0]) simp
  next
    case False
    obtain c1 p1 where s: "debate_step answer ms js k c ph = Going c1 (ph[k := p1])"
      and on: "on_course answer (dj_query (js ! k)) (dj_rounds (js ! k)) c0 c1 p1"
      using on_course_step [OF less.prems(1-3)] by blast
    have open_p1: "p1 \<noteq> Done res" for res
      using s less.prems(1,3,4) False
      by (cases "ph ! k") (auto simp: debate_step_def Let_def split: if_splits prod.splits bool.splits
          dest!: arg_cong [where f = "\<lambda>x. x ! k"])
    have left: "steps_left (dj_rounds (js ! k)) p1 < steps_left (dj_rounds (js ! k)) (ph ! k)"
      using steps_left_decreases [OF less.prems(1) s less.prems(3)] less.prems(3,4) by simp
    with less.hyps [of "ph[k := p1]" c1] on open_p1 less.prems(2,3)
    obtain m c' where m: "m < steps_left (dj_rounds (js ! k)) p1"
      and steps: "debate_steps answer ms js (replicate m k) (Going c1 (ph[k := p1])) = Going c' (ph[k := Closing])"
      by (auto simp: busy_update)
    from m left steps s show ?thesis by (intro exI [of _ "Suc m"]) auto
  qed
qed

text \<open>
  C13: Two queries at once: for any two waiting threads with at least one round to run each there is a
  schedule in which the second frees the pool that the first works on, one in which both work on it,
  and one without such an accident in which the second takes the place of the first after its last
  round: the first then reports a result without responses, whatever its analysts answered.
\<close>

theorem overlapping_debates_fail:
  assumes "i \<noteq> j" "i < length ph" "j < length ph" "ph ! i = Waiting" "ph ! j = Waiting" "\<not> busy i ph"
    and "dj_client (js ! i) = Some cl" "dj_client (js ! j) = Some cl'" "ms \<noteq> []"
    and "0 < dj_rounds (js ! i)" "0 < dj_rounds (js ! j)"
  shows "debate_steps answer ms js [i, i, j] (Going c ph) = Torn ''use after free'' \<and>
    debate_steps answer ms js [i, j, i, j] (Going c ph) = Torn ''data race'' \<and>
    (\<exists>m c' ph' res. m \<le> 2 * nat (dj_rounds (js ! i)) + 2 \<and>
       debate_steps answer ms js (replicate m i @ [j, i]) (Going c ph) = Going c' ph' \<and>
       ph' ! i = Done (Some res) \<and> winner_responses res = [])"
proof -
  define c1 where "c1 = snd (initialize_analysts (Some cl) ms c)"
  have idle: "\<not> busy j ph" using busy_other assms(4,6) by blast
  have start: "debate_step answer ms js i c ph = Going c1 (ph[i := Between 0])"
    unfolding c1_def by (rule start_step [OF assms(4,6,7,9)])
  have enter: "debate_step answer ms js i d (ph'[i := Between 0]) = Going d (ph'[i := Inside 0])"
    if "\<not> busy i ph'" "length ph' = length ph" for d ph'
    using that assms(2,10) by (simp add: debate_step_def busy_update Let_def)
  have torn: "debate_step answer ms js j d (ph[i := Inside 0]) = Torn ''use after free''" for d
    using assms(1,2,5,8,9) by (simp add: debate_step_def busy_with)
  have start': "debate_step answer ms js j d (ph[i := q]) =
      Going (snd (initialize_analysts (Some cl') ms d)) (ph[i := q, j := Between 0])"
    if "\<And>r. q \<noteq> Inside r" for d q
    using that assms(1,5,8,9) idle by (intro start_step) (simp_all add: not_busy_with)
  have race: "debate_step answer ms js j d (ph[i := Inside 0, j := Between 0]) = Torn ''data race''" for d
    using assms(1,2,3,11) busy_with [of i j ph 0] by (simp add: debate_step_def busy_update Let_def)
  have first: "debate_steps answer ms js [i, i, j] (Going c ph) = Torn ''use after free''"
    using start enter [OF assms(6) refl] torn by simp
  have "\<not> busy i (ph[j := Between 0])" by (simp add: assms(6) not_busy_with)
  from enter [OF this] have second: "debate_steps answer ms js [i, j, i, j] (Going c ph) = Torn ''data race''"
    using start start' [of "Between 0"] race assms(1) by (simp add: list_update_swap)
  have "on_course answer (dj_query (js ! i)) (dj_rounds (js ! i)) c1 c1 (ph[i := Between 0] ! i)"
    using assms(2) by simp
  from on_course_closes [OF this, of ms] assms(2,6) obtain m d
    where m: "m < 2 * nat (dj_rounds (js ! i)) + 2"
      and alone: "debate_steps answer ms js (replicate m i) (Going c1 (ph[i := Between 0])) = Going d (ph[i := Closing])"
    by (auto simp: busy_update)
  define d' where "d' = snd (initialize_analysts (Some cl') ms d)"
  have pool: "council_pool d' = Some (new_pool ms)" using assms(9) by (simp add: d'_def initialize_analysts_def)
  have close: "debate_step answer ms js i d' (ph[i := Closing, j := Between 0]) =
      Going d' (ph[i := Done (Some (finalize_results d')), j := Between 0])"
    using assms(1,2,6) by (simp add: debate_step_def busy_update not_busy_with update_again)
  have third: "debate_steps answer ms js (replicate (Suc m) i @ [j, i]) (Going c ph) =
      Going d' (ph[i := Done (Some (finalize_results d')), j := Between 0])"
    by (simp add: debate_steps_append start alone start' close d'_def [symmetric])
  have "(ph[i := Done (Some (finalize_results d')), j := Between 0]) ! i = Done (Some (finalize_results d'))"
    using assms(1,2) by simp
  with first second third m fresh_pool_responses [OF pool] show ?thesis
    by (intro conjI exI [of _ "Suc m"] exI) simp_all
qed

theorem overlapping_debates_fail_witness:
  "debate_steps fading_answers [''m1'', ''m2''] two_jobs [0, 0, 1]
     (Going (new_council configuration_default) [Waiting, Waiting]) = Torn ''use after free'' \<and>
   debate_steps fading_answers [''m1'', ''m2''] two_jobs [0, 1, 0, 1]
     (Going (new_council configuration_default) [Waiting, Waiting]) = Torn ''data race''"
  using overlapping_debates_fail [where i = 0 and j = 1 and ph = "[Waiting, Waiting]" and js = two_jobs
      and ms = "[''m1'', ''m2'']" and cl = "()" and cl' = "()" and answer = fading_answers
      and c = "new_council configuration_default"]
  by (simp add: two_jobs_idle two_jobs_def)

end
