(* ===== verification/Spec2Isabelle.thy ===== *)
theory Spec2Isabelle
  imports Debate_Properties Vote_Properties Council_Properties Config_Properties
    Query_Classifier Resilience_Properties Thread_Pool_Properties Hashing
    Metrics_Properties Client_Properties Database_Properties Web_Properties Dashboard_Properties
    Main_Properties Task_Reply_Properties Shared_Council
begin

text \<open>
  \<^bold>\<open>code-tribunal\<close> lets several analysts, each a role and a model of an LLM provider, answer a
  query in rounds, holds an election after each round, prunes analysts that contribute nothing
  and declares a winner. This library models the C++ program under \<open>src/src\<close> and states what it
  guarantees, and where it does not do what its documentation says.

  \<^bold>\<open>The parts and how they interact.\<close> \<open>main.cpp\<close> reads the command line, loads the configuration
  (\<open>ConfigParser\<close>), checks it (\<open>ConfigValidator\<close>), classifies the query (\<open>QueryClassifier\<close>), makes a
  client for the provider (\<open>ClientFactory\<close>) and either runs one debate on a council
  (\<open>CouncilOrchestrator\<close>, which owns an \<open>AnalystPool\<close> and a \<open>VotingSystem\<close>) or starts the web server
  (\<open>HttpServer\<close>), which accepts requests in one thread and runs the debate of each posted query in
  a thread of its own. \<open>Logger\<close> and \<open>Metrics\<close> are shared by the whole process. \<open>ThreadPool\<close>,
  \<open>RetryExecutor\<close>, \<open>CircuitBreaker\<close>, \<open>TimeoutGuard\<close>, \<open>Database\<close> and the hash functions are
  components the program offers and does not use yet.

  \<^bold>\<open>Theories and sources.\<close> Each record has the members of its class, each method is a function on it.
  \<^item> \<open>Tribunal_Prelude\<close>, \<open>Cpp_Numbers\<close>, \<open>Ordered_Map\<close>: the outcome of a call (return, exception,
    undefined behaviour, waiting forever), strings, numbers, \<open>std::map\<close> as the interface \<open>cpp_map\<close>.
  \<^item> \<open>Core_Types\<close> (\<open>core/types.h\<close>), \<open>LLM_Client\<close> (\<open>llm/LLMClient.h\<close>, the contract of a provider as the
    interface \<open>llm_provider\<close>).
  \<^item> \<open>Analyst\<close>, \<open>Pool\<close>, \<open>Election\<close>, \<open>Council\<close> (the files of these names in \<open>core/\<close>); what the voting
    system needs of the pool is the interface \<open>analyst_collection\<close>. \<open>Pool_Concurrency\<close> has the
    threads of \<open>AnalystPool::execute_round\<close> with their unsynchronised counter.
  \<^item> \<open>Logging\<close>, \<open>Metrics\<close>, \<open>Resilience\<close>, \<open>Thread_Pool\<close> (\<open>Concurrent\<close>), \<open>Hashing\<close> (\<open>Hash\<close>): the files
    of \<open>util/\<close>.
  \<^item> \<open>Config_Parser\<close>, \<open>Config_Validator\<close> (\<open>core/\<close>), \<open>Query_Classifier\<close> (\<open>ui/\<close>).
  \<^item> \<open>Ollama\<close>, \<open>Cloud_Clients\<close> (Claude and Google), \<open>Client_Factory\<close> (the factory and the client for
    several endpoints): the files of \<open>llm/\<close>, each client an interpretation of \<open>llm_provider\<close>.
  \<^item> \<open>Database\<close> (\<open>storage/\<close>), with the interface \<open>txn_provider\<close> of the transaction guard.
  \<^item> \<open>Http_Messages\<close>, \<open>Http_Server\<close>, \<open>Http_Routes\<close>, \<open>Web_Service\<close> (\<open>http/HttpServer\<close>): texts of requests
    and replies; job table and its handlers; metrics handlers, routing, the body of a job's thread;
    the accept loop and the threads as a step relation. The job table is the interface \<open>job_store\<close>.
  \<^item> \<open>Shared_Council\<close>: the debates of several job threads on the one council, taken apart into steps.
  \<^item> \<open>Json_Text\<close>, \<open>Dashboard\<close>, \<open>Dashboard_Replies\<close> (the script in \<open>HttpServer::get_dashboard_html\<close>):
    \<open>JSON.parse\<close> as a lexer and an automaton with a stack; the state of the page, its clicks, timers and
    requests; what the replies do to it. A request of the page is the text the routing of the server
    takes, and the body of a reply is the text the page reads, so the two halves are proved about together.
  \<^item> \<open>Main_Program\<close> (\<open>main.cpp\<close>).
  \<^item> \<open>C_Text\<close>, \<open>Task_Jobs\<close>, \<open>Task_Server\<close>: the task server of the earlier C phase (\<open>tribunal_http.c\<close>,
    which the Makefile no longer compiles): its scanning and escaping of texts, its table of 32
    jobs, again a \<open>job_store\<close>, and its handlers and routing.

  \<^bold>\<open>What is shown.\<close>
  \<^item> \<open>Debate_Properties\<close>: the statistics of an analyst count exactly its history; the pool keeps its
    bound; every schedule of a parallel round ends and refines the sequential round, except for the
    count, which loses updates.
  \<^item> \<open>Vote_Properties\<close>: who votes and for whom; the winner is the least analyst with the greatest
    positive sum, when the weights fit into an \<open>int\<close>; the pruning pass removes exactly the analysts its
    rule names.
  \<^item> \<open>Council_Properties\<close>: the exact transcript of a debate; its result never depends on the debate.
  \<^item> \<open>Config_Properties\<close>: printing and loading a file, which files make the loader throw, what the
    environment may fill in, which configurations are valid.
  \<^item> \<open>Query_Classifier\<close>, \<open>Resilience_Properties\<close>, \<open>Thread_Pool_Properties\<close>, \<open>Hashing\<close>,
    \<open>Metrics_Properties\<close>: the chosen type has the best score; attempts and waits are bounded, the
    breaker first opens on a streak of failures, later also on a failure while half open, and recovers;
    every accepted task runs once and is run before a stop returns, but a waiting client can sleep
    forever; hex round trip, detection of a changed byte, the hash of a file in chunks; exact statistics
    and percentiles, and reports that lock twice.
  \<^item> \<open>Client_Properties\<close>: a query never throws, and which reply of Claude makes it undefined; the round
    robin, also after the counter has wrapped. \<open>Database_Properties\<close>: a transaction scope is all or
    nothing, unless SQLite refuses the \<open>ROLLBACK\<close>, an error the code ignores.
  \<^item> \<open>Request_Properties\<close>, \<open>Web_Properties\<close>, \<open>Http_Messages\<close>: how each request ends, the endpoints that
    cannot be reached, the state invariant of the serving process, finished jobs never change, and
    the request that hangs the server. \<open>Main_Properties\<close>: the command line is read as it was written;
    exit code and last log line of a debate.
  \<^item> \<open>Shared_Council\<close>: a debate during which no other thread takes a step is the debate of the council,
    which justifies the atomic debates of \<open>Web_Service\<close>; for any two queries at once there are
    schedules that use a freed pool, race on it, or lose the responses of the first.
  \<^item> \<open>Dashboard_Texts\<close>, \<open>Dashboard_Properties\<close>: which replies of the server are JSON and what they are
    read as; a submitted query is polled back in every later state, unless it holds a quote or its
    debate is completed; the result of a debate is never shown; the history shows every query as
    failed, and nothing once a query held a quote; a submission that arrives in two parts ends the
    server; the tabs for details stay empty. \<open>Dashboard_Replies\<close> has the invariant of the timers.
  \<^item> \<open>Task_Server_Properties\<close>, \<open>Task_Reply_Properties\<close>: the C server as a step relation; the invariant of
    its job table, whose slots are never given back; finished jobs poll the same for ever; escaped
    texts stay in bounds and read back, and when escaping leaves the array it reads; when the list of
    tasks leaves its array; the calls a request for a patch makes on every branch, among them the
    failed commit that is not rolled back; the progress request is never reached.

  \<^bold>\<open>Bounds and conventions.\<close> Loops are structural recursion or functions with a measure; no operation
  of the program takes fuel. The one bounded loop of the model is the search for a decimal exponent
  when a floating-point number is printed, with 330 steps, more than the range of \<open>double\<close> needs.
  An \<open>int\<close> is a mathematical integer where the code stays in the range of its type for any run of
  realistic length (the counters of an analyst stay in range for \<open>2^30\<close> calls, the sums of a tally when
  its weights do; both are stated with the theorems); where it can leave the range, the operation is
  undefined or wraps as in C++ (the job counter, the products of the metrics, the token counts of
  Claude, the query counter of the round robin, FNV-1a). \<open>float\<close> and \<open>double\<close> are rationals, so sums are exact.
  A method that holds a mutex for its whole body is one step.

  \<^bold>\<open>Parameters.\<close> libcurl, SQLite, OpenSSL, the file system and environment, the clock, \<open>std::hash\<close>,
  the sockets and the answers of the providers are arguments; what is assumed of them is stated in
  the theorem that needs it. Of SQLite this is \<open>sqlite_contract\<close>, what its documentation says of
  \<open>BEGIN\<close>, \<open>COMMIT\<close>, \<open>ROLLBACK\<close> and failing statements, automatic rollbacks included; of OpenSSL
  \<open>evp_digests\<close>: successful calls hash what they were given, of failing ones nothing is assumed. An
  opened file delivers its bytes up to the first read that fails. The patch functions of the C server
  only leave a record of their calls (\<open>records_calls\<close>).

  \<^bold>\<open>Not modelled.\<close> The markup and styles of the dashboard page (a constant; of its script, Chart.js
  and the texts the browser makes of fractions, dates and locales are parameters, and texts count
  as UTF-8 bytes); the script of the page of the C
  server (a constant); the functions that the C headers declare and no file defines, which are
  parameters; the smoke test program; memory exhaustion; what happens after undefined
  behaviour, in particular after two debates have met on the one council: \<open>Shared_Council\<close> stops
  there, and \<open>Web_Service\<close> lets the debates take turns.
\<close>

end
